(* ===== verification/Prelude.thy ===== *)
theory Prelude
  imports Complex_Main "HOL-Library.Word" "HOL-Library.Product_Lexorder" "HOL-Library.Sublist"
begin

text \<open>
  Shared vocabulary of the development: identifiers and instants, the error values that stand
  for Python exceptions and HTTP error responses, the two forms of SQL \<^verbatim>\<open>COALESCE\<close>, and the lemma
  collections the component theories extend.

  A uuid is its 128-bit value. An instant (\<^verbatim>\<open>timestamptz\<close>, \<^verbatim>\<open>datetime\<close>) is its number of
  microseconds since the epoch. Python integers and SQL integer columns are \<open>int\<close>; the database
  driver refuses an argument that does not fit its column before any statement runs, so no
  stored value wraps around. A string is a list of Latin-1 code points, which is what
  Starlette decodes headers and cookies to.
\<close>

section \<open>Identifiers, instants, errors\<close>

type_synonym uuid = "128 word"
type_synonym timestamp = int

text \<open>One second of \<^verbatim>\<open>timedelta\<close>, in the unit of instants.\<close>

definition second :: timestamp where
  "second = 1000000"

definition hour :: timestamp where
  "hour = 3600 * second"

text \<open>The Python exceptions the modelled code raises or catches.\<close>

datatype py_error =
    ValueError
  | KeyError string
  | IndexError
  | FileNotFoundError string

text \<open>The \<^verbatim>\<open>HTTPException\<close> of FastAPI: a status code and a detail.\<close>

datatype http_error = HTTPException (status_code: nat) (detail: string)


section \<open>SQL null handling\<close>

text \<open>\<^verbatim>\<open>COALESCE(a, b)\<close> with a non-null and with a nullable second argument.\<close>

fun coalesce :: "'a option \<Rightarrow> 'a \<Rightarrow> 'a" where
  "coalesce None d = d"
| "coalesce (Some a) d = a"

fun coalesce_opt :: "'a option \<Rightarrow> 'a option \<Rightarrow> 'a option" where
  "coalesce_opt None d = d"
| "coalesce_opt (Some a) d = Some a"

lemma coalesce_opt_eq_Some_iff:
  "coalesce_opt a b = Some x \<longleftrightarrow> a = Some x \<or> (a = None \<and> b = Some x)"
  by (cases a) auto

lemma coalesce_opt_None_right [simp]: "coalesce_opt a None = a"
  by (cases a) auto

lemma coalesce_opt_is_None [simp]: "coalesce_opt a b = None \<longleftrightarrow> a = None \<and> b = None"
  by (cases a) auto

section \<open>Lemma collections\<close>

text \<open>
  \<open>store_defs\<close> holds the definitions of the database operations, \<open>handler_defs\<close> those of the
  HTTP handlers, \<open>row_defs\<close> the predicates over single rows.
\<close>

named_theorems store_defs
named_theorems handler_defs
named_theorems row_defs

section \<open>Lists\<close>

lemma filter_map_commute:
  assumes "\<And>x. x \<in> set xs \<Longrightarrow> P (f x) = P x"
  shows "filter P (map f xs) = map f (filter P xs)"
  using assms by (induction xs) auto

lemma distinct_map_unique:
  "distinct (map f xs) \<Longrightarrow> x \<in> set xs \<Longrightarrow> y \<in> set xs \<Longrightarrow> f x = f y \<Longrightarrow> x = y"
  by (auto simp: distinct_map dest: inj_onD)

lemma distinct_map_filter_key_length:
  assumes "distinct (map f xs)"
  shows "length (filter (\<lambda>x. f x = k) xs) \<le> 1"
  using assms
proof (induction xs)
  case Nil
  then show ?case by simp
next
  case (Cons a xs)
  show ?case
  proof (cases "f a = k")
    case True
    with Cons.prems have "\<forall>x\<in>set xs. f x \<noteq> k"
      by (auto simp: image_iff)
    then have "filter (\<lambda>x. f x = k) xs = []"
      by (simp add: filter_empty_conv)
    with True show ?thesis by simp
  next
    case False
    with Cons show ?thesis by simp
  qed
qed

lemma list_all2_memberD:
  "list_all2 P xs ys \<Longrightarrow> y \<in> set ys \<Longrightarrow> \<exists>x\<in>set xs. P x y"
  by (induction rule: list_all2_induct) auto

lemma sum_list_map_filter_cong:
  assumes "\<And>x. x \<in> set xs \<Longrightarrow> P x \<Longrightarrow> f x = g x"
  shows "(\<Sum>x\<leftarrow>filter P xs. f x) = (\<Sum>x\<leftarrow>filter P xs. g x)"
  using assms by (induction xs) auto

end
