(* ===== verification/Models.thy ===== *)
theory Models
  imports Prelude
begin

text \<open>
  \<^verbatim>\<open>ducklauncher/models.py\<close>: the bodies of requests and responses between clients, coordinator and
  workers, one record per model with its fields in the order of the source. Parsing and validation of
  JSON are the library's, except for the pattern of the status of a completion. \<open>UserResponse\<close> and
  \<open>AuthMeResponse\<close> are in \<open>Session_Auth\<close>.
\<close>

section \<open>Requests\<close>

record register_body =
  rb_worker_id :: "uuid option"
  rb_endpoint :: string
  rb_cpus :: int
  rb_memory :: int
  rb_disk_space :: int
  rb_max_concurrent_queries :: int

record heartbeat_body =
  hb_cpus :: "int option"
  hb_memory :: "int option"
  hb_disk_space :: "int option"
  hb_status :: "string option"
  hb_memory_used_mb :: "int option"
  hb_cpu_usage :: "real option"
  hb_running_queries :: "int option"

record submit_body =
  sb_query :: string
  sb_cpus :: "int option"
  sb_memory :: "int option"
  sb_disk_space :: "int option"

record complete_body =
  cb_status :: string
  cb_error :: "string option"
  cb_result_row_count :: "int option"

text \<open>The pattern of the status in \<^verbatim>\<open>CompleteQueryRequest\<close>; the validator matches whole texts.\<close>

definition valid_complete_body :: "complete_body \<Rightarrow> bool" where
  "valid_complete_body b \<longleftrightarrow> cb_status b = ''completed'' \<or> cb_status b = ''failed'' \<or> cb_status b = ''cancelled''"

record run_query_body =
  rq_query_id :: uuid
  rq_query :: string
  rq_cpus :: "int option"
  rq_memory :: "int option"
  rq_disk_space :: "int option"

record cancel_body =
  cq_query_id :: "uuid option"
  cq_reason :: "string option"

section \<open>Responses\<close>

record register_response =
  rr_worker_id :: uuid
  rr_init_scripts :: "string list"

record query_response =
  qr_query_id :: uuid
  qr_worker_id :: "uuid option"
  qr_user_id :: "uuid option"
  qr_status :: string
  qr_query :: string
  qr_error :: "string option"
  qr_cpus :: "int option"
  qr_memory :: "int option"
  qr_disk_space :: "int option"
  qr_created_at :: timestamp
  qr_started_at :: "timestamp option"
  qr_completed_at :: "timestamp option"
  qr_result_row_count :: "int option"

record sheet_response =
  shr_sheet_id :: uuid
  shr_name :: string
  shr_sql :: string
  shr_created_at :: timestamp
  shr_updated_at :: timestamp

record worker_response =
  wr_worker_id :: uuid
  wr_endpoint :: string
  wr_status :: string
  wr_cpus :: int
  wr_memory :: int
  wr_disk_space :: int
  wr_max_concurrent_queries :: int
  wr_running_queries :: int
  wr_memory_used_mb :: "int option"
  wr_cpu_usage :: "real option"
  wr_started_at :: timestamp
  wr_last_heartbeat_at :: timestamp

record 'v query_result_page =
  rp_query_id :: uuid
  rp_offset :: int
  rp_limit :: int
  rp_total_rows :: int
  rp_columns :: "string list"
  rp_rows :: "'v list list"

record metrics =
  mt_memory_used_mb :: int
  mt_memory_left_mb :: int
  mt_cpu_count :: int
  mt_cpu_usage :: real

section \<open>Sheets\<close>

record create_sheet_body =
  csb_name :: string
  csb_sql :: string

record update_sheet_body =
  usb_name :: "string option"
  usb_sql :: "string option"

section \<open>The catalog\<close>

record catalog_column =
  cc_name :: string
  cc_type :: string

record catalog_table =
  ct_name :: string
  ct_columns :: "catalog_column list"

record catalog_schema =
  cs_name :: string
  cs_tables :: "catalog_table list"

record catalog_database =
  cd_name :: string
  cd_schemas :: "catalog_schema list"

record catalog_response =
  cr_databases :: "catalog_database list"

end
