(* ===== verification/Sql.thy ===== *)
theory Sql
  imports Py_Str
begin

text \<open>
  The statements the store modules send to PostgreSQL, as functions on tables. A table is the
  list of its rows in scan order; a statement's \<^verbatim>\<open>WHERE\<close> clause is a predicate on rows and its
  \<^verbatim>\<open>SET\<close> clause a row function. \<^verbatim>\<open>UPDATE\<close> and \<^verbatim>\<open>DELETE\<close> report a command tag, whose last character
  the code tests. \<^verbatim>\<open>ORDER BY\<close> is a stable sort: rows with equal keys come in scan order, about
  which nothing is assumed, since every lemma holds for every list.
\<close>

section \<open>Statements\<close>

datatype sql_error = UniqueViolation | ForeignKeyViolation | NotifyPayloadTooLong | NegativeLimit

definition sql_update :: "('r \<Rightarrow> bool) \<Rightarrow> ('r \<Rightarrow> 'r) \<Rightarrow> 'r list \<Rightarrow> 'r list" where
  "sql_update cond upd t = map (\<lambda>r. if cond r then upd r else r) t"

text \<open>The rows an \<^verbatim>\<open>UPDATE ... RETURNING\<close> reports, with their new values.\<close>

definition returning :: "('r \<Rightarrow> bool) \<Rightarrow> ('r \<Rightarrow> 'r) \<Rightarrow> 'r list \<Rightarrow> 'r list" where
  "returning cond upd t = map upd (filter cond t)"

definition sql_delete :: "('r \<Rightarrow> bool) \<Rightarrow> 'r list \<Rightarrow> 'r list" where
  "sql_delete cond t = filter (\<lambda>r. \<not> cond r) t"

definition count_where :: "('r \<Rightarrow> bool) \<Rightarrow> 'r list \<Rightarrow> nat" where
  "count_where cond t = length (filter cond t)"

text \<open>\<^verbatim>\<open>INSERT\<close> into a table with a unique key.\<close>

definition sql_insert :: "('r \<Rightarrow> 'k) \<Rightarrow> 'r \<Rightarrow> 'r list \<Rightarrow> sql_error + 'r list" where
  "sql_insert key r t = (if key r \<in> key ` set t then Inl UniqueViolation else Inr (t @ [r]))"

text \<open>\<^verbatim>\<open>conn.fetchrow\<close>: the first row of a result, or nothing.\<close>

fun fetchrow :: "'r list \<Rightarrow> 'r option" where
  "fetchrow [] = None"
| "fetchrow (r # rs) = Some r"

definition order_by :: "('r \<Rightarrow> 'k :: linorder) \<Rightarrow> 'r list \<Rightarrow> 'r list" where
  "order_by key t = sort_key key t"

definition limit_offset :: "int \<Rightarrow> int \<Rightarrow> 'r list \<Rightarrow> sql_error + 'r list" where
  "limit_offset n off t =
     (if n < 0 \<or> off < 0 then Inl NegativeLimit
      else Inr (take (nat n) (drop (nat off) t)))"

text \<open>The command tag \<^verbatim>\<open>conn.execute\<close> returns, e.g. \<^verbatim>\<open>UPDATE 1\<close>, and the test the code makes on it.\<close>

definition command_tag :: "string \<Rightarrow> nat \<Rightarrow> string" where
  "command_tag verb n = verb @ '' '' @ str_of_nat n"

definition affected_one :: "string \<Rightarrow> nat \<Rightarrow> bool" where
  "affected_one verb n = endswith (command_tag verb n) ''1''"

section \<open>Lookup by key\<close>

definition row_of :: "('r \<Rightarrow> 'k) \<Rightarrow> 'k \<Rightarrow> 'r list \<Rightarrow> 'r option" where
  "row_of key k t = fetchrow (filter (\<lambda>r. key r = k) t)"

text \<open>The primary-key constraint of a table.\<close>

definition pk :: "('r \<Rightarrow> 'k) \<Rightarrow> 'r list \<Rightarrow> bool" where
  "pk key t = distinct (map key t)"

section \<open>The command tag\<close>

text \<open>The suffix test holds for every count that ends in the digit 1; with a primary key in the
  \<^verbatim>\<open>WHERE\<close> clause the count is 0 or 1, and the test means that a row was there.\<close>

lemma affected_one_iff_mod: "affected_one verb n \<longleftrightarrow> n mod 10 = 1"
proof -
  have "(char_of (48 + 1 :: nat) :: char) = CHR ''1''"
    by code_simp
  then show ?thesis
    using endswith_str_of_nat [of 1 "verb @ '' ''" n]
    by (simp add: affected_one_def command_tag_def)
qed

lemma affected_one_small: "n \<le> 1 \<Longrightarrow> affected_one verb n \<longleftrightarrow> n = 1"
  by (auto simp: affected_one_iff_mod)

lemma count_where_key_le: "pk key t \<Longrightarrow> count_where (\<lambda>r. key r = k \<and> P r) t \<le> 1"
proof -
  assume "pk key t"
  then have "length (filter (\<lambda>r. key r = k) t) \<le> 1"
    unfolding pk_def by (rule distinct_map_filter_key_length)
  moreover have "length (filter P (filter (\<lambda>r. key r = k) t)) \<le> length (filter (\<lambda>r. key r = k) t)"
    by (rule length_filter_le)
  ultimately show ?thesis
    by (simp add: count_where_def conj_commute)
qed

lemma count_where_eq_1:
  "pk key t \<Longrightarrow> count_where (\<lambda>r. key r = k \<and> P r) t = 1 \<longleftrightarrow> (\<exists>r\<in>set t. key r = k \<and> P r)"
proof -
  assume "pk key t"
  then have "count_where (\<lambda>r. key r = k \<and> P r) t \<le> 1"
    by (rule count_where_key_le)
  then have "count_where (\<lambda>r. key r = k \<and> P r) t = 1 \<longleftrightarrow>
      filter (\<lambda>r. key r = k \<and> P r) t \<noteq> []"
    by (cases "filter (\<lambda>r. key r = k \<and> P r) t") (auto simp: count_where_def)
  then show ?thesis by (auto simp: filter_empty_conv)
qed

lemma affected_one_key:
  "pk key t \<Longrightarrow>
    affected_one verb (count_where (\<lambda>r. key r = k \<and> P r) t) \<longleftrightarrow> (\<exists>r\<in>set t. key r = k \<and> P r)"
  by (simp only: affected_one_small [OF count_where_key_le] count_where_eq_1)

lemma affected_one_key_simple:
  "pk key t \<Longrightarrow>
    affected_one verb (count_where (\<lambda>r. key r = k) t) \<longleftrightarrow> (\<exists>r\<in>set t. key r = k)"
  using affected_one_key [of key t verb k "\<lambda>_. True"] by simp

section \<open>Keys and statements\<close>

lemma fetchrow_Some_set: "fetchrow t = Some r \<Longrightarrow> r \<in> set t"
  by (cases t) auto

lemma fetchrow_None [simp]: "fetchrow t = None \<longleftrightarrow> t = []"
  by (cases t) auto

lemma row_of_Some: "row_of key k t = Some r \<Longrightarrow> r \<in> set t \<and> key r = k"
  unfolding row_of_def using fetchrow_Some_set by fastforce

lemma row_of_None: "row_of key k t = None \<longleftrightarrow> k \<notin> key ` set t"
  by (auto simp: row_of_def filter_empty_conv)

lemma row_of_Nil [simp]: "row_of key k [] = None"
  by (simp add: row_of_def)

lemma row_of_Cons: "row_of key k (r # t) = (if key r = k then Some r else row_of key k t)"
  by (simp add: row_of_def)

lemma row_of_append: "row_of key k (t @ u) =
    (case row_of key k t of None \<Rightarrow> row_of key k u | Some r \<Rightarrow> Some r)"
  by (induction t) (auto simp: row_of_Cons)

lemma row_of_iff: "pk key t \<Longrightarrow> row_of key k t = Some r \<longleftrightarrow> r \<in> set t \<and> key r = k"
  by (induction t) (auto simp: pk_def row_of_Cons image_iff)

lemma pk_filter: "pk key t \<Longrightarrow> row_of key k t = Some r \<Longrightarrow> filter (\<lambda>r. key r = k) t = [r]"
  by (induction t) (auto simp: pk_def row_of_Cons filter_empty_conv image_iff split: if_splits)

lemma pk_Nil [simp]: "pk key []"
  by (simp add: pk_def)

lemma pk_append_one: "pk key (t @ [r]) \<longleftrightarrow> pk key t \<and> key r \<notin> key ` set t"
  by (auto simp: pk_def)

lemma map_key_update:
  "(\<And>r. key (upd r) = key r) \<Longrightarrow> map key (sql_update cond upd t) = map key t"
  by (simp add: sql_update_def)

lemma pk_update: "(\<And>r. key (upd r) = key r) \<Longrightarrow> pk key (sql_update cond upd t) = pk key t"
  by (simp add: pk_def map_key_update)

lemma pk_delete: "pk key t \<Longrightarrow> pk key (sql_delete cond t)"
  by (simp add: pk_def sql_delete_def distinct_map_filter)

lemma pk_insert: "sql_insert key r t = Inr t' \<Longrightarrow> pk key t \<Longrightarrow> pk key t'"
  by (auto simp: sql_insert_def pk_append_one split: if_splits)

lemma row_of_update:
  assumes "\<And>r. key (upd r) = key r"
  shows "row_of key k (sql_update cond upd t) =
    map_option (\<lambda>r. if cond r then upd r else r) (row_of key k t)"
  using assms by (induction t) (auto simp: sql_update_def row_of_Cons)

lemma key_image_update:
  "(\<And>r. key (upd r) = key r) \<Longrightarrow> key ` set (sql_update cond upd t) = key ` set t"
  by (metis list.set_map map_key_update)

lemma row_of_insert:
  "sql_insert key r t = Inr t' \<Longrightarrow>
    row_of key k t' = (if k = key r then Some r else row_of key k t)"
  by (auto simp: sql_insert_def row_of_append row_of_Cons row_of_None [symmetric]
      split: if_splits option.splits)

lemma row_of_delete:
  "row_of key k (sql_delete (\<lambda>r. key r = k') t) = (if k = k' then None else row_of key k t)"
  by (induction t) (auto simp: sql_delete_def row_of_Cons)

lemma set_update: "set (sql_update cond upd t) = (\<lambda>r. if cond r then upd r else r) ` set t"
  by (simp add: sql_update_def)

lemma update_id: "(\<And>r. r \<in> set t \<Longrightarrow> \<not> cond r) \<Longrightarrow> sql_update cond upd t = t"
  by (induction t) (auto simp: sql_update_def)

lemma filter_update_invariant:
  "(\<And>r. P (upd r) = P r) \<Longrightarrow> filter P (sql_update cond upd t) = sql_update cond upd (filter P t)"
  by (induction t) (auto simp: sql_update_def)

section \<open>Ordered selection\<close>

lemma set_order_by [simp]: "set (order_by key t) = set t"
  by (simp add: order_by_def)

lemma order_by_Nil [simp]: "order_by key [] = []"
  by (simp add: order_by_def)

lemma order_by_Nil_iff [simp]: "order_by key t = [] \<longleftrightarrow> t = []"
  by (metis set_order_by set_empty)

text \<open>\<^verbatim>\<open>ORDER BY key LIMIT 1\<close> is a row with the least key.\<close>

lemma fetchrow_order_by:
  assumes "fetchrow (order_by key t) = Some r"
  shows "r \<in> set t" and "\<forall>s\<in>set t. key r \<le> key s"
proof -
  obtain rs where rs: "order_by key t = r # rs"
    using assms by (cases "order_by key t") auto
  then show "r \<in> set t"
    by (metis list.set_intros(1) set_order_by)
  have "sorted (map key (order_by key t))"
    by (simp add: order_by_def)
  then have "\<forall>s\<in>set (order_by key t). key r \<le> key s"
    by (auto simp: rs)
  then show "\<forall>s\<in>set t. key r \<le> key s" by simp
qed

end
