(* ===== verification/Uuid.thy ===== *)
theory Uuid
  imports Py_Str
begin

text \<open>
  \<^verbatim>\<open>str(u)\<close> and \<^verbatim>\<open>UUID(s)\<close> of Python's \<^verbatim>\<open>uuid\<close> module, which the source uses for cookies, URLs,
  request bodies, notification payloads and file names. The parser accepts every spelling the
  class does: a \<^verbatim>\<open>urn:\<close> or \<^verbatim>\<open>uuid:\<close> prefix, braces, hyphens anywhere, and, through \<^verbatim>\<open>int(hex, 16)\<close>,
  white space, a sign, a \<^verbatim>\<open>0x\<close> prefix and underscores between digits. The round trip says that
  what is printed reads back as the same value, so printing is injective.
\<close>

section \<open>Printing\<close>

definition hex_char :: "nat \<Rightarrow> char" where
  "hex_char d = (if d < 10 then char_of (48 + d) else char_of (87 + d))"

text \<open>\<^verbatim>\<open>'%0nx' % v\<close> for a value below \<open>16 ^ n\<close>.\<close>

fun hex_fixed :: "nat \<Rightarrow> nat \<Rightarrow> string" where
  "hex_fixed 0 v = []"
| "hex_fixed (Suc n) v = hex_fixed n (v div 16) @ [hex_char (v mod 16)]"

definition str_uuid :: "uuid \<Rightarrow> string" where
  "str_uuid u = (let h = hex_fixed 32 (unat u) in
     take 8 h @ ''-'' @ take 4 (drop 8 h) @ ''-'' @ take 4 (drop 12 h) @ ''-'' @
     take 4 (drop 16 h) @ ''-'' @ drop 20 h)"

section \<open>Parsing\<close>

definition hex_val :: "char \<Rightarrow> nat option" where
  "hex_val c = (let n = code c in
     if 48 \<le> n \<and> n \<le> 57 then Some (n - 48)
     else if 97 \<le> n \<and> n \<le> 102 then Some (n - 87)
     else if 65 \<le> n \<and> n \<le> 70 then Some (n - 55)
     else None)"

text \<open>The digits of \<^verbatim>\<open>int(s, 16)\<close>; the flag says that the character before was a digit, which an
  underscore and the end of the string require.\<close>

fun scan_hex :: "bool \<Rightarrow> nat \<Rightarrow> string \<Rightarrow> nat option" where
  "scan_hex after acc [] = (if after then Some acc else None)"
| "scan_hex after acc (c # cs) =
     (if c = CHR ''_'' then (if after then scan_hex False acc cs else None)
      else (case hex_val c of
              None \<Rightarrow> None
            | Some d \<Rightarrow> scan_hex True (16 * acc + d) cs))"

definition hex_body :: "string \<Rightarrow> nat option" where
  "hex_body s =
     (if startswith s ''0x'' \<or> startswith s ''0X''
      then scan_hex True 0 (drop 2 s) \<comment> \<open>one underscore may follow the prefix\<close>
      else scan_hex False 0 s)"

text \<open>After a bare prefix the scan has seen no digit: \<^verbatim>\<open>int('0x', 16)\<close> raises.\<close>

definition int16 :: "string \<Rightarrow> int option" where
  "int16 s0 = (let s = strip s0;
       body = (\<lambda>t. if t = ''0x'' \<or> t = ''0X'' then None else map_option int (hex_body t))
     in if startswith s ''-'' then map_option uminus (body (drop 1 s))
        else if startswith s ''+'' then body (drop 1 s)
        else body s)"

definition parse_uuid :: "string \<Rightarrow> py_error + uuid" where
  "parse_uuid s =
     (let h1 = replace ''uuid:'' '''' (replace ''urn:'' '''' s);
          h2 = replace ''-'' '''' (strip_chars ''{}'' h1)
      in if length h2 \<noteq> 32 then Inl ValueError
         else (case int16 h2 of
                 None \<Rightarrow> Inl ValueError
               | Some i \<Rightarrow> if 0 \<le> i \<and> i < 2 ^ 128 then Inr (word_of_int i) else Inl ValueError))"

section \<open>The round trip\<close>

text \<open>The sixteen characters a printed value consists of.\<close>

definition is_hex_digit :: "char \<Rightarrow> bool" where
  "is_hex_digit c \<longleftrightarrow> (\<exists>d<16. c = hex_char d)"

lemma code_hex_char: "d < 16 \<Longrightarrow> code (hex_char d) = (if d < 10 then 48 + d else 87 + d)"
  by (simp add: hex_char_def code_def)

lemma hex_val_hex_char [simp]: "d < 16 \<Longrightarrow> hex_val (hex_char d) = Some d"
  by (auto simp: hex_val_def code_hex_char Let_def)

lemma is_hex_digit_code:
  "is_hex_digit c \<Longrightarrow> (48 \<le> code c \<and> code c \<le> 57) \<or> (97 \<le> code c \<and> code c \<le> 102)"
  by (auto simp: is_hex_digit_def code_hex_char split: if_split_asm)

lemma hex_digit_not:
  assumes "is_hex_digit c"
  shows "c \<noteq> CHR ''-''" "c \<noteq> CHR ''_''" "c \<noteq> CHR ''u''" "c \<noteq> CHR ''x''" "c \<noteq> CHR ''X''"
    "c \<noteq> CHR ''+''" "c \<noteq> CHR ''{''" "c \<noteq> CHR ''}''" "c \<noteq> CHR ''/''" "c \<noteq> CHR ''.''" "\<not> is_space c"
  using is_hex_digit_code [OF assms] by (auto simp: code_def is_space_def Let_def)

lemma hex_fixed_length [simp]: "length (hex_fixed n v) = n"
  by (induction n arbitrary: v) auto

lemma hex_fixed_digits: "c \<in> set (hex_fixed n v) \<Longrightarrow> is_hex_digit c"
proof (induction n arbitrary: v)
  case 0
  then show ?case by simp
next
  case (Suc n)
  have "is_hex_digit (hex_char (v mod 16))"
    by (auto simp: is_hex_digit_def intro!: exI [of _ "v mod 16"])
  with Suc show ?case by auto
qed

lemma scan_hex_append:
  assumes "\<forall>c\<in>set xs. is_hex_digit c" and "xs \<noteq> []" and "scan_hex b acc xs = Some v"
  shows "scan_hex b acc (xs @ ys) = scan_hex True v ys"
  using assms
proof (induction xs arbitrary: b acc)
  case Nil
  then show ?case by simp
next
  case (Cons c xs)
  then obtain d where d: "d < 16" "c = hex_char d"
    by (auto simp: is_hex_digit_def)
  then have "c \<noteq> CHR ''_''"
    using hex_digit_not [of c] Cons.prems(1) by simp
  with Cons d show ?case
    by (cases xs) auto
qed

lemma scan_hex_fixed:
  "0 < n \<Longrightarrow> v < 16 ^ n \<Longrightarrow> scan_hex b 0 (hex_fixed n v) = Some v"
proof (induction n arbitrary: v)
  case 0
  then show ?case by simp
next
  case (Suc n)
  have last: "scan_hex c acc [hex_char (v mod 16)] = Some (16 * acc + v mod 16)" for c acc
  proof -
    have "is_hex_digit (hex_char (v mod 16))"
      by (auto simp: is_hex_digit_def intro!: exI [of _ "v mod 16"])
    then show ?thesis
      using hex_digit_not(2) by auto
  qed
  show ?case
  proof (cases "n = 0")
    case True
    with Suc.prems last show ?thesis by simp
  next
    case False
    have "v div 16 < 16 ^ n"
      using Suc.prems by (simp add: less_mult_imp_div_less mult.commute)
    with False have "scan_hex b 0 (hex_fixed n (v div 16)) = Some (v div 16)"
      by (intro Suc.IH) auto
    then have "scan_hex b 0 (hex_fixed n (v div 16) @ [hex_char (v mod 16)]) =
        scan_hex True (v div 16) [hex_char (v mod 16)]"
      using False hex_fixed_digits
      by (intro scan_hex_append) (auto simp flip: length_0_conv)
    then show ?thesis by (simp add: last del: scan_hex.simps)
  qed
qed

lemma set_str_uuid: "c \<in> set (str_uuid u) \<Longrightarrow> is_hex_digit c \<or> c = CHR ''-''"
  by (auto simp: str_uuid_def Let_def dest!: in_set_takeD in_set_dropD intro: hex_fixed_digits)

lemma filter_hex_fixed:
  assumes "set xs \<subseteq> set (hex_fixed n v)"
  shows "filter (\<lambda>c. c \<noteq> CHR ''-'') xs = xs"
proof -
  have "\<forall>c\<in>set xs. c \<noteq> CHR ''-''"
    using assms hex_fixed_digits hex_digit_not(1) by blast
  then show ?thesis by (simp add: filter_id_conv)
qed

lemma str_uuid_no_dashes: "filter (\<lambda>c. c \<noteq> CHR ''-'') (str_uuid u) = hex_fixed 32 (unat u)"
proof -
  let ?h = "hex_fixed 32 (unat u)"
  have f: "filter (\<lambda>c. c \<noteq> CHR ''-'') (take a (drop b ?h)) = take a (drop b ?h)" for a b
    by (rule filter_hex_fixed [of _ 32 "unat u"]) (auto dest: in_set_takeD in_set_dropD)
  have f0: "filter (\<lambda>c. c \<noteq> CHR ''-'') (take 8 ?h) = take 8 ?h"
    using f [of 8 0] by simp
  have fd: "filter (\<lambda>c. c \<noteq> CHR ''-'') (drop 20 ?h) = drop 20 ?h"
    by (rule filter_hex_fixed [of _ 32 "unat u"]) (auto dest: in_set_dropD)
  have a: "drop 16 ?h = take 4 (drop 16 ?h) @ drop 20 ?h"
    using append_take_drop_id [of 4 "drop 16 ?h"] by simp
  have b: "drop 12 ?h = take 4 (drop 12 ?h) @ drop 16 ?h"
    using append_take_drop_id [of 4 "drop 12 ?h"] by simp
  have c: "drop 8 ?h = take 4 (drop 8 ?h) @ drop 12 ?h"
    using append_take_drop_id [of 4 "drop 8 ?h"] by simp
  have "take 8 ?h @ take 4 (drop 8 ?h) @ take 4 (drop 12 ?h) @ take 4 (drop 16 ?h) @ drop 20 ?h
      = ?h"
    by (simp only: a [symmetric] b [symmetric] c [symmetric] append_take_drop_id)
  then show ?thesis
    by (simp add: str_uuid_def Let_def f f0 fd)
qed

lemma strip_chars_no_effect: "set s \<inter> set cs = {} \<Longrightarrow> strip_chars cs s = s"
proof -
  assume a: "set s \<inter> set cs = {}"
  have d: "dropWhile (\<lambda>c. c \<in> set cs) t = t" if "set t \<inter> set cs = {}" for t
    using that by (cases t) auto
  show ?thesis
    using a by (simp add: strip_chars_def rstrip_chars_def d)
qed

lemma strip_no_effect: "\<forall>c\<in>set s. \<not> is_space c \<Longrightarrow> strip s = s"
proof -
  assume a: "\<forall>c\<in>set s. \<not> is_space c"
  have d: "dropWhile is_space t = t" if "\<forall>c\<in>set t. \<not> is_space c" for t
    using that by (cases t) auto
  show ?thesis
    using a by (simp add: strip_def lstrip_def rstrip_def d)
qed

lemma int16_hex_fixed: "v < 16 ^ 32 \<Longrightarrow> int16 (hex_fixed 32 v) = Some (int v)"
proof -
  assume v: "v < 16 ^ 32"
  let ?h = "hex_fixed 32 v"
  have dig: "\<forall>c\<in>set ?h. is_hex_digit c"
    by (auto intro: hex_fixed_digits)
  obtain c t where ct: "?h = c # t"
    by (cases ?h) (use hex_fixed_length [of 32 v] in auto)
  then obtain d r where "t = d # r"
    by (cases t) (use hex_fixed_length [of 32 v] in auto)
  with ct have h: "?h = c # d # r" by simp
  have "is_hex_digit c" "is_hex_digit d"
    using dig h by auto
  then have ne: "c \<noteq> CHR ''-''" "c \<noteq> CHR ''+''" "d \<noteq> CHR ''x''" "d \<noteq> CHR ''X''"
    using hex_digit_not by auto
  have st: "strip ?h = ?h"
    using dig hex_digit_not by (intro strip_no_effect) auto
  have "hex_body ?h = Some v"
    using ne h scan_hex_fixed [of 32 v False] v by (simp add: hex_body_def)
  with ne h show ?thesis
    unfolding int16_def st Let_def by simp
qed

lemma parse_uuid_str [simp]: "parse_uuid (str_uuid u) = Inr u"
proof -
  have u: "CHR ''u'' \<notin> set (str_uuid u)"
    using set_str_uuid [of "CHR ''u''" u] hex_digit_not(3) [of "CHR ''u''"] by auto
  have b: "set (str_uuid u) \<inter> set ''{}'' = {}"
    using set_str_uuid [of "CHR ''{''" u] set_str_uuid [of "CHR ''}''" u]
      hex_digit_not(7) [of "CHR ''{''"] hex_digit_not(8) [of "CHR ''}''"] by auto
  have lt: "unat u < 16 ^ 32"
    using unsigned_less [of u, where ?'a = nat] by simp
  have "uint u < 2 ^ 128"
    using unsigned_less [of u, where ?'a = int] by simp
  then show ?thesis
    using lt
    by (simp add: parse_uuid_def Let_def replace_absent [OF u] strip_chars_no_effect [OF b]
        replace_single_delete str_uuid_no_dashes int16_hex_fixed)
qed

lemma str_uuid_inj: "str_uuid u = str_uuid v \<longleftrightarrow> u = v"
  by (metis Inr_inject parse_uuid_str)

end
