(* ===== verification/Json.thy ===== *)
theory Json
  imports Uuid
begin

text \<open>
  The JSON texts the coordinator exchanges with PostgreSQL's notification channel and with its
  event-stream clients: flat objects whose values are null, integers or strings. \<open>json_dumps\<close> is
  \<^verbatim>\<open>json.dumps\<close> with its default separators and \<^verbatim>\<open>ensure_ascii\<close>, \<open>json_loads\<close> is \<^verbatim>\<open>json.loads\<close> on such
  objects; any other text is \<open>None\<close>, the \<^verbatim>\<open>JSONDecodeError\<close> of the source. What is dumped loads
  back, and a dumped text holds printable ASCII only, hence no line break.
\<close>

section \<open>Values and printing\<close>

datatype json = JNull | JInt int | JStr string

type_synonym json_obj = "(string \<times> json) list"

definition escape_char :: "char \<Rightarrow> string" where
  "escape_char c =
     (if c = CHR 0x22 then [CHR 0x5C, CHR 0x22]
      else if c = CHR 0x5C then [CHR 0x5C, CHR 0x5C]
      else if c = CHR 0x0A then [CHR 0x5C, CHR ''n'']
      else if c = CHR 0x0D then [CHR 0x5C, CHR ''r'']
      else if c = CHR 0x09 then [CHR 0x5C, CHR ''t'']
      else if c = CHR 0x0C then [CHR 0x5C, CHR ''f'']
      else if c = CHR 0x08 then [CHR 0x5C, CHR ''b'']
      else if code c < 32 \<or> 126 < code c then [CHR 0x5C, CHR ''u''] @ hex_fixed 4 (code c)
      else [c])"

definition dump_string :: "string \<Rightarrow> string" where
  "dump_string s = CHR 0x22 # concat (map escape_char s) @ [CHR 0x22]"

definition dump_int :: "int \<Rightarrow> string" where
  "dump_int i = (if i < 0 then ''-'' @ str_of_nat (nat (- i)) else str_of_nat (nat i))"

fun dump_value :: "json \<Rightarrow> string" where
  "dump_value JNull = ''null''"
| "dump_value (JInt i) = dump_int i"
| "dump_value (JStr s) = dump_string s"

fun dump_members :: "json_obj \<Rightarrow> string" where
  "dump_members [] = []"
| "dump_members [(k, v)] = dump_string k @ '': '' @ dump_value v"
| "dump_members ((k, v) # kv # kvs) =
     dump_string k @ '': '' @ dump_value v @ '', '' @ dump_members (kv # kvs)"

definition json_dumps :: "json_obj \<Rightarrow> string" where
  "json_dumps kvs = ''{'' @ dump_members kvs @ ''}''"

section \<open>Reading\<close>

definition simple_escape :: "char \<Rightarrow> char option" where
  "simple_escape c =
     (if c = CHR 0x22 then Some (CHR 0x22) else if c = CHR 0x5C then Some (CHR 0x5C)
      else if c = CHR ''/'' then Some (CHR ''/'') else if c = CHR ''n'' then Some (CHR 0x0A)
      else if c = CHR ''r'' then Some (CHR 0x0D) else if c = CHR ''t'' then Some (CHR 0x09)
      else if c = CHR ''f'' then Some (CHR 0x0C) else if c = CHR ''b'' then Some (CHR 0x08)
      else None)"

definition unicode_escape :: "string \<Rightarrow> char option" where
  "unicode_escape h = (case scan_hex False 0 h of
       Some n \<Rightarrow> if n < 256 \<and> CHR ''_'' \<notin> set h then Some (char_of n) else None
     | None \<Rightarrow> None)"

text \<open>The characters up to the closing quote, and what follows it.\<close>

fun load_string :: "string \<Rightarrow> (string \<times> string) option" where
  "load_string [] = None"
| "load_string (c # cs) =
     (if c = CHR 0x22 then Some ([], cs)
      else if c = CHR 0x5C then
        (case cs of
           [] \<Rightarrow> None
         | e # r \<Rightarrow>
             if e = CHR ''u''
             then (case unicode_escape (take 4 r) of
                     Some x \<Rightarrow> if length r < 4 then None
                       else map_option (\<lambda>(s, t). (x # s, t)) (load_string (drop 4 r))
                   | None \<Rightarrow> None)
             else (case simple_escape e of
                     Some x \<Rightarrow> map_option (\<lambda>(s, t). (x # s, t)) (load_string r)
                   | None \<Rightarrow> None))
      else if code c < 32 then None
      else map_option (\<lambda>(s, t). (c # s, t)) (load_string cs))"

definition is_digit :: "char \<Rightarrow> bool" where
  "is_digit c = (48 \<le> code c \<and> code c \<le> 57)"

definition nat_of_digits :: "string \<Rightarrow> nat" where
  "nat_of_digits ds = foldl (\<lambda>n c. 10 * n + (code c - 48)) 0 ds"

definition load_value :: "string \<Rightarrow> (json \<times> string) option" where
  "load_value s =
     (if startswith s ''null'' then Some (JNull, drop 4 s)
      else case s of
        [] \<Rightarrow> None
      | c # cs \<Rightarrow>
          if c = CHR 0x22 then map_option (\<lambda>(x, r). (JStr x, r)) (load_string cs)
          else if c = CHR ''-'' \<and> takeWhile is_digit cs \<noteq> []
          then Some (JInt (- int (nat_of_digits (takeWhile is_digit cs))), dropWhile is_digit cs)
          else if is_digit c
          then Some (JInt (int (nat_of_digits (takeWhile is_digit s))), dropWhile is_digit s)
          else None)"

definition skip_ws :: "string \<Rightarrow> string" where
  "skip_ws = dropWhile (\<lambda>c. code c \<in> {9, 10, 13, 32})"

definition expect :: "char \<Rightarrow> string \<Rightarrow> string option" where
  "expect c s = (case skip_ws s of d # r \<Rightarrow> if d = c then Some (skip_ws r) else None | [] \<Rightarrow> None)"

text \<open>The members of an object after its opening brace and white space; the fuel bounds their
  number, and a text has fewer members than characters.\<close>

fun load_members :: "nat \<Rightarrow> string \<Rightarrow> json_obj option" where
  "load_members 0 s = None"
| "load_members (Suc n) s =
     (case s of
        [] \<Rightarrow> None
      | q # cs \<Rightarrow>
          if q \<noteq> CHR 0x22 then None
          else Option.bind (load_string cs) (\<lambda>(k, r1).
               Option.bind (expect (CHR '':'') r1) (\<lambda>r2.
               Option.bind (load_value r2) (\<lambda>(v, r3).
               case expect (CHR '','') r3 of
                 Some r4 \<Rightarrow> map_option (\<lambda>kvs. (k, v) # kvs) (load_members n r4)
               | None \<Rightarrow> (case expect (CHR ''}'') r3 of
                             Some [] \<Rightarrow> Some [(k, v)]
                           | _ \<Rightarrow> None)))))"

definition json_loads :: "string \<Rightarrow> json_obj option" where
  "json_loads s =
     (case expect (CHR ''{'') s of
        Some r \<Rightarrow> if expect (CHR ''}'') r = Some [] then Some [] else load_members (length r) r
      | None \<Rightarrow> None)"

section \<open>Dumped texts are printable ASCII\<close>

definition is_printable :: "char \<Rightarrow> bool" where
  "is_printable c = (32 \<le> code c \<and> code c \<le> 126)"

lemma hex_fixed_printable: "\<forall>c\<in>set (hex_fixed n v). is_printable c"
  using is_hex_digit_code hex_fixed_digits by (force simp: is_printable_def)

lemma escape_char_printable: "\<forall>d\<in>set (escape_char c). is_printable d"
  using hex_fixed_printable [of 4 "code c"]
  by (auto simp: escape_char_def is_printable_def Let_def code_def)

lemma dump_string_printable: "\<forall>c\<in>set (dump_string s). is_printable c"
  using escape_char_printable by (auto simp: dump_string_def is_printable_def code_def)

lemma digit_char_code: "d < 10 \<Longrightarrow> code (char_of (48 + d)) = 48 + d"
  by (simp add: code_def)

lemma str_of_nat_digits: "\<forall>c\<in>set (str_of_nat n). is_digit c"
proof (induction n rule: str_of_nat.induct)
  case (1 n)
  then show ?case
    using digit_char_code [of n] digit_char_code [of "n mod 10"]
    by (cases "n < 10") (auto simp: str_of_nat.simps [of n] is_digit_def)
qed

lemma dump_int_printable: "\<forall>c\<in>set (dump_int i). is_printable c"
proof -
  have "is_digit c \<Longrightarrow> is_printable c" for c
    by (simp add: is_digit_def is_printable_def)
  moreover have "is_printable (CHR ''-'')"
    by (simp add: is_printable_def code_def)
  ultimately show ?thesis
    using str_of_nat_digits by (auto simp: dump_int_def)
qed

lemma dump_value_printable: "\<forall>c\<in>set (dump_value v). is_printable c"
  using dump_int_printable dump_string_printable
  by (cases v) (auto simp: is_printable_def code_def)

lemma dump_members_printable: "\<forall>c\<in>set (dump_members kvs). is_printable c"
proof (induction kvs rule: dump_members.induct)
  case 1
  then show ?case by simp
next
  case (2 k v)
  then show ?case
    using dump_string_printable [of k] dump_value_printable [of v]
    by (auto simp: is_printable_def code_def)
next
  case (3 k v kv kvs)
  then show ?case
    using dump_string_printable [of k] dump_value_printable [of v]
    by (auto simp: is_printable_def code_def)
qed

lemma json_dumps_printable: "\<forall>c\<in>set (json_dumps kvs). is_printable c"
  using dump_members_printable [of kvs] by (auto simp: json_dumps_def is_printable_def code_def)

section \<open>What is dumped loads back\<close>

lemma unicode_escape_hex: "unicode_escape (hex_fixed 4 (code c)) = Some c"
proof -
  have lt: "code c < 256"
    by (simp add: code_def nat_of_char_less_256)
  have "CHR ''_'' \<notin> set (hex_fixed 4 (code c))"
    using hex_fixed_digits hex_digit_not(2) by blast
  with lt show ?thesis
    by (simp add: unicode_escape_def scan_hex_fixed) (simp add: code_def)
qed

lemma load_escape_char:
  "load_string (escape_char c @ t) = map_option (\<lambda>(s, r). (c # s, r)) (load_string t)"
proof -
  let ?special = "{CHR 0x22, CHR 0x5C, CHR 0x0A, CHR 0x0D, CHR 0x09, CHR 0x0C, CHR 0x08}"
  consider "c \<in> ?special"
    | "c \<notin> ?special" "code c < 32 \<or> 126 < code c"
    | "c \<notin> ?special" "32 \<le> code c" "code c \<le> 126"
    by force
  then show ?thesis
  proof cases
    case 1
    then show ?thesis
      by (auto simp: escape_char_def simple_escape_def)
  next
    case 2
    then have "escape_char c = [CHR 0x5C, CHR ''u''] @ hex_fixed 4 (code c)"
      by (auto simp: escape_char_def)
    then show ?thesis
      using unicode_escape_hex [of c] by simp
  next
    case 3
    then show ?thesis
      by (simp add: escape_char_def)
  qed
qed

lemma load_dump_string: "load_string (tl (dump_string s) @ r) = Some (s, r)"
proof -
  have "load_string (concat (map escape_char s) @ CHR 0x22 # r) = Some (s, r)"
    by (induction s) (auto simp: load_escape_char simp del: load_string.simps(2), simp)
  then show ?thesis by (simp add: dump_string_def)
qed

lemma nat_of_digits_append: "nat_of_digits (ds @ [c]) = 10 * nat_of_digits ds + (code c - 48)"
  by (simp add: nat_of_digits_def)

lemma nat_of_digits_str [simp]: "nat_of_digits (str_of_nat n) = n"
proof (induction n rule: str_of_nat.induct)
  case (1 n)
  show ?case
  proof (cases "n < 10")
    case True
    then show ?thesis
      by (simp add: str_of_nat.simps [of n] nat_of_digits_def digit_char_code)
  next
    case False
    with 1 show ?thesis
      by (simp add: str_of_nat.simps [of n] nat_of_digits_append digit_char_code)
  qed
qed

lemma takeWhile_digits:
  assumes "r = [] \<or> \<not> is_digit (hd r)"
  shows "takeWhile is_digit (str_of_nat n @ r) = str_of_nat n"
    and "dropWhile is_digit (str_of_nat n @ r) = r"
  using assms str_of_nat_digits [of n]
  by (cases r; simp add: takeWhile_append2 dropWhile_append2)+

lemma str_of_nat_Cons: obtains c cs where "str_of_nat n = c # cs" "is_digit c"
  using last_str_of_nat [of n] str_of_nat_digits [of n] by (cases "str_of_nat n") auto

lemma load_dump_int:
  assumes "r = [] \<or> \<not> is_digit (hd r)"
  shows "load_value (dump_int i @ r) = Some (JInt i, r)"
proof (cases "i < 0")
  case True
  have "str_of_nat (nat (- i)) \<noteq> []"
    using last_str_of_nat by blast
  with True show ?thesis
    by (simp add: dump_int_def load_value_def takeWhile_digits [OF assms])
next
  case False
  obtain c cs where c: "str_of_nat (nat i) = c # cs" "is_digit c"
    by (rule str_of_nat_Cons)
  then have "c \<noteq> CHR ''n''" "c \<noteq> CHR 0x22" "c \<noteq> CHR ''-''"
    by (auto simp: is_digit_def code_def)
  then show ?thesis
    using False c takeWhile_digits [OF assms, of "nat i"] nat_of_digits_str [of "nat i"]
    by (simp add: dump_int_def load_value_def)
qed

lemma load_dump_value:
  assumes "r = [] \<or> \<not> is_digit (hd r)"
  shows "load_value (dump_value v @ r) = Some (v, r)"
proof (cases v)
  case JNull
  then show ?thesis by (simp add: load_value_def)
next
  case (JInt i)
  then show ?thesis using load_dump_int [OF assms] by simp
next
  case (JStr s)
  then show ?thesis
    using load_dump_string [of s r] by (simp add: load_value_def dump_string_def)
qed

text \<open>A printed value or key starts with no white space, so \<open>skip_ws\<close> stops in front of it.\<close>

lemma skip_ws_simps [simp]:
  "skip_ws [] = []"
  "code c \<in> {9, 10, 13, 32} \<Longrightarrow> skip_ws (c # s) = skip_ws s"
  "code c \<notin> {9, 10, 13, 32} \<Longrightarrow> skip_ws (c # s) = c # s"
  by (simp_all add: skip_ws_def)

lemma dump_value_Cons:
  obtains c cs where "dump_value v = c # cs" "code c \<notin> {9, 10, 13, 32}"
proof (cases v)
  case JNull
  with that show ?thesis by (simp add: code_def)
next
  case (JInt i)
  obtain c cs where "str_of_nat (nat i) = c # cs" "is_digit c"
    by (rule str_of_nat_Cons)
  with JInt that show ?thesis
    by (cases "i < 0") (auto simp: dump_int_def is_digit_def code_def)
next
  case (JStr s)
  with that show ?thesis by (simp add: dump_string_def code_def)
qed

lemma skip_ws_dump_value [simp]: "skip_ws (dump_value v @ t) = dump_value v @ t"
  by (rule dump_value_Cons [of v]) simp

lemma expect_Cons:
  "code c \<notin> {9, 10, 13, 32} \<Longrightarrow> expect d (c # s) = (if c = d then Some (skip_ws s) else None)"
  by (simp add: expect_def)

lemma dump_members_Cons:
  obtains cs where "dump_members ((k, v) # kvs) = CHR 0x22 # cs"
  by (cases kvs) (auto simp: dump_string_def)

text \<open>One member: the key, the colon, the value.\<close>

lemma load_member:
  assumes "r = [] \<or> \<not> is_digit (hd r)"
  shows "load_members (Suc n) (dump_string k @ '': '' @ dump_value v @ r) =
     (case expect (CHR '','') r of
        Some r4 \<Rightarrow> map_option (\<lambda>kvs. (k, v) # kvs) (load_members n r4)
      | None \<Rightarrow> (case expect (CHR ''}'') r of Some [] \<Rightarrow> Some [(k, v)] | _ \<Rightarrow> None))"
  using load_dump_string [of k "'': '' @ dump_value v @ r"] load_dump_value [OF assms, of v]
  by (simp add: dump_string_def expect_Cons code_def)

lemma load_dump_members:
  assumes "kvs \<noteq> []" and "length kvs \<le> n"
  shows "load_members n (dump_members kvs @ ''}'') = Some kvs"
  using assms
proof (induction kvs arbitrary: n rule: dump_members.induct)
  case 1
  then show ?case by simp
next
  case (2 k v)
  then obtain m where m: "n = Suc m" by (cases n) auto
  have "load_members n (dump_string k @ '': '' @ dump_value v @ ''}'') = Some [(k, v)]"
    unfolding m by (subst load_member) (simp_all add: expect_Cons is_digit_def code_def)
  then show ?case by simp
next
  case (3 k v kv kvs)
  then obtain m where m: "n = Suc m" by (cases n) auto
  let ?r = "'', '' @ dump_members (kv # kvs) @ ''}''"
  have IH: "load_members m (dump_members (kv # kvs) @ ''}'') = Some (kv # kvs)"
    using 3 m by simp
  obtain k' v' where kv: "kv = (k', v')" by fastforce
  obtain cs where cs: "dump_members (kv # kvs) = CHR 0x22 # cs"
    unfolding kv by (rule dump_members_Cons)
  have "expect (CHR '','') ?r = Some (dump_members (kv # kvs) @ ''}'')"
    by (simp add: expect_Cons code_def cs)
  then have "load_members n (dump_string k @ '': '' @ dump_value v @ ?r) = Some ((k, v) # kv # kvs)"
    unfolding m by (subst load_member) (simp_all add: is_digit_def code_def IH)
  then show ?case by simp
qed

lemma length_dump_members: "length kvs \<le> length (dump_members kvs)"
proof (induction kvs rule: dump_members.induct)
  case (3 k v kv kvs)
  then show ?case by simp
qed simp_all

lemma json_loads_dumps: "json_loads (json_dumps kvs) = Some kvs"
proof (cases kvs)
  case Nil
  then show ?thesis
    by (simp add: json_dumps_def json_loads_def expect_Cons code_def)
next
  case (Cons kv rest)
  obtain k v where kv: "kv = (k, v)" by fastforce
  obtain cs where cs: "dump_members kvs = CHR 0x22 # cs"
    unfolding Cons kv by (rule dump_members_Cons)
  have "load_members (length (dump_members kvs @ ''}'')) (dump_members kvs @ ''}'') = Some kvs"
    using Cons length_dump_members [of kvs] by (intro load_dump_members) auto
  then show ?thesis
    by (simp add: json_dumps_def json_loads_def expect_Cons code_def cs)
qed

end
