(* ===== verification/Schema.thy ===== *)
theory Schema
  imports Sql Json
begin

text \<open>
  The database of \<^verbatim>\<open>ducklauncher/db/migrations.sql\<close>: one record per table with the table's columns,
  and the database as the record of the five tables, the texts sent on the notification channel
  \<^verbatim>\<open>query_status\<close> in the order they were sent, and the server's limit on the length of one such
  text. Statuses are the texts the \<^verbatim>\<open>status\<close> columns hold.
\<close>

section \<open>Tables\<close>

record worker_row =
  w_id :: uuid
  w_endpoint :: string
  w_status :: string
  w_cpus :: int
  w_memory :: int
  w_disk_space :: int
  w_max_concurrent_queries :: int
  w_memory_used_mb :: "int option"
  w_cpu_usage :: "real option"
  w_started_at :: timestamp
  w_last_heartbeat_at :: timestamp

record user_row =
  u_id :: uuid
  u_sub :: string
  u_email :: "string option"
  u_name :: "string option"
  u_created_at :: timestamp
  u_last_login_at :: timestamp

record session_row =
  s_id :: uuid
  s_user_id :: uuid
  s_expires_at :: timestamp
  s_created_at :: timestamp

record query_row =
  q_id :: uuid
  q_worker_id :: "uuid option"
  q_user_id :: "uuid option"
  q_status :: string
  q_query :: string
  q_error :: "string option"
  q_cpus :: "int option"
  q_memory :: "int option"
  q_disk_space :: "int option"
  q_created_at :: timestamp
  q_started_at :: "timestamp option"
  q_completed_at :: "timestamp option"
  q_result_row_count :: "int option"

record sheet_row =
  sh_id :: uuid
  sh_user_id :: uuid
  sh_name :: string
  sh_sql :: string
  sh_created_at :: timestamp
  sh_updated_at :: timestamp

section \<open>The database\<close>

record database =
  workers :: "worker_row list"
  users :: "user_row list"
  sessions :: "session_row list"
  queries :: "query_row list"
  sheets :: "sheet_row list"
  channel :: "string list"
  payload_limit :: nat

text \<open>The database after \<^verbatim>\<open>run_migrations\<close> on a server that accepts payloads below the limit.\<close>

definition empty_db :: "nat \<Rightarrow> database" where
  "empty_db n = \<lparr>workers = [], users = [], sessions = [], queries = [], sheets = [],
     channel = [], payload_limit = n\<rparr>"

abbreviation worker_of :: "uuid \<Rightarrow> database \<Rightarrow> worker_row option" where
  "worker_of k d \<equiv> row_of w_id k (workers d)"

abbreviation query_of :: "uuid \<Rightarrow> database \<Rightarrow> query_row option" where
  "query_of k d \<equiv> row_of q_id k (queries d)"

end
