(* ===== verification/Http.thy ===== *)
theory Http
  imports Schema
begin

text \<open>
  Requests and responses as the handlers of the coordinator and the worker see them, the errors
  that leave a handler, and the outcome of a request the program itself sends through
  \<^verbatim>\<open>httpx\<close>. The framework turns an \<^verbatim>\<open>HTTPException\<close> into a response with its status and detail;
  every other exception passes through the middleware.
\<close>

record http_request =
  req_cookies :: "string \<Rightarrow> string option"
  req_headers :: "string \<Rightarrow> string option"
  req_scheme :: string
  req_user :: "user_row option"

record set_cookie =
  ck_key :: string
  ck_value :: string
  ck_httponly :: bool
  ck_secure :: bool
  ck_samesite :: string
  ck_path :: string

datatype 'a body = Body 'a | Detail string | RedirectTo string

record 'a http_response =
  rs_status :: nat
  rs_body :: "'a body"
  rs_cookies :: "set_cookie list"

datatype app_error = HttpExc http_error | SqlExc sql_error | PyExc py_error | OtherExc

definition http_exception :: "nat \<Rightarrow> string \<Rightarrow> app_error" where
  "http_exception st msg = HttpExc (HTTPException st msg)"

definition ok_response :: "'a \<Rightarrow> 'a http_response" where
  "ok_response b = \<lparr>rs_status = 200, rs_body = Body b, rs_cookies = []\<rparr>"

fun as_response :: "app_error + 'a http_response \<Rightarrow> app_error + 'a http_response" where
  "as_response (Inl (HttpExc e)) =
     Inr \<lparr>rs_status = status_code e, rs_body = Detail (detail e), rs_cookies = []\<rparr>"
| "as_response r = r"

text \<open>The outcome of a request sent with \<^verbatim>\<open>httpx\<close>: a response, an \<^verbatim>\<open>httpx.HTTPError\<close>, or another
  exception, which no handler catches (\<^verbatim>\<open>httpx.InvalidURL\<close> is one).\<close>

datatype 'b outcome = Reply nat 'b | HttpError string | Raises

text \<open>\<^verbatim>\<open>response.raise_for_status()\<close>: statuses from 200 to 299 pass, the others are an \<^verbatim>\<open>HTTPError\<close>.\<close>

fun raise_for_status :: "'b outcome \<Rightarrow> 'b outcome" where
  "raise_for_status (Reply st b) = (if 200 \<le> st \<and> st < 300 then Reply st b else HttpError [])"
| "raise_for_status r = r"

text \<open>The cookie a browser holds after a response: of two with the same name, the later one.\<close>

definition browser_cookie :: "string \<Rightarrow> set_cookie list \<Rightarrow> string option" where
  "browser_cookie key cs = map_of (rev (map (\<lambda>c. (ck_key c, ck_value c)) cs)) key"

lemma browser_cookie_simps [simp]:
  "browser_cookie key [] = None"
  "browser_cookie key (cs @ [c]) = (if ck_key c = key then Some (ck_value c) else browser_cookie key cs)"
  by (auto simp: browser_cookie_def)

end
