(* ===== verification/Machine.thy ===== *)
theory Machine
  imports Prelude
begin

text \<open>
  The interface between a component's operations and the theorems about sequences of them. A
  component declares its operations as data and one function that applies an operation to its
  state; \<open>machine\<close> is the contract that every valid operation keeps the invariant, \<open>machine_fact\<close>
  adds a fact that the allowed operations keep, and \<open>machine_abs\<close> an abstract step relation the
  operations implement; \<open>step_system\<close> and \<open>ranked_system\<close> are the same for a step relation and for one that
  ends. What follows for runs is proved here once and used through the interpretations in the
  component theories.
\<close>

definition run_steps :: "('op \<Rightarrow> 's \<Rightarrow> 's) \<Rightarrow> 'op list \<Rightarrow> 's \<Rightarrow> 's" where
  "run_steps step ops s = foldl (\<lambda>s op. step op s) s ops"

lemma run_steps_simps [simp]:
  "run_steps step [] s = s"
  "run_steps step (op # ops) s = run_steps step ops (step op s)"
  by (simp_all add: run_steps_def)

lemma run_steps_append: "run_steps step (xs @ ys) s = run_steps step ys (run_steps step xs s)"
  by (simp add: run_steps_def)

locale machine =
  fixes step :: "'op \<Rightarrow> 's \<Rightarrow> 's" and valid :: "'op \<Rightarrow> bool" and inv :: "'s \<Rightarrow> bool"
  assumes step_inv: "inv s \<Longrightarrow> valid op \<Longrightarrow> inv (step op s)"
begin

lemma run_inv: "inv s \<Longrightarrow> \<forall>op\<in>set ops. valid op \<Longrightarrow> inv (run_steps step ops s)"
  by (induction ops arbitrary: s) (auto intro: step_inv)

end

locale machine_fact = machine step valid inv
  for step :: "'op \<Rightarrow> 's \<Rightarrow> 's" and valid :: "'op \<Rightarrow> bool" and inv :: "'s \<Rightarrow> bool" +
  fixes allowed :: "'op \<Rightarrow> bool" and fact :: "'s \<Rightarrow> bool"
  assumes step_fact: "inv s \<Longrightarrow> valid op \<Longrightarrow> allowed op \<Longrightarrow> fact s \<Longrightarrow> fact (step op s)"
begin

lemma run_fact:
  "inv s \<Longrightarrow> \<forall>op\<in>set ops. valid op \<and> allowed op \<Longrightarrow> fact s \<Longrightarrow> fact (run_steps step ops s)"
  by (induction ops arbitrary: s) (auto intro: step_inv step_fact)

end

locale machine_abs = machine step valid inv
  for step :: "'op \<Rightarrow> 's \<Rightarrow> 's" and valid :: "'op \<Rightarrow> bool" and inv :: "'s \<Rightarrow> bool" +
  fixes abs_of :: "'s \<Rightarrow> 'a" and abs_step :: "'a \<Rightarrow> 'a \<Rightarrow> bool"
  assumes step_refines: "inv s \<Longrightarrow> valid op \<Longrightarrow> abs_step (abs_of s) (abs_of (step op s))"
begin

lemma run_refines:
  "inv s \<Longrightarrow> \<forall>op\<in>set ops. valid op \<Longrightarrow>
    abs_step\<^sup>*\<^sup>* (abs_of s) (abs_of (run_steps step ops s))"
proof (induction ops arbitrary: s)
  case Nil
  then show ?case by simp
next
  case (Cons op ops)
  then have "abs_step (abs_of s) (abs_of (step op s))"
    and "abs_step\<^sup>*\<^sup>* (abs_of (step op s)) (abs_of (run_steps step ops (step op s)))"
    by (auto intro: step_refines step_inv)
  then show ?case
    by (simp add: converse_rtranclp_into_rtranclp)
qed

end

text \<open>The same for a step relation: what each step keeps holds in every state that can be reached.\<close>

locale step_system =
  fixes step :: "'s \<Rightarrow> 's \<Rightarrow> bool" and inv :: "'s \<Rightarrow> bool"
  assumes step_keeps: "step s s' \<Longrightarrow> inv s \<Longrightarrow> inv s'"
begin

lemma reach_inv: "step\<^sup>*\<^sup>* s s' \<Longrightarrow> inv s \<Longrightarrow> inv s'"
  by (induction rule: rtranclp_induct) (auto intro: step_keeps)

end

text \<open>A step relation whose steps lower a measure: the measure bounds the length of every run.\<close>

locale ranked_system =
  fixes step :: "'s \<Rightarrow> 's \<Rightarrow> bool" and rank :: "'s \<Rightarrow> nat"
  assumes step_lowers: "step s s' \<Longrightarrow> rank s' < rank s"
begin

lemma run_bound: "(step ^^ n) s s' \<Longrightarrow> n + rank s' \<le> rank s"
proof (induction n arbitrary: s')
  case 0
  then show ?case by simp
next
  case (Suc n)
  then obtain u where "(step ^^ n) s u" "step u s'" by auto
  with Suc.IH [of u] step_lowers [of u s'] show ?case by simp
qed

lemma run_to_end: "\<exists>s'. step\<^sup>*\<^sup>* s s' \<and> (\<forall>u. \<not> step s' u)"
proof (induction "rank s" arbitrary: s rule: less_induct)
  case less
  show ?case
  proof (cases "\<exists>u. step s u")
    case True
    then obtain u where u: "step s u" by blast
    from less [OF step_lowers [OF u]] obtain s' where "step\<^sup>*\<^sup>* u s'" "\<forall>v. \<not> step s' v" by blast
    with u show ?thesis by (meson converse_rtranclp_into_rtranclp)
  next
    case False
    then show ?thesis by blast
  qed
qed

end

end
