(* ===== verification/Session_Interface.thy ===== *)
theory Session_Interface
  imports Prelude
begin

text \<open>
  What the middleware and the login handlers rely on in the session store: who a session id stands
  for at an instant, and how opening, closing and looking up a session change that. The account
  store provides it; the lemmas about replacing one session by another are proved here.
\<close>

locale session_store =
  fixes inv :: "'s \<Rightarrow> bool"
    and user_at :: "uuid \<Rightarrow> 's \<Rightarrow> 'u option"
    and who :: "timestamp \<Rightarrow> uuid \<Rightarrow> 's \<Rightarrow> 'u option"
    and open_session :: "uuid \<Rightarrow> timestamp \<Rightarrow> timestamp \<Rightarrow> uuid \<Rightarrow> int \<Rightarrow> 's \<Rightarrow> 's \<times> ('e + uuid)"
    and close_session :: "uuid \<Rightarrow> 's \<Rightarrow> 's"
    and look_up :: "timestamp \<Rightarrow> uuid \<Rightarrow> 's \<Rightarrow> 's \<times> 'u option"
  assumes open_inv: "inv s \<Longrightarrow> inv (fst (open_session sid utc now k ttl s))"
    and close_inv: "inv s \<Longrightarrow> inv (close_session sid s)"
    and look_up_inv: "inv s \<Longrightarrow> inv (fst (look_up now sid s))"
    and open_who: "inv s \<Longrightarrow> open_session sid utc now k ttl s = (s', Inr j) \<Longrightarrow>
      j = sid \<and> who t i s' = (if i = sid then (if t < utc + ttl * hour then user_at k s else None)
                             else who t i s)"
    and open_user: "user_at i (fst (open_session sid utc now k ttl s)) = user_at i s"
    and close_who: "inv s \<Longrightarrow> who t i (close_session sid s) = (if i = sid then None else who t i s)"
    and close_user: "user_at i (close_session sid s) = user_at i s"
    and look_up_who: "inv s \<Longrightarrow> snd (look_up now sid s) = who now sid s"
    and look_up_keeps: "inv s \<Longrightarrow> now \<le> t \<Longrightarrow> who t i (fst (look_up now sid s)) = who t i s"
begin

text \<open>Replacing a session: the old id stands for nobody, the new one for the user until it ends, and
  no other session changes.\<close>

lemma replace_session:
  assumes "inv s" and "open_session new utc now k ttl (close_session old s) = (s', Inr j)"
  shows "j = new" and "inv s'"
    and "who t new s' = (if t < utc + ttl * hour then user_at k s else None)"
    and "old \<noteq> new \<Longrightarrow> who t old s' = None"
    and "i \<noteq> old \<Longrightarrow> i \<noteq> new \<Longrightarrow> who t i s' = who t i s"
proof -
  have c: "inv (close_session old s)" using assms(1) by (rule close_inv)
  show "j = new" using open_who [OF c assms(2)] by blast
  show "inv s'" using open_inv [OF c, of new utc now k ttl] assms(2) by simp
  show "who t new s' = (if t < utc + ttl * hour then user_at k s else None)"
    using open_who [OF c assms(2), of t new] by (simp add: close_user)
  show "old \<noteq> new \<Longrightarrow> who t old s' = None"
    using open_who [OF c assms(2), of t old] close_who [OF assms(1), of t old old] by simp
  show "i \<noteq> old \<Longrightarrow> i \<noteq> new \<Longrightarrow> who t i s' = who t i s"
    using open_who [OF c assms(2), of t i] close_who [OF assms(1), of t i old] by simp
qed

text \<open>A look-up sees what the session stands for, also after an earlier look-up.\<close>

lemma look_up_again:
  assumes "inv s" and "now \<le> t"
  shows "snd (look_up t sid (fst (look_up now i s))) = who t sid s"
  using look_up_who [OF look_up_inv [OF assms(1)]] look_up_keeps [OF assms] by simp

end

end
