(* ===== verification/Account_Store.thy ===== *)
theory Account_Store
  imports Schema Machine Session_Interface
begin

text \<open>
  \<^verbatim>\<open>ducklauncher/db/users.py\<close>, \<^verbatim>\<open>sessions.py\<close> and \<^verbatim>\<open>sheets.py\<close>: the operations on the tables \<^verbatim>\<open>users\<close>,
  \<^verbatim>\<open>sessions\<close> and \<^verbatim>\<open>sheets\<close>, with the same conventions as the query store: fresh uuids and clocks come
  first (\<open>now\<close> is the server's clock, \<open>utc\<close> the coordinator's), the database comes last, and an
  operation whose statement a constraint can refuse returns a sum.
\<close>

section \<open>Users\<close>

definition upsert_user ::
  "uuid \<Rightarrow> timestamp \<Rightarrow> string \<Rightarrow> string option \<Rightarrow> string option \<Rightarrow> database
    \<Rightarrow> database \<times> (sql_error + user_row)" where
  "upsert_user fresh now sub email name d =
     (let cond = (\<lambda>u. u_sub u = sub);
          upd = (\<lambda>u. u\<lparr>u_email := coalesce_opt email (u_email u),
                       u_name := coalesce_opt name (u_name u), u_last_login_at := now\<rparr>)
      in case fetchrow (returning cond upd (users d)) of
           Some u \<Rightarrow> (d\<lparr>users := sql_update cond upd (users d)\<rparr>, Inr u)
         | None \<Rightarrow>
             (let row = \<lparr>u_id = fresh, u_sub = sub, u_email = email, u_name = name,
                         u_created_at = now, u_last_login_at = now\<rparr>
              in case sql_insert u_id row (users d) of
                   Inl e \<Rightarrow> (d, Inl e)
                 | Inr us \<Rightarrow> (d\<lparr>users := us\<rparr>, Inr row)))"

definition create_anonymous_user ::
  "uuid \<Rightarrow> uuid \<Rightarrow> timestamp \<Rightarrow> database \<Rightarrow> database \<times> (sql_error + user_row)" where
  "create_anonymous_user fresh tag now d =
     (let row = \<lparr>u_id = fresh, u_sub = ''anon:'' @ str_uuid tag, u_email = None, u_name = None,
                 u_created_at = now, u_last_login_at = now\<rparr>
      in if u_sub row \<in> u_sub ` set (users d) then (d, Inl UniqueViolation)
         else (case sql_insert u_id row (users d) of
                 Inl e \<Rightarrow> (d, Inl e)
               | Inr us \<Rightarrow> (d\<lparr>users := us\<rparr>, Inr row)))"

definition get_user :: "uuid \<Rightarrow> database \<Rightarrow> user_row option" where
  "get_user user_id d = fetchrow (filter (\<lambda>u. u_id u = user_id) (users d))"

section \<open>Sessions\<close>

definition create_session ::
  "uuid \<Rightarrow> timestamp \<Rightarrow> timestamp \<Rightarrow> uuid \<Rightarrow> int \<Rightarrow> database \<Rightarrow> database \<times> (sql_error + uuid)" where
  "create_session session_id utc now user_id ttl_hours d =
     (let row = \<lparr>s_id = session_id, s_user_id = user_id, s_expires_at = utc + ttl_hours * hour,
                 s_created_at = now\<rparr>
      in if user_id \<notin> u_id ` set (users d) then (d, Inl ForeignKeyViolation)
         else (case sql_insert s_id row (sessions d) of
                 Inl e \<Rightarrow> (d, Inl e)
               | Inr ss \<Rightarrow> (d\<lparr>sessions := ss\<rparr>, Inr session_id)))"

text \<open>The join of the live session with its user; when there is none, an expired session of that
  id is removed.\<close>

definition session_join :: "timestamp \<Rightarrow> uuid \<Rightarrow> database \<Rightarrow> user_row option" where
  "session_join now session_id d =
     fetchrow (concat (map (\<lambda>s. filter (\<lambda>u. u_id u = s_user_id s) (users d))
       (filter (\<lambda>s. s_id s = session_id \<and> s_expires_at s > now) (sessions d))))"

definition get_session_user ::
  "timestamp \<Rightarrow> uuid \<Rightarrow> database \<Rightarrow> database \<times> user_row option" where
  "get_session_user now session_id d =
     (case session_join now session_id d of
        Some u \<Rightarrow> (d, Some u)
      | None \<Rightarrow> (d\<lparr>sessions := sql_delete (\<lambda>s. s_id s = session_id \<and> s_expires_at s \<le> now)
                   (sessions d)\<rparr>, None))"

definition delete_session :: "uuid \<Rightarrow> database \<Rightarrow> database" where
  "delete_session session_id d =
     d\<lparr>sessions := sql_delete (\<lambda>s. s_id s = session_id) (sessions d)\<rparr>"

section \<open>Sheets\<close>

definition list_sheets :: "uuid \<Rightarrow> database \<Rightarrow> sheet_row list" where
  "list_sheets user_id d =
     order_by (\<lambda>s. - sh_updated_at s) (filter (\<lambda>s. sh_user_id s = user_id) (sheets d))"

definition get_sheet :: "uuid \<Rightarrow> uuid \<Rightarrow> database \<Rightarrow> sheet_row option" where
  "get_sheet sheet_id user_id d =
     fetchrow (filter (\<lambda>s. sh_id s = sheet_id \<and> sh_user_id s = user_id) (sheets d))"

definition create_sheet ::
  "uuid \<Rightarrow> timestamp \<Rightarrow> uuid \<Rightarrow> string \<Rightarrow> string \<Rightarrow> database \<Rightarrow> database \<times> (sql_error + sheet_row)" where
  "create_sheet fresh now user_id name sql d =
     (let row = \<lparr>sh_id = fresh, sh_user_id = user_id, sh_name = name, sh_sql = sql,
                 sh_created_at = now, sh_updated_at = now\<rparr>
      in if user_id \<notin> u_id ` set (users d) then (d, Inl ForeignKeyViolation)
         else (case sql_insert sh_id row (sheets d) of
                 Inl e \<Rightarrow> (d, Inl e)
               | Inr ss \<Rightarrow> (d\<lparr>sheets := ss\<rparr>, Inr row)))"

definition update_sheet ::
  "timestamp \<Rightarrow> uuid \<Rightarrow> uuid \<Rightarrow> string option \<Rightarrow> string option \<Rightarrow> database
    \<Rightarrow> database \<times> sheet_row option" where
  "update_sheet now sheet_id user_id name sql d =
     (let cond = (\<lambda>s. sh_id s = sheet_id \<and> sh_user_id s = user_id);
          upd = (\<lambda>s. s\<lparr>sh_name := coalesce name (sh_name s), sh_sql := coalesce sql (sh_sql s),
                       sh_updated_at := now\<rparr>)
      in (d\<lparr>sheets := sql_update cond upd (sheets d)\<rparr>, fetchrow (returning cond upd (sheets d))))"

definition delete_sheet :: "uuid \<Rightarrow> uuid \<Rightarrow> database \<Rightarrow> database \<times> bool" where
  "delete_sheet sheet_id user_id d =
     (let cond = (\<lambda>s. sh_id s = sheet_id \<and> sh_user_id s = user_id)
      in (d\<lparr>sheets := sql_delete cond (sheets d)\<rparr>,
          affected_one ''DELETE'' (count_where cond (sheets d))))"

section \<open>The invariant\<close>

text \<open>The keys and the foreign keys of the three tables.\<close>

definition accounts_wf :: "database \<Rightarrow> bool" where
  "accounts_wf d \<longleftrightarrow>
     pk u_id (users d) \<and> pk u_sub (users d) \<and> pk s_id (sessions d) \<and> pk sh_id (sheets d) \<and>
     s_user_id ` set (sessions d) \<subseteq> u_id ` set (users d) \<and>
     sh_user_id ` set (sheets d) \<subseteq> u_id ` set (users d)"

abbreviation user_of :: "uuid \<Rightarrow> database \<Rightarrow> user_row option" where
  "user_of k d \<equiv> row_of u_id k (users d)"

abbreviation session_of :: "uuid \<Rightarrow> database \<Rightarrow> session_row option" where
  "session_of k d \<equiv> row_of s_id k (sessions d)"

abbreviation sheet_of :: "uuid \<Rightarrow> database \<Rightarrow> sheet_row option" where
  "sheet_of k d \<equiv> row_of sh_id k (sheets d)"

lemma accounts_wf_pk:
  assumes "accounts_wf d"
  shows "pk u_id (users d)" "pk u_sub (users d)" "pk s_id (sessions d)" "pk sh_id (sheets d)"
  using assms by (simp_all add: accounts_wf_def)

datatype account_op =
    AccUpsert uuid timestamp string "string option" "string option"
  | AccAnon uuid uuid timestamp
  | AccLogin uuid timestamp timestamp uuid int
  | AccLookup timestamp uuid
  | AccDrop uuid
  | AccNewSheet uuid timestamp uuid string string
  | AccEditSheet timestamp uuid uuid "string option" "string option"
  | AccDropSheet uuid uuid

fun account_step :: "account_op \<Rightarrow> database \<Rightarrow> database" where
  "account_step (AccUpsert fr now sub em nm) d = fst (upsert_user fr now sub em nm d)"
| "account_step (AccAnon fr tg now) d = fst (create_anonymous_user fr tg now d)"
| "account_step (AccLogin sid utc now u ttl) d = fst (create_session sid utc now u ttl d)"
| "account_step (AccLookup now sid) d = fst (get_session_user now sid d)"
| "account_step (AccDrop sid) d = delete_session sid d"
| "account_step (AccNewSheet fr now u nm sq) d = fst (create_sheet fr now u nm sq d)"
| "account_step (AccEditSheet now sh u nm sq) d = fst (update_sheet now sh u nm sq d)"
| "account_step (AccDropSheet sh u) d = fst (delete_sheet sh u d)"

lemma accounts_wf_step:
  assumes "accounts_wf d"
  shows "accounts_wf (account_step op d)"
proof (cases op)
  case (AccUpsert fr now sub em nm)
  show ?thesis
  proof (cases "sub \<in> u_sub ` set (users d)")
    case True
    then have "fetchrow (returning (\<lambda>u. u_sub u = sub) upd (users d)) \<noteq> None" for upd :: "user_row \<Rightarrow> user_row"
      by (auto simp: returning_def filter_empty_conv)
    then show ?thesis
      using assms AccUpsert
      by (auto simp: upsert_user_def Let_def accounts_wf_def pk_update key_image_update
          split: option.split)
  next
    case False
    then have "filter (\<lambda>u. u_sub u = sub) (users d) = []"
      by (auto simp: filter_empty_conv)
    then show ?thesis
      using assms AccUpsert False
      by (auto simp: upsert_user_def returning_def Let_def sql_insert_def accounts_wf_def pk_append_one)
  qed
next
  case (AccAnon fr tg now)
  then show ?thesis
    using assms
    by (auto simp: create_anonymous_user_def Let_def sql_insert_def accounts_wf_def pk_append_one)
next
  case (AccLogin sid utc now u ttl)
  then show ?thesis
    using assms
    by (auto simp: create_session_def Let_def sql_insert_def accounts_wf_def pk_append_one)
next
  case (AccLookup now sid)
  then show ?thesis
    using assms
    by (auto simp: get_session_user_def accounts_wf_def pk_delete split: option.split)
      (auto simp: sql_delete_def)
next
  case (AccDrop sid)
  then show ?thesis
    using assms
    by (simp add: delete_session_def accounts_wf_def pk_delete) (auto simp: sql_delete_def)
next
  case (AccNewSheet fr now u nm sq)
  then show ?thesis
    using assms
    by (auto simp: create_sheet_def Let_def sql_insert_def accounts_wf_def pk_append_one)
next
  case (AccEditSheet now sh u nm sq)
  then show ?thesis
    using assms
    by (auto simp: update_sheet_def Let_def accounts_wf_def pk_update key_image_update)
next
  case (AccDropSheet sh u)
  then show ?thesis
    using assms
    by (simp add: delete_sheet_def Let_def accounts_wf_def pk_delete) (auto simp: sql_delete_def)
qed

interpretation accounts: machine account_step "\<lambda>_. True" accounts_wf
  by unfold_locales (rule accounts_wf_step)

section \<open>Users\<close>

text \<open>Users are only added and refreshed: a user keeps id and subject under every operation.\<close>

lemma user_kept:
  assumes wf: "accounts_wf d" and u: "\<exists>u. user_of k d = Some u \<and> u_sub u = sub"
  shows "\<exists>u. user_of k (account_step op d) = Some u \<and> u_sub u = sub"
proof -
  obtain u0 where u0: "user_of k d = Some u0" "u_sub u0 = sub" using u by blast
  have same: ?thesis if "users (account_step op d) = users d"
    using that u by simp
  have app: ?thesis if "users (account_step op d) = users d @ [r]" for r
    using that u0 by (simp add: row_of_append)
  show ?thesis
  proof (cases op)
    case (AccUpsert fr now sb em nm)
    let ?upd = "\<lambda>u. u\<lparr>u_email := coalesce_opt em (u_email u),
                       u_name := coalesce_opt nm (u_name u), u_last_login_at := now\<rparr>"
    have "users (account_step op d) = sql_update (\<lambda>u. u_sub u = sb) ?upd (users d) \<or>
        users (account_step op d) = users d \<or> (\<exists>r. users (account_step op d) = users d @ [r])"
      using AccUpsert
      by (auto simp: upsert_user_def Let_def sql_insert_def split: option.split)
    moreover have "row_of u_id k (sql_update (\<lambda>u. u_sub u = sb) ?upd (users d)) =
        map_option (\<lambda>r. if u_sub r = sb then ?upd r else r) (user_of k d)"
      by (rule row_of_update) simp
    ultimately show ?thesis
      using same app u0 by auto
  next
    case (AccAnon fr tg now)
    then have "users (account_step op d) = users d \<or> (\<exists>r. users (account_step op d) = users d @ [r])"
      by (auto simp: create_anonymous_user_def Let_def sql_insert_def)
    then show ?thesis using same app by auto
  next
    case (AccLogin sid utc now u ttl)
    then show ?thesis
      by (intro same) (simp add: create_session_def Let_def sql_insert_def)
  next
    case (AccLookup now sid)
    then show ?thesis
      by (intro same) (simp add: get_session_user_def split: option.split)
  next
    case (AccNewSheet fr now u nm sq)
    then show ?thesis
      by (intro same) (simp add: create_sheet_def Let_def sql_insert_def)
  qed (use same in \<open>simp_all add: delete_session_def update_sheet_def delete_sheet_def Let_def\<close>)
qed

section \<open>Sessions\<close>

text \<open>Who is logged in under a session id at an instant.\<close>

definition logged_in :: "timestamp \<Rightarrow> uuid \<Rightarrow> database \<Rightarrow> user_row option" where
  "logged_in now sid d =
     (case session_of sid d of
        None \<Rightarrow> None
      | Some s \<Rightarrow> if now < s_expires_at s then user_of (s_user_id s) d else None)"

lemma filter_key_pk:
  assumes "pk key t"
  shows "filter (\<lambda>r. key r = k \<and> P r) t =
    (case row_of key k t of None \<Rightarrow> [] | Some r \<Rightarrow> if P r then [r] else [])"
  using assms
proof (induction t)
  case Nil
  then show ?case by simp
next
  case (Cons a t)
  then have "pk key t" and "key a \<notin> key ` set t"
    by (simp_all add: pk_def)
  moreover from this have "row_of key (key a) t = None"
    by (simp add: row_of_None)
  ultimately show ?case
    using Cons.IH by (cases "key a = k") (auto simp: row_of_Cons)
qed

lemma session_join_logged_in:
  assumes "accounts_wf d"
  shows "session_join now sid d = logged_in now sid d"
proof -
  have "filter (\<lambda>s. s_id s = sid \<and> s_expires_at s > now) (sessions d) =
      (case session_of sid d of None \<Rightarrow> [] | Some s \<Rightarrow> if s_expires_at s > now then [s] else [])"
    by (rule filter_key_pk) (rule accounts_wf_pk(3) [OF assms])
  then show ?thesis
    by (auto simp: session_join_def logged_in_def row_of_def split: option.split)
qed

lemma get_session_user_result:
  "accounts_wf d \<Longrightarrow> snd (get_session_user now sid d) = logged_in now sid d"
  by (auto simp: get_session_user_def session_join_logged_in split: option.split)

text \<open>The session interface.\<close>

lemma logged_in_open:
  assumes "accounts_wf d" and "create_session sid utc now k ttl d = (d', Inr j)"
  shows "j = sid \<and> logged_in t i d' =
    (if i = sid then (if t < utc + ttl * hour then user_of k d else None) else logged_in t i d)"
proof -
  have d': "d' = d\<lparr>sessions := sessions d @ [\<lparr>s_id = sid, s_user_id = k,
      s_expires_at = utc + ttl * hour, s_created_at = now\<rparr>]\<rparr>"
    and new: "sid \<notin> s_id ` set (sessions d)" and j: "j = sid"
    using assms(2) by (auto simp: create_session_def Let_def sql_insert_def split: if_splits)
  from new have "session_of sid d = None"
    by (simp add: row_of_None)
  then show ?thesis
    by (cases "session_of i d") (auto simp: j d' logged_in_def row_of_append row_of_Cons)
qed

lemma session_of_delete:
  assumes "accounts_wf d"
  shows "row_of s_id i (sql_delete cond (sessions d)) =
    (case session_of i d of None \<Rightarrow> None | Some s \<Rightarrow> if cond s then None else Some s)"
proof (cases "session_of i d")
  case None
  then have "i \<notin> s_id ` set (sql_delete cond (sessions d))"
    by (auto simp: row_of_None sql_delete_def)
  then have "row_of s_id i (sql_delete cond (sessions d)) = None"
    by (simp add: row_of_None)
  with None show ?thesis by simp
next
  case (Some s)
  have pk: "pk s_id (sql_delete cond (sessions d))"
    by (rule pk_delete) (rule accounts_wf_pk(3) [OF assms])
  have s: "s \<in> set (sessions d)" "s_id s = i"
    using row_of_Some [OF Some] by auto
  have uniq: "r = s" if "r \<in> set (sessions d)" "s_id r = i" for r
    using distinct_map_unique [OF accounts_wf_pk(3) [OF assms, unfolded pk_def] that(1) s(1)] that(2) s(2)
    by simp
  show ?thesis
  proof (cases "cond s")
    case True
    with uniq have "i \<notin> s_id ` set (sql_delete cond (sessions d))"
      by (auto simp: sql_delete_def)
    then have "row_of s_id i (sql_delete cond (sessions d)) = None"
      by (simp add: row_of_None)
    with True Some show ?thesis by simp
  next
    case False
    with s have "s \<in> set (sql_delete cond (sessions d))"
      by (simp add: sql_delete_def)
    with s(2) have "row_of s_id i (sql_delete cond (sessions d)) = Some s"
      using row_of_iff [OF pk] by simp
    with False Some show ?thesis by simp
  qed
qed

lemma logged_in_delete:
  assumes "accounts_wf d"
  shows "logged_in t i (delete_session sid d) = (if i = sid then None else logged_in t i d)"
  using session_of_delete [OF assms, of i "\<lambda>s. s_id s = sid"] row_of_Some [of s_id i "sessions d"]
  by (auto simp: logged_in_def delete_session_def split: option.split)

lemma logged_in_lookup:
  assumes "accounts_wf d" and "now \<le> t"
  shows "logged_in t i (fst (get_session_user now sid d)) = logged_in t i d"
  using session_of_delete [OF assms(1), of i "\<lambda>s. s_id s = sid \<and> s_expires_at s \<le> now"]
    row_of_Some [of s_id i "sessions d"] assms(2)
  by (auto simp: logged_in_def get_session_user_def split: option.split)

interpretation sessions: session_store accounts_wf user_of logged_in create_session delete_session
  get_session_user
proof (unfold_locales)
  fix s :: database
  assume wf: "accounts_wf s"
  show "accounts_wf (fst (create_session sid utc now k ttl s))" for sid utc now k ttl
    using accounts_wf_step [OF wf, of "AccLogin sid utc now k ttl"] by simp
  show "accounts_wf (delete_session sid s)" for sid
    using accounts_wf_step [OF wf, of "AccDrop sid"] by simp
  show "accounts_wf (fst (get_session_user now sid s))" for now sid
    using accounts_wf_step [OF wf, of "AccLookup now sid"] by simp
next
  show "user_of i (fst (create_session sid utc now k ttl s)) = user_of i s" for i sid utc now k ttl s
    by (simp add: create_session_def Let_def sql_insert_def)
  show "user_of i (delete_session sid s) = user_of i s" for i sid s
    by (simp add: delete_session_def)
qed (simp_all add: logged_in_open logged_in_delete get_session_user_result logged_in_lookup)

text \<open>Operations before an instant that do not end a session.\<close>

fun keeps_session :: "uuid \<Rightarrow> timestamp \<Rightarrow> account_op \<Rightarrow> bool" where
  "keeps_session sid expiry (AccDrop k) = (k \<noteq> sid)"
| "keeps_session sid expiry (AccLookup now k) = (k \<noteq> sid \<or> now < expiry)"
| "keeps_session sid expiry op = True"

lemma session_kept:
  assumes wf: "accounts_wf d" and op: "keeps_session sid expiry op"
    and s: "session_of sid d = Some s" "s_expires_at s = expiry"
  shows "session_of sid (account_step op d) = Some s"
proof -
  have same: ?thesis if "sessions (account_step op d) = sessions d"
    using that s by simp
  have del: ?thesis if "sessions (account_step op d) = sql_delete cond (sessions d)" "\<not> cond s" for cond
  proof -
    have "session_of sid d = Some s \<Longrightarrow> s \<in> set (sessions d) \<and> s_id s = sid"
      by (rule row_of_Some)
    then have "s \<in> set (sessions (account_step op d))" "s_id s = sid"
      using s that by (auto simp: sql_delete_def)
    then show ?thesis
      using accounts_wf_pk(3) [OF accounts_wf_step [OF wf]] by (simp add: row_of_iff)
  qed
  show ?thesis
  proof (cases op)
    case (AccLogin k utc now u ttl)
    then have "sessions (account_step op d) = sessions d \<or>
        (\<exists>r. sessions (account_step op d) = sessions d @ [r])"
      by (auto simp: create_session_def Let_def sql_insert_def)
    then show ?thesis
      using s by (auto simp: row_of_append)
  next
    case (AccLookup now k)
    then have "sessions (account_step op d) = sessions d \<or> sessions (account_step op d) =
        sql_delete (\<lambda>s. s_id s = k \<and> s_expires_at s \<le> now) (sessions d)"
      by (auto simp: get_session_user_def split: option.split)
    moreover have "\<not> (s_id s = k \<and> s_expires_at s \<le> now)"
      using op AccLookup s row_of_Some [OF s(1)] by auto
    ultimately show ?thesis
      using same del by blast
  next
    case (AccDrop k)
    then have "s_id s \<noteq> k"
      using op row_of_Some [OF s(1)] by auto
    with AccDrop show ?thesis
      by (intro del) (auto simp: delete_session_def)
  next
    case (AccUpsert fr now sb em nm)
    then show ?thesis
      by (intro same) (simp add: upsert_user_def Let_def sql_insert_def split: option.split)
  next
    case (AccAnon fr tg now)
    then show ?thesis
      by (intro same) (simp add: create_anonymous_user_def Let_def sql_insert_def)
  next
    case (AccNewSheet fr now u nm sq)
    then show ?thesis
      by (intro same) (simp add: create_sheet_def Let_def sql_insert_def)
  qed (use same in \<open>simp_all add: update_sheet_def delete_sheet_def Let_def\<close>)
qed

interpretation sess: machine_fact account_step "\<lambda>_. True" accounts_wf "keeps_session sid expiry"
  "\<lambda>d. (\<exists>s. session_of sid d = Some s \<and> s_expires_at s = expiry \<and> s_user_id s = k) \<and>
     (\<exists>u. user_of k d = Some u \<and> u_sub u = sub)" for sid expiry k sub
  by unfold_locales (use session_kept user_kept in blast)

section \<open>Sheets\<close>

text \<open>Operations that create, change or delete no sheet on behalf of one user.\<close>

fun not_by :: "uuid \<Rightarrow> account_op \<Rightarrow> bool" where
  "not_by owner (AccNewSheet fr now u nm sq) = (u \<noteq> owner)"
| "not_by owner (AccEditSheet now sh u nm sq) = (u \<noteq> owner)"
| "not_by owner (AccDropSheet sh u) = (u \<noteq> owner)"
| "not_by owner op = True"

definition owned :: "uuid \<Rightarrow> database \<Rightarrow> sheet_row list" where
  "owned owner d = filter (\<lambda>s. sh_user_id s = owner) (sheets d)"

lemma list_sheets_owned: "list_sheets owner d = order_by (\<lambda>s. - sh_updated_at s) (owned owner d)"
  by (simp add: list_sheets_def owned_def)

lemma get_sheet_owned: "get_sheet k owner d = fetchrow (filter (\<lambda>s. sh_id s = k) (owned owner d))"
  by (simp add: get_sheet_def owned_def conj_commute)

lemma filter_update_other:
  assumes "\<And>r. cond r \<Longrightarrow> \<not> P r" and "\<And>r. cond r \<Longrightarrow> \<not> P (upd r)"
  shows "filter P (sql_update cond upd t) = filter P t"
  using assms by (induction t) (auto simp: sql_update_def)

lemma filter_delete_other:
  assumes "\<And>r. cond r \<Longrightarrow> \<not> P r"
  shows "filter P (sql_delete cond t) = filter P t"
  using assms by (induction t) (auto simp: sql_delete_def)

lemma owned_kept:
  assumes "not_by owner op"
  shows "owned owner (account_step op d) = owned owner d"
proof (cases op)
  case (AccUpsert fr now sb em nm)
  then show ?thesis
    by (simp add: owned_def upsert_user_def Let_def sql_insert_def split: option.split)
next
  case (AccAnon fr tg now)
  then show ?thesis
    by (simp add: owned_def create_anonymous_user_def Let_def sql_insert_def)
next
  case (AccLogin sid utc now u ttl)
  then show ?thesis
    by (simp add: owned_def create_session_def Let_def sql_insert_def)
next
  case (AccLookup now sid)
  then show ?thesis
    by (simp add: owned_def get_session_user_def split: option.split)
next
  case (AccDrop sid)
  then show ?thesis
    by (simp add: owned_def delete_session_def)
next
  case (AccNewSheet fr now u nm sq)
  then show ?thesis
    using assms by (simp add: owned_def create_sheet_def Let_def sql_insert_def)
next
  case (AccEditSheet now sh u nm sq)
  then show ?thesis
    using assms
    by (auto simp: owned_def update_sheet_def Let_def intro!: filter_update_other)
next
  case (AccDropSheet sh u)
  then show ?thesis
    using assms by (auto simp: owned_def delete_sheet_def Let_def intro!: filter_delete_other)
qed

interpretation owner: machine_fact account_step "\<lambda>_. True" accounts_wf "not_by u"
  "\<lambda>d. owned u d = ss" for u ss
  by unfold_locales (simp add: owned_kept)

section \<open>Properties\<close>

definition sample_user :: "uuid \<Rightarrow> string \<Rightarrow> user_row" where
  "sample_user k sub = \<lparr>u_id = k, u_sub = sub, u_email = None, u_name = None, u_created_at = 0,
     u_last_login_at = 0\<rparr>"

definition accounts_db :: database where
  "accounts_db = (empty_db 8000)\<lparr>users := [sample_user 1 ''alice'', sample_user 2 ''bob''],
     sheets := [\<lparr>sh_id = 50, sh_user_id = 1, sh_name = ''n'', sh_sql = ''SELECT 1'',
       sh_created_at = 0, sh_updated_at = 0\<rparr>]\<rparr>"

lemma accounts_db_wf: "accounts_wf accounts_db"
  by (simp add: accounts_wf_def accounts_db_def empty_db_def pk_def sample_user_def)



text \<open>The life of a session. After \<^verbatim>\<open>create_session\<close> for an existing user, and whatever other
  operations follow that neither delete the session nor look it up after its end, a lookup at
  instant \<open>t\<close> yields the user, with the same id and subject, exactly while \<open>t\<close> is before
  the creation plus the time to live.\<close>

theorem session_lifetime:
  assumes "accounts_wf d" and "user_of k d = Some u"
    and "create_session sid utc now k ttl d = (d1, Inr sid)"
    and "\<forall>op\<in>set ops. keeps_session sid (utc + ttl * hour) op"
  shows "(\<exists>u'. snd (get_session_user t sid (run_steps account_step ops d1)) = Some u' \<and>
            u_id u' = k \<and> u_sub u' = u_sub u) \<longleftrightarrow> t < utc + ttl * hour"
proof -
  have d1: "d1 = d\<lparr>sessions := sessions d @ [\<lparr>s_id = sid, s_user_id = k,
      s_expires_at = utc + ttl * hour, s_created_at = now\<rparr>]\<rparr>" "sid \<notin> s_id ` set (sessions d)"
    using assms(3) by (auto simp: create_session_def Let_def sql_insert_def split: if_splits)
  have wf1: "accounts_wf d1"
    using accounts_wf_step [OF assms(1), of "AccLogin sid utc now k ttl"] assms(3) by simp
  have "session_of sid d1 = Some \<lparr>s_id = sid, s_user_id = k, s_expires_at = utc + ttl * hour,
      s_created_at = now\<rparr>"
    using d1(2) by (simp add: d1(1) row_of_append row_of_None [THEN iffD2] row_of_Cons)
  then have "(\<exists>s. session_of sid d1 = Some s \<and> s_expires_at s = utc + ttl * hour \<and> s_user_id s = k) \<and>
     (\<exists>v. user_of k d1 = Some v \<and> u_sub v = u_sub u)"
    using assms(2) by (simp add: d1(1))
  from sess.run_fact [OF wf1 _ this, of ops] assms(4)
  obtain s v where s: "session_of sid (run_steps account_step ops d1) = Some s"
      "s_expires_at s = utc + ttl * hour" "s_user_id s = k"
    and v: "user_of k (run_steps account_step ops d1) = Some v" "u_sub v = u_sub u"
    by auto
  have wf: "accounts_wf (run_steps account_step ops d1)"
    using accounts.run_inv [OF wf1] by simp
  have "u_id v = k"
    using row_of_Some [OF v(1)] by simp
  with s v show ?thesis
    by (simp add: get_session_user_result [OF wf] logged_in_def)
qed

theorem session_lifetime_witness:
  "snd (get_session_user (23 * hour) 20 (run_steps account_step
     [AccUpsert 4 1 ''alice'' (Some ''a'') None, AccLookup 5 20, AccDrop 21]
     (fst (create_session 20 0 0 1 24 accounts_db)))) \<noteq> None"
proof -
  have u: "user_of 1 accounts_db = Some (sample_user 1 ''alice'')"
    by (simp add: accounts_db_def row_of_Cons sample_user_def)
  have c: "create_session 20 0 0 1 24 accounts_db =
      (fst (create_session 20 0 0 1 24 accounts_db), Inr 20)"
    by (simp add: create_session_def Let_def sql_insert_def accounts_db_def empty_db_def sample_user_def)
  have "\<forall>op\<in>set [AccUpsert 4 1 ''alice'' (Some ''a'') None, AccLookup 5 20, AccDrop 21].
      keeps_session 20 (0 + 24 * hour) op"
    by (simp add: hour_def second_def)
  from session_lifetime [OF accounts_db_wf u c this, of "23 * hour"] show ?thesis
    by (auto simp: hour_def second_def)
qed

text \<open>Sheets are private. Whatever other users do with sheets, also with the ids of this user's
  sheets, the user's list of sheets and each of them stay as they are.\<close>

theorem sheets_isolated:
  assumes "accounts_wf d" and "\<forall>op\<in>set ops. not_by owner op"
  shows "list_sheets owner (run_steps account_step ops d) = list_sheets owner d \<and>
    get_sheet k owner (run_steps account_step ops d) = get_sheet k owner d"
  using owner.run_fact [OF assms(1) _ refl, of ops owner] assms(2)
  by (simp add: list_sheets_owned get_sheet_owned)

theorem sheets_isolated_witness:
  "map sh_id (list_sheets 1 (run_steps account_step [AccDropSheet 50 2,
     AccEditSheet 3 50 2 (Some ''x'') None] accounts_db)) = [50]"
proof -
  have "\<forall>op\<in>set [AccDropSheet 50 2, AccEditSheet 3 50 2 (Some ''x'') None]. not_by 1 op"
    by simp
  from sheets_isolated [OF accounts_db_wf this, of 50] show ?thesis
    by (simp add: list_sheets_def order_by_def accounts_db_def empty_db_def)
qed

end
