(* ===== verification/Session_Auth.thy ===== *)
theory Session_Auth
  imports Http Account_Store Settings
begin

text \<open>
  \<^verbatim>\<open>ducklauncher/coordinator/auth.py\<close> and \<^verbatim>\<open>middleware.py\<close>: the middleware that gives every request a
  user, creating an anonymous one where the session cookie names no live session, and the handlers
  \<^verbatim>\<open>/auth/me\<close>, \<^verbatim>\<open>/auth/login\<close>, \<^verbatim>\<open>/auth/callback\<close> and \<^verbatim>\<open>/auth/logout\<close>. What the OIDC library answers is
  a parameter of the handlers.
\<close>

section \<open>Configuration\<close>

record oauth_client =
  oc_client_id :: "string option"
  oc_client_secret :: "string option"
  oc_metadata_url :: string
  oc_scope :: string

definition configure_auth :: "coordinator_settings \<Rightarrow> oauth_client option" where
  "configure_auth settings =
     (if \<not> auth_enabled settings then None
      else Some \<lparr>oc_client_id = oidc_client_id settings, oc_client_secret = oidc_client_secret settings,
                 oc_metadata_url = rstrip_chars ''/'' (the (oidc_issuer_url settings)) @
                   ''/.well-known/openid-configuration'',
                 oc_scope = ''openid email profile''\<rparr>)"

definition SESSION_COOKIE :: string where
  "SESSION_COOKIE = ''session_id''"

definition is_anonymous_user :: "user_row \<Rightarrow> bool" where
  "is_anonymous_user user = startswith (u_sub user) ''anon:''"

record user_response =
  ur_user_id :: uuid
  ur_email :: "string option"
  ur_name :: "string option"

definition user_response_of :: "user_row \<Rightarrow> user_response" where
  "user_response_of row = \<lparr>ur_user_id = u_id row, ur_email = u_email row, ur_name = u_name row\<rparr>"

definition get_current_user :: "http_request \<Rightarrow> app_error + user_row" where
  "get_current_user request =
     (case req_user request of
        None \<Rightarrow> Inl (http_exception 500 ''Session middleware not configured'')
      | Some u \<Rightarrow> Inr u)"

definition require_user :: "http_request \<Rightarrow> app_error + user_row" where
  "require_user request = get_current_user request"

section \<open>Cookies\<close>

definition cookie_secure :: "http_request \<Rightarrow> bool" where
  "cookie_secure request \<longleftrightarrow>
     req_scheme request = ''https'' \<or> coalesce (req_headers request ''x-forwarded-proto'') [] = ''https''"

definition set_session_cookie ::
  "http_request \<Rightarrow> uuid \<Rightarrow> 'a http_response \<Rightarrow> 'a http_response" where
  "set_session_cookie request session_id response =
     response\<lparr>rs_cookies := rs_cookies response @
       [\<lparr>ck_key = SESSION_COOKIE, ck_value = str_uuid session_id, ck_httponly = True,
         ck_secure = cookie_secure request, ck_samesite = ''lax'', ck_path = ''/''\<rparr>]\<rparr>"

section \<open>The middleware\<close>

text \<open>The values the surroundings supply for one request: ids for a new user, its subject and a new
  session, and the two clocks.\<close>

record fresh_values =
  f_user :: uuid
  f_tag :: uuid
  f_session :: uuid
  f_utc :: timestamp
  f_now :: timestamp

text \<open>The session named by the cookie, when it is a uuid.\<close>

definition cookie_user :: "timestamp \<Rightarrow> http_request \<Rightarrow> database \<Rightarrow> database \<times> user_row option" where
  "cookie_user now request d =
     (case req_cookies request SESSION_COOKIE of
        None \<Rightarrow> (d, None)
      | Some raw \<Rightarrow>
          if raw = [] then (d, None)
          else (case parse_uuid raw of
                  Inl _ \<Rightarrow> (d, None)
                | Inr sid \<Rightarrow> get_session_user now sid d))"

text \<open>An anonymous user with a session of its own.\<close>

definition new_anonymous_session ::
  "coordinator_settings \<Rightarrow> fresh_values \<Rightarrow> database \<Rightarrow> database \<times> (app_error + user_row \<times> uuid)" where
  "new_anonymous_session settings f d =
     (case create_anonymous_user (f_user f) (f_tag f) (f_now f) d of
        (d1, Inl e) \<Rightarrow> (d1, Inl (SqlExc e))
      | (d1, Inr user) \<Rightarrow>
          (case create_session (f_session f) (f_utc f) (f_now f) (u_id user)
                  (session_ttl_hours settings) d1 of
             (d2, Inl e) \<Rightarrow> (d2, Inl (SqlExc e))
           | (d2, Inr sid) \<Rightarrow> (d2, Inr (user, sid))))"

definition user_session_dispatch ::
  "coordinator_settings \<Rightarrow> fresh_values \<Rightarrow>
   (http_request \<Rightarrow> database \<Rightarrow> database \<times> (app_error + 'a http_response)) \<Rightarrow>
   http_request \<Rightarrow> database \<Rightarrow> database \<times> (app_error + 'a http_response)" where
  "user_session_dispatch settings f call_next request d =
     (case cookie_user (f_now f) request d of
        (d1, Some user) \<Rightarrow> call_next (request\<lparr>req_user := Some user\<rparr>) d1
      | (d1, None) \<Rightarrow>
          (case new_anonymous_session settings f d1 of
             (d2, Inl e) \<Rightarrow> (d2, Inl e)
           | (d2, Inr (user, new_session_id)) \<Rightarrow>
               (case call_next (request\<lparr>req_user := Some user\<rparr>) d2 of
                  (d3, Inl e) \<Rightarrow> (d3, Inl e)
                | (d3, Inr response) \<Rightarrow>
                    (d3, Inr (set_session_cookie request new_session_id response)))))"

section \<open>The handlers\<close>

record auth_me_response =
  am_auth_enabled :: bool
  am_authenticated :: bool
  am_anonymous :: bool
  am_user :: "user_response option"

definition auth_me ::
  "coordinator_settings \<Rightarrow> http_request \<Rightarrow> app_error + auth_me_response http_response" where
  "auth_me settings request =
     (case get_current_user request of
        Inl e \<Rightarrow> Inl e
      | Inr user \<Rightarrow>
          (let anonymous = is_anonymous_user user
           in Inr (ok_response
                \<lparr>am_auth_enabled = auth_enabled settings, am_authenticated = (\<not> anonymous),
                 am_anonymous = anonymous,
                 am_user = (if anonymous then None else Some (user_response_of user))\<rparr>)))"

text \<open>The deletion of the session the cookie names, in the callback and in the logout.\<close>

definition drop_cookie_session :: "http_request \<Rightarrow> database \<Rightarrow> database" where
  "drop_cookie_session request d =
     (case req_cookies request SESSION_COOKIE of
        None \<Rightarrow> d
      | Some raw \<Rightarrow>
          if raw = [] then d
          else (case parse_uuid raw of Inl _ \<Rightarrow> d | Inr sid \<Rightarrow> delete_session sid d))"

text \<open>The handlers of the login take the OIDC client and its answers: the redirect to the issuer, the
  token with its user information if it has one, and the user information of the id token.\<close>

record userinfo =
  ui_sub :: "string option"
  ui_email :: "string option"
  ui_name :: "string option"

record oidc_answers =
  authorize_redirect :: "string \<Rightarrow> app_error + unit http_response"
  authorize_access_token :: "app_error + userinfo option"
  parse_id_token :: "app_error + userinfo"

definition auth_login ::
  "coordinator_settings \<Rightarrow> oauth_client option \<Rightarrow> oidc_answers \<Rightarrow> app_error + unit http_response" where
  "auth_login settings oauth oidc =
     (if \<not> auth_enabled settings \<or> oauth = None
      then Inl (http_exception 404 ''Authentication is not configured'')
      else authorize_redirect oidc (resolved_oidc_redirect_uri settings))"

definition callback_userinfo :: "oidc_answers \<Rightarrow> app_error + userinfo" where
  "callback_userinfo oidc =
     (case authorize_access_token oidc of
        Inl e \<Rightarrow> Inl e
      | Inr (Some info) \<Rightarrow> Inr info
      | Inr None \<Rightarrow> parse_id_token oidc)"

definition auth_callback ::
  "coordinator_settings \<Rightarrow> oauth_client option \<Rightarrow> oidc_answers \<Rightarrow> fresh_values \<Rightarrow> http_request \<Rightarrow>
   database \<Rightarrow> database \<times> (app_error + unit http_response)" where
  "auth_callback settings oauth oidc f request d =
     (if \<not> auth_enabled settings \<or> oauth = None
      then (d, Inl (http_exception 404 ''Authentication is not configured''))
      else
        (let d1 = drop_cookie_session request d
         in case callback_userinfo oidc of
              Inl e \<Rightarrow> (d1, Inl e)
            | Inr info \<Rightarrow>
                if \<not> truthy (ui_sub info)
                then (d1, Inl (http_exception 400 ''OIDC token missing sub claim''))
                else
                  (case upsert_user (f_user f) (f_now f) (the (ui_sub info)) (ui_email info)
                          (ui_name info) d1 of
                     (d2, Inl e) \<Rightarrow> (d2, Inl (SqlExc e))
                   | (d2, Inr user) \<Rightarrow>
                       (case create_session (f_session f) (f_utc f) (f_now f) (u_id user)
                               (session_ttl_hours settings) d2 of
                          (d3, Inl e) \<Rightarrow> (d3, Inl (SqlExc e))
                        | (d3, Inr sid) \<Rightarrow>
                            (d3, Inr (set_session_cookie request sid
                               \<lparr>rs_status = 302, rs_body = RedirectTo ''/ui/'', rs_cookies = []\<rparr>))))))"

definition auth_logout ::
  "coordinator_settings \<Rightarrow> fresh_values \<Rightarrow> http_request \<Rightarrow> database
    \<Rightarrow> database \<times> (app_error + (string \<times> string) http_response)" where
  "auth_logout settings f request d =
     (case new_anonymous_session settings f (drop_cookie_session request d) of
        (d1, Inl e) \<Rightarrow> (d1, Inl e)
      | (d1, Inr (user, sid)) \<Rightarrow>
          (d1, Inr (set_session_cookie request sid (ok_response (''status'', ''ok'')))))"

section \<open>Cookies and sessions\<close>

lemma str_uuid_not_Nil [simp]: "str_uuid u \<noteq> []"
  by (simp add: str_uuid_def Let_def)

lemma set_session_cookie_browser [simp]:
  "browser_cookie SESSION_COOKIE (rs_cookies (set_session_cookie request sid response)) =
    Some (str_uuid sid)"
  by (simp add: set_session_cookie_def)

lemma cookie_user_session:
  assumes "req_cookies request SESSION_COOKIE = Some (str_uuid sid)"
  shows "cookie_user now request d = get_session_user now sid d"
  using assms by (simp add: cookie_user_def)

lemma get_session_user_live:
  assumes "accounts_wf d" and "logged_in now sid d = Some u"
  shows "get_session_user now sid d = (d, Some u)"
  using assms by (simp add: get_session_user_def session_join_logged_in)

lemma cookie_user_wf: "accounts_wf d \<Longrightarrow> accounts_wf (fst (cookie_user now request d))"
  by (auto simp: cookie_user_def sessions.look_up_inv split: option.split sum.split)

lemma cookie_user_frame:
  "users (fst (cookie_user now request d)) = users d"
  "set (sessions (fst (cookie_user now request d))) \<subseteq> set (sessions d)"
  by (auto simp: cookie_user_def get_session_user_def sql_delete_def split: option.split sum.split)

text \<open>The ids the surroundings supply are new.\<close>

definition fresh_for :: "fresh_values \<Rightarrow> database \<Rightarrow> bool" where
  "fresh_for f d \<longleftrightarrow>
     f_user f \<notin> u_id ` set (users d) \<and> ''anon:'' @ str_uuid (f_tag f) \<notin> u_sub ` set (users d) \<and>
     f_session f \<notin> s_id ` set (sessions d)"

lemma fresh_for_cookie_user: "fresh_for f d \<Longrightarrow> fresh_for f (fst (cookie_user now request d))"
  using cookie_user_frame [of now request d] by (auto simp: fresh_for_def)

definition anonymous_row :: "fresh_values \<Rightarrow> user_row" where
  "anonymous_row f = \<lparr>u_id = f_user f, u_sub = ''anon:'' @ str_uuid (f_tag f), u_email = None,
     u_name = None, u_created_at = f_now f, u_last_login_at = f_now f\<rparr>"

lemma anonymous_row_simps [simp]:
  "u_id (anonymous_row f) = f_user f" "is_anonymous_user (anonymous_row f)"
  by (simp_all add: anonymous_row_def is_anonymous_user_def)

text \<open>What \<open>new_anonymous_session\<close> does when nothing collides.\<close>

definition with_anonymous :: "coordinator_settings \<Rightarrow> fresh_values \<Rightarrow> database \<Rightarrow> database" where
  "with_anonymous settings f d = d\<lparr>users := users d @ [anonymous_row f],
     sessions := sessions d @ [\<lparr>s_id = f_session f, s_user_id = f_user f,
       s_expires_at = f_utc f + session_ttl_hours settings * hour, s_created_at = f_now f\<rparr>]\<rparr>"

lemma new_anonymous_session_fresh:
  assumes "fresh_for f d"
  shows "new_anonymous_session settings f d =
    (with_anonymous settings f d, Inr (anonymous_row f, f_session f))"
  using assms
  by (simp add: new_anonymous_session_def create_anonymous_user_def create_session_def Let_def
      sql_insert_def fresh_for_def with_anonymous_def anonymous_row_def)

lemma with_anonymous_wf:
  assumes "accounts_wf d" and "fresh_for f d"
  shows "accounts_wf (with_anonymous settings f d)"
  using assms
  by (auto simp: accounts_wf_def with_anonymous_def fresh_for_def pk_append_one anonymous_row_def)

lemma logged_in_with_anonymous:
  assumes "fresh_for f d"
  shows "logged_in t (f_session f) (with_anonymous settings f d) =
    (if t < f_utc f + session_ttl_hours settings * hour then Some (anonymous_row f) else None)"
proof -
  have "session_of (f_session f) d = None" "user_of (f_user f) d = None"
    using assms by (auto simp: fresh_for_def row_of_None)
  then show ?thesis
    by (simp add: logged_in_def with_anonymous_def row_of_append row_of_Cons)
qed

lemma dispatch_known:
  assumes "accounts_wf d" and "req_cookies request SESSION_COOKIE = Some (str_uuid sid)"
    and "logged_in (f_now f) sid d = Some u"
  shows "user_session_dispatch settings f call_next request d =
    call_next (request\<lparr>req_user := Some u\<rparr>) d"
  using get_session_user_live [OF assms(1,3)] cookie_user_session [OF assms(2)]
  by (simp add: user_session_dispatch_def)

lemma dispatch_new:
  assumes "fresh_for f d" and "cookie_user (f_now f) request d = (d1, None)"
  shows "user_session_dispatch settings f call_next request d =
    (case call_next (request\<lparr>req_user := Some (anonymous_row f)\<rparr>) (with_anonymous settings f d1) of
       (d3, Inl e) \<Rightarrow> (d3, Inl e)
     | (d3, Inr response) \<Rightarrow> (d3, Inr (set_session_cookie request (f_session f) response)))"
  using fresh_for_cookie_user [OF assms(1), of "f_now f" request] assms(2)
  by (simp add: user_session_dispatch_def new_anonymous_session_fresh)

section \<open>Properties\<close>

text \<open>C31. A visitor is recognised. A request without a live session is served as a new anonymous
  user; when the browser comes back with the cookie of the response, before the session ends and
  after whatever the handler did that keeps the session, it is served as the same user, and the
  middleware then changes nothing.\<close>

theorem visitor_recognised:
  assumes "accounts_wf d" and "fresh_for f d" and "snd (cookie_user (f_now f) request d) = None"
    and "\<And>r b. \<exists>ops. fst (handler r b) = run_steps account_step ops b \<and>
      (\<forall>op\<in>set ops. keeps_session (f_session f) (f_utc f + session_ttl_hours settings * hour) op)"
    and "user_session_dispatch settings f handler request d = (d3, Inr response)"
    and "req_cookies again SESSION_COOKIE = browser_cookie SESSION_COOKIE (rs_cookies response)"
    and "f_now f' < f_utc f + session_ttl_hours settings * hour"
  shows "\<exists>u. u_id u = f_user f \<and> is_anonymous_user u \<and>
    user_session_dispatch settings f' next_handler again d3 =
      next_handler (again\<lparr>req_user := Some u\<rparr>) d3"
proof -
  let ?E = "f_utc f + session_ttl_hours settings * hour"
  obtain d1 where d1: "cookie_user (f_now f) request d = (d1, None)"
    using assms(3) by (cases "cookie_user (f_now f) request d") simp
  have wf1: "accounts_wf d1" and fr1: "fresh_for f d1"
    using cookie_user_wf [OF assms(1), of "f_now f" request]
      fresh_for_cookie_user [OF assms(2), of "f_now f" request] d1 by simp_all
  let ?d2 = "with_anonymous settings f d1"
  note wf2 = with_anonymous_wf [OF wf1 fr1, of settings]
  obtain response' where run: "handler (request\<lparr>req_user := Some (anonymous_row f)\<rparr>) ?d2 = (d3, Inr response')"
    and resp: "response = set_session_cookie request (f_session f) response'"
    using assms(5) unfolding dispatch_new [OF assms(2) d1]
    by (auto split: prod.splits sum.splits)
  obtain ops where ops: "d3 = run_steps account_step ops ?d2"
      "\<forall>op\<in>set ops. keeps_session (f_session f) ?E op"
    using assms(4) [of "request\<lparr>req_user := Some (anonymous_row f)\<rparr>" ?d2] run by auto
  have "session_of (f_session f) d1 = None" "user_of (f_user f) d1 = None"
    using fr1 by (auto simp: fresh_for_def row_of_None)
  then have "(\<exists>s. session_of (f_session f) ?d2 = Some s \<and> s_expires_at s = ?E \<and> s_user_id s = f_user f) \<and>
     (\<exists>u. user_of (f_user f) ?d2 = Some u \<and> u_sub u = u_sub (anonymous_row f))"
    by (simp add: with_anonymous_def row_of_append row_of_Cons)
  from sess.run_fact [OF wf2 _ this, of ops] ops
  obtain s u where s: "session_of (f_session f) d3 = Some s" "s_expires_at s = ?E"
      "s_user_id s = f_user f" and u: "user_of (f_user f) d3 = Some u" "u_sub u = u_sub (anonymous_row f)"
    by auto
  have wf3: "accounts_wf d3"
    unfolding ops(1) using accounts.run_inv [OF wf2] by simp
  have "logged_in (f_now f') (f_session f) d3 = Some u"
    using s u assms(7) by (simp add: logged_in_def)
  from dispatch_known [OF wf3 _ this] have "user_session_dispatch settings f' next_handler again d3 =
      next_handler (again\<lparr>req_user := Some u\<rparr>) d3"
    using assms(6) resp by simp
  moreover have "u_id u = f_user f" using row_of_Some [OF u(1)] by simp
  moreover have "is_anonymous_user u"
    using u(2) by (simp add: is_anonymous_user_def anonymous_row_def)
  ultimately show ?thesis by blast
qed

definition sample_request :: "string option \<Rightarrow> http_request" where
  "sample_request cookie = \<lparr>req_cookies = (\<lambda>k. if k = SESSION_COOKIE then cookie else None),
     req_headers = (\<lambda>_. None), req_scheme = ''http'', req_user = None\<rparr>"

definition sample_fresh :: fresh_values where
  "sample_fresh = \<lparr>f_user = 10, f_tag = 11, f_session = 12, f_utc = 0, f_now = 0\<rparr>"

lemma sample_fresh_for: "fresh_for sample_fresh accounts_db"
  by (auto simp: fresh_for_def sample_fresh_def accounts_db_def empty_db_def sample_user_def)

lemma sample_cookie [simp]: "req_cookies (sample_request c) SESSION_COOKIE = c"
  by (simp add: sample_request_def)

theorem visitor_recognised_witness:
  "\<exists>d3 response u. user_session_dispatch default_coordinator_settings sample_fresh
       (\<lambda>r b. (b, Inr (ok_response ()))) (sample_request None) accounts_db = (d3, Inr response) \<and>
     u_id u = 10 \<and>
     user_session_dispatch default_coordinator_settings sample_fresh
       (\<lambda>r b. (b, Inr (ok_response (req_user r)))) (sample_request (Some (str_uuid 12))) d3 =
     (d3, Inr (ok_response (Some u)))"
proof -
  let ?h = "\<lambda>r b. (b, Inr (ok_response ()))"
  let ?n = "\<lambda>r b. (b, Inr (ok_response (req_user r)))"
  have c: "cookie_user (f_now sample_fresh) (sample_request None) accounts_db = (accounts_db, None)"
    by (simp add: cookie_user_def)
  have run: "user_session_dispatch default_coordinator_settings sample_fresh ?h (sample_request None)
      accounts_db = (with_anonymous default_coordinator_settings sample_fresh accounts_db,
        Inr (set_session_cookie (sample_request None) 12 (ok_response ())))"
    unfolding dispatch_new [OF sample_fresh_for c] by (simp add: sample_fresh_def)
  have "\<exists>u. u_id u = f_user sample_fresh \<and> is_anonymous_user u \<and>
     user_session_dispatch default_coordinator_settings sample_fresh ?n
       (sample_request (Some (str_uuid 12)))
       (with_anonymous default_coordinator_settings sample_fresh accounts_db) =
     ?n ((sample_request (Some (str_uuid 12)))\<lparr>req_user := Some u\<rparr>)
       (with_anonymous default_coordinator_settings sample_fresh accounts_db)"
  proof (rule visitor_recognised [OF accounts_db_wf sample_fresh_for _ _ run])
    show "snd (cookie_user (f_now sample_fresh) (sample_request None) accounts_db) = None"
      by (simp add: c)
    show "\<exists>ops. fst ((\<lambda>r b. (b, Inr (ok_response ()))) r b) = run_steps account_step ops b \<and>
      (\<forall>op\<in>set ops. keeps_session (f_session sample_fresh)
         (f_utc sample_fresh + session_ttl_hours default_coordinator_settings * hour) op)" for r b
      by (intro exI [of _ "[]"]) simp
  qed (simp_all add: sample_fresh_def default_coordinator_settings_def hour_def second_def)
  with run show ?thesis
    by (force simp: sample_fresh_def)
qed

section \<open>Login\<close>

lemma upsert_result:
  assumes "accounts_wf d" and "fresh \<notin> u_id ` set (users d)"
  shows "\<exists>d' u. upsert_user fresh now sub email name d = (d', Inr u) \<and> u_sub u = sub \<and>
    user_of (u_id u) d' = Some u \<and> sessions d' = sessions d \<and> accounts_wf d'"
proof -
  let ?upd = "\<lambda>u. u\<lparr>u_email := coalesce_opt email (u_email u),
                       u_name := coalesce_opt name (u_name u), u_last_login_at := now\<rparr>"
  have wf: "accounts_wf (fst (upsert_user fresh now sub email name d))"
    using accounts_wf_step [OF assms(1), of "AccUpsert fresh now sub email name"] by simp
  show ?thesis
  proof (cases "fetchrow (returning (\<lambda>u. u_sub u = sub) ?upd (users d))")
    case None
    let ?row = "\<lparr>u_id = fresh, u_sub = sub, u_email = email, u_name = name,
                         u_created_at = now, u_last_login_at = now\<rparr>"
    have eq: "upsert_user fresh now sub email name d = (d\<lparr>users := users d @ [?row]\<rparr>, Inr ?row)"
      using None assms(2) by (simp add: upsert_user_def Let_def sql_insert_def)
    moreover have "user_of fresh d = None"
      using assms(2) by (simp add: row_of_None)
    ultimately show ?thesis
      using wf by (simp add: row_of_append row_of_Cons)
  next
    case (Some u)
    have eq: "upsert_user fresh now sub email name d =
        (d\<lparr>users := sql_update (\<lambda>u. u_sub u = sub) ?upd (users d)\<rparr>, Inr u)"
      using Some by (simp add: upsert_user_def Let_def)
    have "u \<in> set (returning (\<lambda>u. u_sub u = sub) ?upd (users d))"
      using Some by (rule fetchrow_Some_set)
    then obtain v where v: "v \<in> set (users d)" "u_sub v = sub" "u = ?upd v"
      by (auto simp: returning_def)
    have "user_of (u_id v) d = Some v"
      using v(1) row_of_iff [OF accounts_wf_pk(1) [OF assms(1)]] by simp
    then have "row_of u_id (u_id v) (sql_update (\<lambda>u. u_sub u = sub) ?upd (users d)) = Some u"
      using row_of_update [of u_id ?upd "u_id v" "\<lambda>u. u_sub u = sub" "users d"] v by simp
    with v wf show ?thesis
      unfolding eq by simp
  qed
qed

text \<open>The callback of a successful login, in front of the store.\<close>

lemma callback_result:
  assumes wf: "accounts_wf d" and cookie: "req_cookies request SESSION_COOKIE = Some (str_uuid old)"
    and on: "auth_enabled settings" "oauth \<noteq> None"
    and info: "callback_userinfo oidc = Inr info" "ui_sub info = Some sub" "sub \<noteq> []"
    and fresh: "f_user f \<notin> u_id ` set (users d)" "f_session f \<notin> s_id ` set (sessions d)"
      "f_session f \<noteq> old"
  shows "\<exists>d' response u. auth_callback settings oauth oidc f request d = (d', Inr response) \<and>
    rs_status response = 302 \<and>
    (\<exists>c. rs_cookies response = [c] \<and> ck_key c = SESSION_COOKIE \<and> ck_value c = str_uuid (f_session f)) \<and>
    u_sub u = sub \<and> (\<forall>t. logged_in t (f_session f) d' =
      (if t < f_utc f + session_ttl_hours settings * hour then Some u else None)) \<and>
    (\<forall>t. logged_in t old d' = None)"
proof -
  let ?d1 = "delete_session old d"
  have d1: "drop_cookie_session request d = ?d1"
    using cookie by (simp add: drop_cookie_session_def)
  have wf1: "accounts_wf ?d1" by (rule sessions.close_inv) (rule wf)
  have "f_user f \<notin> u_id ` set (users ?d1)"
    using fresh(1) by (simp add: delete_session_def)
  from upsert_result [OF wf1 this] obtain d2 u where
    up: "upsert_user (f_user f) (f_now f) sub (ui_email info) (ui_name info) ?d1 = (d2, Inr u)"
    and u: "u_sub u = sub" "user_of (u_id u) d2 = Some u" "sessions d2 = sessions ?d1" "accounts_wf d2"
    by blast
  have us: "u_id u \<in> u_id ` set (users d2)"
    using row_of_Some [OF u(2)] by force
  have "f_session f \<notin> s_id ` set (sessions d2)"
    using fresh(2) u(3) by (auto simp: delete_session_def sql_delete_def)
  with us have "snd (create_session (f_session f) (f_utc f) (f_now f) (u_id u)
      (session_ttl_hours settings) d2) = Inr (f_session f)"
    by (simp add: create_session_def Let_def sql_insert_def)
  then obtain d3 where cr: "create_session (f_session f) (f_utc f) (f_now f) (u_id u)
      (session_ttl_hours settings) d2 = (d3, Inr (f_session f))"
    by (cases "create_session (f_session f) (f_utc f) (f_now f) (u_id u)
      (session_ttl_hours settings) d2") simp
  note op = sessions.open_who [OF u(4) cr]
  have dead: "logged_in t old d2 = None" for t
  proof -
    have "old \<notin> s_id ` set (sessions d2)"
      using u(3) by (auto simp: delete_session_def sql_delete_def)
    then have "session_of old d2 = None" by (simp add: row_of_None)
    then show ?thesis by (simp add: logged_in_def)
  qed
  have "auth_callback settings oauth oidc f request d = (d3, Inr (set_session_cookie request
      (f_session f) \<lparr>rs_status = 302, rs_body = RedirectTo ''/ui/'', rs_cookies = []\<rparr>))"
    using on info by (simp add: auth_callback_def Let_def d1 up cr)
  then show ?thesis
    using op dead u(1,2) fresh(3)
    by (intro exI [of _ d3] exI [of _ u] exI) (auto simp: set_session_cookie_def)
qed

text \<open>C32. Login. When the browser comes to the callback with a live session and the issuer confirms a
  subject, the response redirects to the interface with the cookie of a new session, which stands
  for the user with that subject until it ends, and the old session stands for nobody.\<close>

theorem login_establishes_session:
  assumes "accounts_wf d" and "req_cookies request SESSION_COOKIE = Some (str_uuid old)"
    and "logged_in (f_now m) old d = Some visitor"
    and "auth_enabled settings" and "oauth \<noteq> None"
    and "callback_userinfo oidc = Inr info" and "ui_sub info = Some sub" and "sub \<noteq> []"
    and "f_user f \<notin> u_id ` set (users d)" and "f_session f \<notin> s_id ` set (sessions d)"
    and "f_session f \<noteq> old"
  shows "\<exists>d' response u. user_session_dispatch settings m
       (\<lambda>r b. (case auth_callback settings oauth oidc f r b of (b', res) \<Rightarrow> (b', as_response res)))
       request d = (d', Inr response) \<and>
     rs_status response = 302 \<and>
     browser_cookie SESSION_COOKIE (rs_cookies response) = Some (str_uuid (f_session f)) \<and>
     u_sub u = sub \<and> (\<forall>t. logged_in t (f_session f) d' =
       (if t < f_utc f + session_ttl_hours settings * hour then Some u else None)) \<and>
     (\<forall>t. logged_in t old d' = None)"
proof -
  let ?r = "request\<lparr>req_user := Some visitor\<rparr>"
  have "req_cookies ?r SESSION_COOKIE = Some (str_uuid old)" using assms(2) by simp
  from callback_result [OF assms(1) this assms(4-11)] show ?thesis
    unfolding dispatch_known [OF assms(1-3)] by (fastforce simp: browser_cookie_def)
qed

definition login_settings :: coordinator_settings where
  "login_settings = default_coordinator_settings\<lparr>oidc_issuer_url := Some ''https://i'',
     oidc_client_id := Some ''c'', oidc_client_secret := Some ''s'', session_secret := Some ''x''\<rparr>"

definition login_answers :: oidc_answers where
  "login_answers = \<lparr>authorize_redirect = (\<lambda>u. Inr \<lparr>rs_status = 302, rs_body = RedirectTo u, rs_cookies = []\<rparr>),
     authorize_access_token = Inr (Some \<lparr>ui_sub = Some ''alice'', ui_email = None, ui_name = None\<rparr>),
     parse_id_token = Inl OtherExc\<rparr>"

definition visitor_db :: database where
  "visitor_db = with_anonymous login_settings sample_fresh accounts_db"

lemma visitor_db_wf: "accounts_wf visitor_db"
  unfolding visitor_db_def by (rule with_anonymous_wf [OF accounts_db_wf sample_fresh_for])

lemma visitor_db_logged_in: "logged_in 5 12 visitor_db = Some (anonymous_row sample_fresh)"
  using logged_in_with_anonymous [OF sample_fresh_for, of 5 login_settings]
  by (simp add: visitor_db_def sample_fresh_def login_settings_def default_coordinator_settings_def
      hour_def second_def)

theorem login_establishes_session_witness:
  "\<exists>d' response u. user_session_dispatch login_settings (sample_fresh\<lparr>f_now := 5\<rparr>)
       (\<lambda>r b. (case auth_callback login_settings (configure_auth login_settings) login_answers
          (sample_fresh\<lparr>f_user := 20, f_session := 21\<rparr>) r b of (b', res) \<Rightarrow> (b', as_response res)))
       (sample_request (Some (str_uuid 12))) visitor_db = (d', Inr response) \<and>
     logged_in 5 21 d' = Some u \<and> u_sub u = ''alice''"
proof -
  let ?f = "sample_fresh\<lparr>f_user := 20, f_session := 21\<rparr>"
  have on: "auth_enabled login_settings" "configure_auth login_settings \<noteq> None"
    by (simp_all add: auth_enabled_def configure_auth_def login_settings_def)
  have info: "callback_userinfo login_answers =
      Inr \<lparr>ui_sub = Some ''alice'', ui_email = None, ui_name = None\<rparr>"
    by (simp add: callback_userinfo_def login_answers_def)
  have live: "logged_in (f_now (sample_fresh\<lparr>f_now := 5\<rparr>)) 12 visitor_db = Some (anonymous_row sample_fresh)"
    by (simp add: visitor_db_logged_in)
  have fr: "f_user ?f \<notin> u_id ` set (users visitor_db)" "f_session ?f \<notin> s_id ` set (sessions visitor_db)"
      "f_session ?f \<noteq> 12"
    by (simp_all add: visitor_db_def with_anonymous_def accounts_db_def empty_db_def sample_user_def
        anonymous_row_def sample_fresh_def)
  have c: "req_cookies (sample_request (Some (str_uuid 12))) SESSION_COOKIE = Some (str_uuid 12)"
    by simp
  from login_establishes_session [OF visitor_db_wf c live on info _ _ fr, of "''alice''"] show ?thesis
    by (auto simp: sample_fresh_def login_settings_def default_coordinator_settings_def hour_def second_def)
qed

text \<open>A login that is lost. When the browser comes to the callback without a live session, for
  instance with one that ended during the visit to the issuer, the handler signs the user in, and
  then the middleware sets its own cookie after the handler's: the browser keeps the anonymous
  session.\<close>

theorem login_without_session_is_lost:
  assumes "accounts_wf d" and "fresh_for m d" and "cookie_user (f_now m) request d = (d1, None)"
    and "user_session_dispatch settings m
       (\<lambda>r b. (case auth_callback settings oauth oidc f r b of (b', res) \<Rightarrow> (b', as_response res)))
       request d = (d', Inr response)"
  shows "browser_cookie SESSION_COOKIE (rs_cookies response) = Some (str_uuid (f_session m)) \<and>
    (\<exists>u. is_anonymous_user u \<and> (\<forall>t < f_utc m + session_ttl_hours settings * hour.
      logged_in t (f_session m) (with_anonymous settings m d1) = Some u))"
proof -
  have fr: "fresh_for m d1"
    using fresh_for_cookie_user [OF assms(2), of "f_now m" request] assms(3) by simp
  have "browser_cookie SESSION_COOKIE (rs_cookies response) = Some (str_uuid (f_session m))"
    using assms(4) unfolding dispatch_new [OF assms(2,3)]
    by (auto split: prod.splits sum.splits)
  with logged_in_with_anonymous [OF fr, of _ settings] show ?thesis
    by (intro conjI exI [of _ "anonymous_row m"]) simp_all
qed

text \<open>A login that fails ends the visitor's session. The callback deletes the session of the cookie
  before it asks the issuer, so when the issuer's answer is an error the session, with the anonymous
  history and sheets it gave access to, is gone.\<close>

theorem failed_login_ends_session:
  assumes "accounts_wf d" and "req_cookies request SESSION_COOKIE = Some (str_uuid old)"
    and "auth_enabled settings" and "oauth \<noteq> None" and "callback_userinfo oidc = Inl e"
  shows "snd (auth_callback settings oauth oidc f request d) = Inl e \<and>
    logged_in t old (fst (auth_callback settings oauth oidc f request d)) = None"
proof -
  have "auth_callback settings oauth oidc f request d = (delete_session old d, Inl e)"
    unfolding auth_callback_def drop_cookie_session_def Let_def using assms(2-5) by auto
  then show ?thesis
    using sessions.close_who [OF assms(1), of t old old] by simp
qed

theorem login_without_session_is_lost_witness:
  "\<exists>d' response. user_session_dispatch login_settings sample_fresh
       (\<lambda>r b. (case auth_callback login_settings (configure_auth login_settings) login_answers
          (sample_fresh\<lparr>f_user := 20, f_session := 21\<rparr>) r b of (b', res) \<Rightarrow> (b', as_response res)))
       (sample_request None) accounts_db = (d', Inr response) \<and>
     browser_cookie SESSION_COOKIE (rs_cookies response) = Some (str_uuid 12)"
proof -
  let ?cb = "\<lambda>r b. (case auth_callback login_settings (configure_auth login_settings) login_answers
          (sample_fresh\<lparr>f_user := 20, f_session := 21\<rparr>) r b of (b', res) \<Rightarrow> (b', as_response res))"
  have c: "cookie_user (f_now sample_fresh) (sample_request None) accounts_db = (accounts_db, None)"
    by (simp add: cookie_user_def)
  have "\<exists>d' response. ?cb ((sample_request None)\<lparr>req_user := Some (anonymous_row sample_fresh)\<rparr>)
      (with_anonymous login_settings sample_fresh accounts_db) = (d', Inr response)"
    by (simp add: auth_callback_def auth_enabled_def configure_auth_def login_settings_def Let_def
        drop_cookie_session_def callback_userinfo_def login_answers_def upsert_user_def
        create_session_def sql_insert_def with_anonymous_def accounts_db_def empty_db_def
        sample_user_def anonymous_row_def sample_fresh_def returning_def sql_update_def)
  then obtain d' response where "user_session_dispatch login_settings sample_fresh ?cb
      (sample_request None) accounts_db = (d', Inr response)"
    unfolding dispatch_new [OF sample_fresh_for c] by auto
  with login_without_session_is_lost [OF accounts_db_wf sample_fresh_for c this] show ?thesis
    by (simp add: sample_fresh_def)
qed

theorem failed_login_ends_session_witness:
  "logged_in 5 12 visitor_db \<noteq> None \<and>
   logged_in 5 12 (fst (auth_callback login_settings (configure_auth login_settings)
     (login_answers\<lparr>authorize_access_token := Inl OtherExc\<rparr>) sample_fresh
     (sample_request (Some (str_uuid 12))) visitor_db)) = None"
proof -
  have on: "auth_enabled login_settings" "configure_auth login_settings \<noteq> None"
    by (simp_all add: auth_enabled_def configure_auth_def login_settings_def)
  have c: "req_cookies (sample_request (Some (str_uuid 12))) SESSION_COOKIE = Some (str_uuid 12)"
    by simp
  have e: "callback_userinfo (login_answers\<lparr>authorize_access_token := Inl OtherExc\<rparr>) = Inl OtherExc"
    by (simp add: callback_userinfo_def)
  show ?thesis
    using failed_login_ends_session [OF visitor_db_wf c on e] visitor_db_logged_in by simp
qed

end
