(* ===== verification/Sql_Quote.thy ===== *)
theory Sql_Quote
  imports Py_Str
begin

text \<open>
  How SQL reads text between quotes, single ones for literals and double ones for identifiers: a
  doubled quote stands for one, a single one ends the text. The program doubles quotes with
  \<^verbatim>\<open>replace\<close>; that the result reads back is proved here once for both kinds.
\<close>

text \<open>The opening quote has been read; the result is the text and what follows it.\<close>

fun read_quoted :: "char \<Rightarrow> string \<Rightarrow> string \<Rightarrow> (string \<times> string) option" where
  "read_quoted q acc [] = None"
| "read_quoted q acc [c] = (if c = q then Some (rev acc, []) else None)"
| "read_quoted q acc (c # d # s) =
     (if c = q then (if d = q then read_quoted q (q # acc) s else Some (rev acc, d # s))
      else read_quoted q (c # acc) (d # s))"

lemma read_quoted_other:
  "c \<noteq> q \<Longrightarrow> s \<noteq> [] \<Longrightarrow> read_quoted q acc (c # s) = read_quoted q (c # acc) s"
  by (cases s) auto

lemma read_quoted_doubled:
  assumes "\<not> startswith t [q]"
  shows "read_quoted q acc (replace [q] [q, q] v @ q # t) = Some (rev acc @ v, t)"
  unfolding replace_single
proof (induction v arbitrary: acc)
  case Nil
  then show ?case using assms by (cases t) auto
next
  case (Cons c v)
  then show ?case
    by (cases "c = q") (simp_all add: read_quoted_other)
qed

lemma read_quoted_shorter: "read_quoted q acc s = Some (v, t) \<Longrightarrow> length t < length s"
  by (induction q acc s rule: read_quoted.induct) (auto split: if_splits)

end
