(* ===== verification/Init_Scripts.thy ===== *)
theory Init_Scripts
  imports Settings Sql_Quote
begin

text \<open>
  The init scripts of \<^verbatim>\<open>ducklauncher/config.py\<close>: the substitution of \<^verbatim>\<open>${NAME}\<close> and
  \<^verbatim>\<open>${NAME:-default}\<close> from the environment, the splitting of the result into statements, and the
  selection of the statements a worker runs. The environment and the files are functions from
  names to contents.
\<close>

section \<open>The program\<close>

type_synonym environment = "string \<Rightarrow> string option"

text \<open>One match of \<^verbatim>\<open>\$\{([^}:]+)(?::-([^}]*))?\}\<close> at the start of a text: the two groups, the matched
  text and what follows it. The groups exclude the characters that end them, so the greedy match
  is the only one.\<close>

definition match_var :: "string \<Rightarrow> (string \<times> string option \<times> string \<times> string) option" where
  "match_var s =
     (if \<not> startswith s ''${'' then None
      else (let body = drop 2 s;
                name = takeWhile (\<lambda>c. c \<noteq> CHR ''}'' \<and> c \<noteq> CHR '':'') body;
                rest = dropWhile (\<lambda>c. c \<noteq> CHR ''}'' \<and> c \<noteq> CHR '':'') body
            in if name = [] then None
               else if startswith rest ''}'' then Some (name, None, ''${'' @ name @ ''}'', drop 1 rest)
               else if startswith rest '':-'' then
                 (let dflt = takeWhile (\<lambda>c. c \<noteq> CHR ''}'') (drop 2 rest);
                      after = dropWhile (\<lambda>c. c \<noteq> CHR ''}'') (drop 2 rest)
                  in if startswith after ''}''
                     then Some (name, Some dflt, ''${'' @ name @ '':-'' @ dflt @ ''}'', drop 1 after)
                     else None)
               else None))"

definition sql_escape :: "string \<Rightarrow> string" where
  "sql_escape value = replace [CHR 0x27] [CHR 0x27, CHR 0x27] value"

definition env_default :: "environment \<Rightarrow> string \<Rightarrow> string option \<Rightarrow> py_error + string" where
  "env_default env name inline_default =
     (case env name of
        Some v \<Rightarrow> Inr v
      | None \<Rightarrow>
          if name = ''ICEBERG_OAUTH_URI'' then
            (let endpoint = coalesce (env ''ICEBERG_ENDPOINT'') (coalesce inline_default [])
             in if endpoint = [] then Inl (KeyError name)
                else Inr (rstrip_chars ''/'' endpoint @ ''/v1/oauth/tokens''))
          else (case inline_default of
                  Some d \<Rightarrow> Inr d
                | None \<Rightarrow> Inl (KeyError name)))"

text \<open>The function \<^verbatim>\<open>replacer\<close> on one match.\<close>

definition replacer :: "environment \<Rightarrow> string \<Rightarrow> string option \<Rightarrow> string \<Rightarrow> string" where
  "replacer env name inline_default group0 =
     (case env_default env name inline_default of
        Inl _ \<Rightarrow> group0
      | Inr v \<Rightarrow> sql_escape v)"

lemma match_var_length:
  "match_var s = Some (name, dflt, g, rest) \<Longrightarrow> length rest < length s"
proof -
  assume m: "match_var s = Some (name, dflt, g, rest)"
  have dw: "length (dropWhile P xs) \<le> length xs" for P :: "char \<Rightarrow> bool" and xs
    by (rule length_dropWhile_le)
  have "\<exists>t. s = CHR ''$'' # CHR ''{'' # t"
    using m by (auto simp: match_var_def startswith_iff split: if_splits)
  then obtain t where t: "s = CHR ''$'' # CHR ''{'' # t" by blast
  have "length rest \<le> length t"
    using m dw [of "\<lambda>c. c \<noteq> CHR ''}'' \<and> c \<noteq> CHR '':''" t]
      dw [of "\<lambda>c. c \<noteq> CHR ''}''" "drop 2 (dropWhile (\<lambda>c. c \<noteq> CHR ''}'' \<and> c \<noteq> CHR '':'') t)"]
    by (auto simp: match_var_def t Let_def split: if_splits)
  with t show ?thesis by simp
qed

text \<open>\<^verbatim>\<open>_ENV_VAR.sub(replacer, content)\<close>.\<close>

function expand_init_sql :: "environment \<Rightarrow> string \<Rightarrow> string" where
  "expand_init_sql env [] = []"
| "expand_init_sql env (c # cs) =
     (case match_var (c # cs) of
        None \<Rightarrow> c # expand_init_sql env cs
      | Some (name, inline_default, group0, rest) \<Rightarrow>
          replacer env name inline_default group0 @ expand_init_sql env rest)"
  by pat_completeness auto
termination
  by (relation "measure (\<lambda>(_, s). length s)") (auto dest: match_var_length)

definition executable_sql :: "string \<Rightarrow> bool" where
  "executable_sql statement \<longleftrightarrow>
     (\<exists>line\<in>set (splitlines statement).
        strip line \<noteq> [] \<and> \<not> startswith (strip line) ''--'')"

definition cache_httpfs_enabled :: "environment \<Rightarrow> bool" where
  "cache_httpfs_enabled env \<longleftrightarrow>
     lower (coalesce (env ''CACHE_HTTPFS_ENABLED'') ''1'') \<notin> {''0'', ''false'', ''no''}"

text \<open>The file system is asked whether a name is a file, what a name resolves to, and for contents.\<close>

record file_system =
  is_file :: "string \<Rightarrow> bool"
  resolve :: "string \<Rightarrow> string"
  content_of :: "posix_path \<Rightarrow> string option"

definition default_init_scripts_path :: "file_system \<Rightarrow> string option" where
  "default_init_scripts_path fs =
     (if is_file fs ''init.sql'' then Some (resolve fs ''init.sql'') else None)"

definition resolve_init_scripts_path :: "file_system \<Rightarrow> string option \<Rightarrow> string option" where
  "resolve_init_scripts_path fs explicit =
     (case explicit of Some p \<Rightarrow> Some p | None \<Rightarrow> default_init_scripts_path fs)"

definition load_init_scripts ::
  "environment \<Rightarrow> file_system \<Rightarrow> string option \<Rightarrow> py_error + string list" where
  "load_init_scripts env fs path =
     (case resolve_init_scripts_path fs path of
        None \<Rightarrow> Inr []
      | Some resolved \<Rightarrow>
          if resolved = [] then Inr []
          else (case content_of fs (parse_path resolved) of
                  None \<Rightarrow> Inl (FileNotFoundError resolved)
                | Some content \<Rightarrow>
                    (let statements = map strip (filter executable_sql
                           (split_on CHR '';'' (expand_init_sql env content)))
                     in Inr (if cache_httpfs_enabled env then statements
                             else filter (\<lambda>s. \<not> contains (lower s) ''cache_httpfs'') statements))))"

section \<open>Templates\<close>

text \<open>A script as its author thinks of it: plain text and placeholders.\<close>

datatype piece = Plain string | Placeholder string "string option"

fun print_piece :: "piece \<Rightarrow> string" where
  "print_piece (Plain s) = s"
| "print_piece (Placeholder n None) = ''${'' @ n @ ''}''"
| "print_piece (Placeholder n (Some d)) = ''${'' @ n @ '':-'' @ d @ ''}''"

fun wf_piece :: "piece \<Rightarrow> bool" where
  "wf_piece (Plain s) = (CHR ''$'' \<notin> set s)"
| "wf_piece (Placeholder n d) =
     (n \<noteq> [] \<and> CHR ''}'' \<notin> set n \<and> CHR '':'' \<notin> set n \<and>
      (case d of None \<Rightarrow> True | Some t \<Rightarrow> CHR ''}'' \<notin> set t))"

text \<open>What a piece stands for: a placeholder for the escaped value of its variable, or else of its
  default; a placeholder without either for itself.\<close>

fun piece_value :: "environment \<Rightarrow> piece \<Rightarrow> string" where
  "piece_value env (Plain s) = s"
| "piece_value env (Placeholder n d) =
     (case env_default env n d of
        Inl _ \<Rightarrow> print_piece (Placeholder n d)
      | Inr v \<Rightarrow> sql_escape v)"

lemma expand_plain: "CHR ''$'' \<notin> set s \<Longrightarrow> expand_init_sql env (s @ t) = s @ expand_init_sql env t"
proof (induction s)
  case Nil
  then show ?case by simp
next
  case (Cons c s)
  then have "c \<noteq> CHR ''$''" by auto
  then have "match_var (c # s @ t) = None"
    by (simp add: match_var_def)
  with Cons show ?case by simp
qed

lemma takeWhile_stop: "(\<forall>c\<in>set n. P c) \<Longrightarrow> \<not> P x \<Longrightarrow> takeWhile P (n @ x # t) = n"
  by (induction n) auto

lemma dropWhile_stop: "(\<forall>c\<in>set n. P c) \<Longrightarrow> \<not> P x \<Longrightarrow> dropWhile P (n @ x # t) = x # t"
  by (induction n) auto

lemma match_var_placeholder:
  assumes "wf_piece (Placeholder n d)"
  shows "match_var (print_piece (Placeholder n d) @ t) = Some (n, d, print_piece (Placeholder n d), t)"
proof -
  have n: "\<forall>c\<in>set n. c \<noteq> CHR ''}'' \<and> c \<noteq> CHR '':''" "n \<noteq> []"
    using assms by auto
  show ?thesis
  proof (cases d)
    case None
    then show ?thesis
      using n takeWhile_stop [OF n(1), of "CHR ''}''" t] dropWhile_stop [OF n(1), of "CHR ''}''" t]
      by (simp add: match_var_def)
  next
    case (Some u)
    then have u: "\<forall>c\<in>set u. c \<noteq> CHR ''}''"
      using assms by auto
    let ?t = "CHR ''-'' # u @ CHR ''}'' # t"
    show ?thesis
      using n takeWhile_stop [OF n(1), of "CHR '':''" ?t] dropWhile_stop [OF n(1), of "CHR '':''" ?t]
        takeWhile_stop [OF u, of "CHR ''}''" t] dropWhile_stop [OF u, of "CHR ''}''" t]
      by (simp add: match_var_def Some Let_def)
  qed
qed

lemma expand_piece:
  assumes "wf_piece p"
  shows "expand_init_sql env (print_piece p @ t) = piece_value env p @ expand_init_sql env t"
proof (cases p)
  case (Plain s)
  with assms show ?thesis by (simp add: expand_plain)
next
  case (Placeholder n d)
  note m = match_var_placeholder [OF assms [unfolded Placeholder], of t]
  obtain c cs where c: "print_piece (Placeholder n d) @ t = c # cs"
    by (cases d) auto
  have "expand_init_sql env (c # cs) =
      replacer env n d (print_piece (Placeholder n d)) @ expand_init_sql env t"
    using m unfolding c by simp
  with c show ?thesis
    by (simp add: Placeholder replacer_def split: sum.split)
qed

section \<open>Properties\<close>

text \<open>C37. Substitution. On a script made of plain text without dollar signs and well-formed
  placeholders, the expansion replaces each placeholder by the escaped value of its variable, or by
  its escaped default when the variable is not set, leaves an unset one without default as it is,
  and keeps everything else.\<close>

theorem expand_template:
  assumes "\<forall>p\<in>set ps. wf_piece p"
  shows "expand_init_sql env (concat (map print_piece ps)) = concat (map (piece_value env) ps)"
  using assms by (induction ps) (simp_all add: expand_piece)

definition sample_env :: environment where
  "sample_env = [''KEY'' \<mapsto> ''a;b'', ''NAME'' \<mapsto> [CHR 0x27], ''ICEBERG_ENDPOINT'' \<mapsto> ''http://h//'']"

theorem expand_template_witness:
  "expand_init_sql sample_env ''SET y=${MISSING:-no}, z=${ICEBERG_OAUTH_URI}, u=${U}'' =
   ''SET y=no, z=http://h/v1/oauth/tokens, u=${U}''"
proof -
  let ?ps = "[Plain ''SET y='', Placeholder ''MISSING'' (Some ''no''), Plain '', z='',
      Placeholder ''ICEBERG_OAUTH_URI'' None, Plain '', u='', Placeholder ''U'' None]"
  have "expand_init_sql sample_env (concat (map print_piece ?ps)) = concat (map (piece_value sample_env) ?ps)"
    by (rule expand_template) simp
  then show ?thesis
    by (simp add: env_default_def sample_env_def sql_escape_def rstrip_chars_def Let_def)
qed

text \<open>How SQL reads a string literal whose opening quote has been read.\<close>

definition read_literal :: "string \<Rightarrow> (string \<times> string) option" where
  "read_literal = read_quoted CHR 0x27 []"

lemma read_literal_escape:
  "\<not> startswith t [CHR 0x27] \<Longrightarrow> read_literal (sql_escape v @ CHR 0x27 # t) = Some (v, t)"
  by (simp add: read_literal_def sql_escape_def read_quoted_doubled)

text \<open>C38. No injection through quotes. In a script that places a variable between single quotes, the
  expanded literal reads back as exactly the value of the variable, whatever characters it has, and
  the text after the literal is what the expansion of the rest gives.\<close>

theorem quoted_variable_is_literal:
  assumes "wf_piece (Placeholder name d)" and "env_default env name d = Inr v"
    and "\<not> startswith (expand_init_sql env rest) [CHR 0x27]"
  shows "read_literal (expand_init_sql env (print_piece (Placeholder name d) @ CHR 0x27 # rest)) =
    Some (v, expand_init_sql env rest)"
proof -
  have "match_var (CHR 0x27 # rest) = None"
    by (simp add: match_var_def)
  then have "expand_init_sql env (CHR 0x27 # rest) = CHR 0x27 # expand_init_sql env rest"
    by simp
  then show ?thesis
    using expand_piece [OF assms(1), of env "CHR 0x27 # rest"] assms(2)
      read_literal_escape [OF assms(3), of v] by simp
qed

theorem quoted_variable_is_literal_witness:
  "read_literal (expand_init_sql sample_env (''${NAME}'' @ CHR 0x27 # '', x)'')) =
    Some ([CHR 0x27], '', x)'')"
  using quoted_variable_is_literal [of "''NAME''" None sample_env "[CHR 0x27]" "'', x)''"]
  by (simp add: env_default_def sample_env_def match_var_def)

section \<open>What reaches the workers\<close>

lemma splitlines_aux_subset: "l \<in> set (splitlines_aux acc s) \<Longrightarrow> set l \<subseteq> set acc \<union> set s"
  by (induction acc s arbitrary: l rule: splitlines_aux.induct) (fastforce split: if_splits)+

lemma executable_strip_not_Nil:
  assumes "executable_sql s"
  shows "strip s \<noteq> []"
proof -
  obtain l where "l \<in> set (splitlines s)" "strip l \<noteq> []"
    using assms by (auto simp: executable_sql_def)
  moreover from this have "set l \<subseteq> set s"
    using splitlines_aux_subset [of l "[]" s] by (simp add: splitlines_def)
  ultimately show ?thesis
    by (auto simp: strip_eq_Nil_iff)
qed

lemma strip_first:
  assumes "strip s \<noteq> []"
  shows "\<not> is_space (hd (strip s))" "\<not> is_space (last (strip s))"
proof -
  show "\<not> is_space (last (strip s))"
    using assms rstrip_no_trailing by (simp add: strip_def)
  have "\<exists>t. lstrip s = rstrip (lstrip s) @ t"
  proof -
    have "rev (lstrip s) = takeWhile is_space (rev (lstrip s)) @ dropWhile is_space (rev (lstrip s))"
      by simp
    then have "lstrip s = rstrip (lstrip s) @ rev (takeWhile is_space (rev (lstrip s)))"
      unfolding rstrip_def by (metis rev_append rev_rev_ident)
    then show ?thesis by blast
  qed
  then obtain t where t: "lstrip s = strip s @ t" by (auto simp: strip_def)
  with assms have "hd (strip s) = hd (lstrip s)" "lstrip s \<noteq> []"
    by (cases "strip s"; simp)+
  then show "\<not> is_space (hd (strip s))"
    using hd_dropWhile [of is_space s] by (simp add: lstrip_def)
qed

lemma load_init_scripts_members:
  assumes "load_init_scripts env fs path = Inr ss" and "s \<in> set ss"
  obtains content chunk where "chunk \<in> set (split_on CHR '';'' (expand_init_sql env content))"
    "executable_sql chunk" "s = strip chunk"
    "\<not> cache_httpfs_enabled env \<longrightarrow> \<not> contains (lower s) ''cache_httpfs''"
  using assms
  by (auto simp: load_init_scripts_def Let_def split: option.splits if_splits)

text \<open>What the workers get. Every statement that \<^verbatim>\<open>load_init_scripts\<close> returns is non-empty, has no
  blank at either end and no semicolon, so a variable whose value has a semicolon never reaches a
  worker in one piece; and with the cache switched off no statement mentions it.\<close>

theorem init_statements_clean:
  assumes "load_init_scripts env fs path = Inr statements"
  shows "\<forall>s\<in>set statements. s \<noteq> [] \<and> \<not> is_space (hd s) \<and> \<not> is_space (last s) \<and>
    CHR '';'' \<notin> set s \<and> (\<forall>v. CHR '';'' \<in> set v \<longrightarrow> \<not> sublist v s) \<and>
    (\<not> cache_httpfs_enabled env \<longrightarrow> \<not> contains (lower s) ''cache_httpfs'')"
proof
  fix s assume "s \<in> set statements"
  with assms obtain content chunk where
    c: "chunk \<in> set (split_on CHR '';'' (expand_init_sql env content))" "executable_sql chunk"
      "s = strip chunk" "\<not> cache_httpfs_enabled env \<longrightarrow> \<not> contains (lower s) ''cache_httpfs''"
    by (rule load_init_scripts_members)
  have ne: "strip chunk \<noteq> []"
    by (rule executable_strip_not_Nil) (rule c(2))
  have semi: "CHR '';'' \<notin> set s"
    using split_on_no_sep [OF c(1)] strip_set_subset [of chunk] c(3) by blast
  then have "\<forall>v. CHR '';'' \<in> set v \<longrightarrow> \<not> sublist v s"
    by (auto simp: sublist_def)
  with c(3,4) ne semi strip_first [OF ne] show "s \<noteq> [] \<and> \<not> is_space (hd s) \<and> \<not> is_space (last s) \<and>
    CHR '';'' \<notin> set s \<and> (\<forall>v. CHR '';'' \<in> set v \<longrightarrow> \<not> sublist v s) \<and>
    (\<not> cache_httpfs_enabled env \<longrightarrow> \<not> contains (lower s) ''cache_httpfs'')"
    by simp
qed

lemma rstrip_append:
  assumes "p \<noteq> []" and "\<not> is_space (last p)"
  shows "rstrip (p @ s) = p @ rstrip s"
proof -
  obtain q c where "p = q @ [c]" "\<not> is_space c"
    using assms by (cases p rule: rev_cases) auto
  then show ?thesis
    by (auto simp: rstrip_def dropWhile_append dropWhile_eq_Nil_conv)
qed

text \<open>Comments are not comments to the splitter. When a comment line has a semicolon, the text
  after it is sent to the workers as a statement.\<close>

theorem comment_after_semicolon_runs:
  assumes "CHR '';'' \<notin> set (note @ tail)" and "CHR ''$'' \<notin> set (note @ tail)"
    and "\<forall>c\<in>set (note @ tail). \<not> is_line_break c"
    and "strip tail \<noteq> []" and "\<not> startswith (strip tail) ''--''" and "cache_httpfs_enabled env"
    and "path \<noteq> []" and "content_of fs (parse_path path) = Some (''-- '' @ note @ '';'' @ tail)"
  shows "load_init_scripts env fs (Some path) = Inr [strip tail]"
proof -
  let ?c = "(''-- '' @ note) @ CHR '';'' # tail"
  have lines: "splitlines_aux acc s = (if acc @ s = [] then [] else [rev acc @ s])"
    if "\<forall>c\<in>set s. \<not> is_line_break c" for acc s
    using that by (induction acc s rule: splitlines_aux.induct) auto
  have ex: "expand_init_sql env ?c = ?c"
    using expand_plain [of ?c env "[]"] assms(2) by simp
  have "split_on CHR '';'' ?c = [''-- '' @ note, tail]"
    using split_on_append [of "CHR '';''" "''-- '' @ note" tail] split_on_absent [of "CHR '';''" tail]
      assms(1) by simp
  moreover have "\<not> executable_sql (''-- '' @ note)"
  proof -
    have lb: "\<forall>c\<in>set (''-- '' @ note). \<not> is_line_break c"
      using assms(3) by (auto simp: is_line_break_def code_def Let_def)
    have "lstrip (''-- '' @ note) = ''-- '' @ note"
      by (simp add: lstrip_def is_space_def code_def Let_def)
    then have "strip (''-- '' @ note) = rstrip (''-- '' @ note)"
      by (simp add: strip_def)
    moreover have "rstrip (''--'' @ '' '' @ note) = ''--'' @ rstrip ('' '' @ note)"
      by (rule rstrip_append) (simp_all add: is_space_def code_def Let_def)
    ultimately show ?thesis
      using lines [OF lb, of "[]"] by (auto simp: executable_sql_def splitlines_def)
  qed
  moreover have "executable_sql tail"
  proof -
    have "tail \<noteq> []" using assms(4) by (auto simp: strip_def lstrip_def rstrip_def)
    then show ?thesis
      using lines [of tail "[]"] assms(3-5) by (simp add: executable_sql_def splitlines_def)
  qed
  ultimately show ?thesis
    using assms(6-8) ex
    by (simp add: load_init_scripts_def resolve_init_scripts_path_def Let_def)
qed

definition sample_fs :: "string \<Rightarrow> file_system" where
  "sample_fs content = \<lparr>is_file = (\<lambda>_. False), resolve = (\<lambda>s. s), content_of = (\<lambda>_. Some content)\<rparr>"

theorem init_statements_clean_witness:
  "\<exists>ss. load_init_scripts sample_env (sample_fs ''SET k=${KEY};'') (Some ''init.sql'') = Inr ss \<and>
    \<not> list_ex (sublist ''a;b'') ss"
proof -
  obtain ss where ss: "load_init_scripts sample_env (sample_fs ''SET k=${KEY};'') (Some ''init.sql'') = Inr ss"
    by (simp add: load_init_scripts_def resolve_init_scripts_path_def sample_fs_def Let_def)
  have "\<not> list_ex (sublist ''a;b'') ss"
    using init_statements_clean [OF ss] by (force simp: list_ex_iff)
  with ss show ?thesis by blast
qed

theorem comment_after_semicolon_runs_witness:
  "load_init_scripts Map.empty (sample_fs ''-- old; DROP TABLE t'') (Some ''init.sql'') =
    Inr [''DROP TABLE t'']"
proof -
  have "strip '' DROP TABLE t'' = ''DROP TABLE t''"
    by (simp add: strip_def lstrip_def rstrip_def is_space_def code_def)
  with comment_after_semicolon_runs [of "''old''" "'' DROP TABLE t''" Map.empty "''init.sql''"
      "sample_fs ''-- old; DROP TABLE t''"] show ?thesis
    by (simp add: sample_fs_def is_line_break_def code_def cache_httpfs_enabled_def lower_def
        lower_char_def)
qed

end
