(* ===== verification/Event_Bus.thy ===== *)
theory Event_Bus
  imports Machine
begin

text \<open>
  What the event streams rely on in a hub: subscribing gives a new empty queue that listens to a
  topic, publishing appends a message to the queues that listen to its topic and to no other, and
  unsubscribing stops one queue. The lemma proved here says what a queue holds after any sequence
  of such operations by others.
\<close>

datatype ('k, 'm) bus_op = Subscribe 'k | Unsubscribe 'k nat | Publish 'm

fun bus_step ::
  "('k \<Rightarrow> 's \<Rightarrow> 's \<times> nat) \<Rightarrow> ('k \<Rightarrow> nat \<Rightarrow> 's \<Rightarrow> 's) \<Rightarrow> ('m \<Rightarrow> 's \<Rightarrow> 's)
    \<Rightarrow> ('k, 'm) bus_op \<Rightarrow> 's \<Rightarrow> 's" where
  "bus_step sub unsub pub (Subscribe k) s = fst (sub k s)"
| "bus_step sub unsub pub (Unsubscribe k q) s = unsub k q s"
| "bus_step sub unsub pub (Publish m) s = pub m s"

fun published :: "('k, 'm) bus_op list \<Rightarrow> 'm list" where
  "published [] = []"
| "published (Publish m # ops) = m # published ops"
| "published (op # ops) = published ops"

locale event_bus =
  fixes inv :: "'s \<Rightarrow> bool"
    and sub :: "'k \<Rightarrow> 's \<Rightarrow> 's \<times> nat"
    and unsub :: "'k \<Rightarrow> nat \<Rightarrow> 's \<Rightarrow> 's"
    and pub :: "'m \<Rightarrow> 's \<Rightarrow> 's"
    and topic :: "'m \<Rightarrow> 'k option"
    and listening :: "'k \<Rightarrow> nat \<Rightarrow> 's \<Rightarrow> bool"
    and queue_of :: "nat \<Rightarrow> 's \<Rightarrow> 'm list"
  assumes bus_inv: "inv s \<Longrightarrow> inv (bus_step sub unsub pub op s)"
    and sub_new: "inv s \<Longrightarrow> sub k s = (s', q) \<Longrightarrow>
      listening k q s' \<and> queue_of q s' = [] \<and> (\<forall>i. \<not> listening i q s)"
    and sub_others: "inv s \<Longrightarrow> listening i q s \<Longrightarrow>
      listening i q (fst (sub k s)) \<and> queue_of q (fst (sub k s)) = queue_of q s"
    and unsub_stops: "inv s \<Longrightarrow> \<not> listening k q (unsub k q s)"
    and unsub_others: "inv s \<Longrightarrow> listening i q s \<Longrightarrow> (k, j) \<noteq> (i, q) \<Longrightarrow>
      listening i q (unsub k j s) \<and> queue_of q (unsub k j s) = queue_of q s"
    and pub_listening: "listening i q (pub m s) \<longleftrightarrow> listening i q s"
    and pub_queue: "inv s \<Longrightarrow> listening i q s \<Longrightarrow>
      queue_of q (pub m s) = queue_of q s @ (if topic m = Some i then [m] else [])"
begin

lemma queue_after:
  assumes "inv s" and "listening k q s" and "Unsubscribe k q \<notin> set ops"
  shows "listening k q (run_steps (bus_step sub unsub pub) ops s) \<and>
    queue_of q (run_steps (bus_step sub unsub pub) ops s) =
      queue_of q s @ filter (\<lambda>m. topic m = Some k) (published ops)"
  using assms
proof (induction ops arbitrary: s)
  case Nil
  then show ?case by simp
next
  case (Cons op ops)
  let ?s = "bus_step sub unsub pub op s"
  have inv: "inv ?s" by (rule bus_inv) (rule Cons.prems(1))
  have "listening k q ?s \<and> queue_of q ?s =
      queue_of q s @ filter (\<lambda>m. topic m = Some k) (published [op])"
  proof (cases op)
    case (Subscribe j)
    then show ?thesis using sub_others [OF Cons.prems(1,2)] by simp
  next
    case (Unsubscribe j i)
    with Cons.prems(3) have "(j, i) \<noteq> (k, q)" by auto
    with Unsubscribe show ?thesis using unsub_others [OF Cons.prems(1,2)] by simp
  next
    case (Publish m)
    then show ?thesis
      using pub_queue [OF Cons.prems(1,2)] pub_listening Cons.prems(2) by simp
  qed
  then show ?case
    using Cons.IH [OF inv] Cons.prems(3) by (cases op) simp_all
qed

text \<open>From the subscription on: exactly the messages of the topic, in the order of publication.\<close>

lemma subscriber_receives:
  assumes "inv s" and "sub k s = (s', q)" and "Unsubscribe k q \<notin> set ops"
  shows "queue_of q (run_steps (bus_step sub unsub pub) ops s') =
    filter (\<lambda>m. topic m = Some k) (published ops)"
proof -
  have "inv s'" using bus_inv [OF assms(1), of "Subscribe k"] assms(2) by simp
  then show ?thesis
    using queue_after [of s' k q ops] sub_new [OF assms(1,2)] assms(3) by simp
qed

end

end
