(* ===== verification/Query_Store.thy ===== *)
theory Query_Store
  imports Schema
begin

text \<open>
  \<^verbatim>\<open>ducklauncher/db/queries.py\<close> and \<^verbatim>\<open>ducklauncher/db/notify.py\<close>: every operation on the tables
  \<^verbatim>\<open>workers\<close> and \<^verbatim>\<open>queries\<close>. An operation takes what the surroundings supply (the server's clock
  \<open>now\<close>, the coordinator's clock \<open>utc\<close>, a fresh uuid) before the parameters of the Python function,
  then the database, and returns the new database with the function's result. An operation that
  notifies can fail in the notification: its result is a sum. Statements outside a transaction
  stay committed when a later one fails; a transaction that fails leaves the database as it was.
\<close>

section \<open>Notifications\<close>

definition notify_payload ::
  "uuid \<Rightarrow> string \<Rightarrow> string option \<Rightarrow> int option \<Rightarrow> json_obj" where
  "notify_payload qid status error result_row_count =
     [(''query_id'', JStr (str_uuid qid)), (''status'', JStr status)] @
     (case error of None \<Rightarrow> [] | Some e \<Rightarrow> [(''error'', JStr e)]) @
     (case result_row_count of None \<Rightarrow> [] | Some n \<Rightarrow> [(''result_row_count'', JInt n)])"

definition notify_query_status ::
  "uuid \<Rightarrow> string \<Rightarrow> string option \<Rightarrow> int option \<Rightarrow> database \<Rightarrow> sql_error + database" where
  "notify_query_status qid status error result_row_count d =
     (let text = json_dumps (notify_payload qid status error result_row_count)
      in if length text < payload_limit d then Inr (d\<lparr>channel := channel d @ [text]\<rparr>)
         else Inl NotifyPayloadTooLong)"

text \<open>The loop over the rows an \<^verbatim>\<open>UPDATE\<close> put back to pending.\<close>

fun notify_reverted :: "query_row list \<Rightarrow> database \<Rightarrow> sql_error + database" where
  "notify_reverted [] d = Inr d"
| "notify_reverted (r # rs) d =
     (case notify_query_status (q_id r) ''pending'' (q_error r) None d of
        Inl e \<Rightarrow> Inl e
      | Inr d' \<Rightarrow> notify_reverted rs d')"

section \<open>Row updates\<close>

text \<open>The \<^verbatim>\<open>SET\<close> clauses on the table \<^verbatim>\<open>queries\<close>: a query taken from a lost worker, one a worker
  refused, one assigned to a worker, one completed, one cancelled.\<close>

definition lost_row :: "query_row \<Rightarrow> query_row" where
  "lost_row q = q\<lparr>q_status := ''pending'', q_worker_id := None, q_started_at := None,
     q_error := Some ''Worker became unreachable''\<rparr>"

definition requeued_row :: "query_row \<Rightarrow> query_row" where
  "requeued_row q = q\<lparr>q_status := ''pending'', q_worker_id := None, q_started_at := None\<rparr>"

definition assigned_row :: "timestamp \<Rightarrow> uuid \<Rightarrow> query_row \<Rightarrow> query_row" where
  "assigned_row now worker_id q =
     q\<lparr>q_status := ''running'', q_worker_id := Some worker_id, q_started_at := Some now\<rparr>"

definition completed_row ::
  "timestamp \<Rightarrow> string \<Rightarrow> string option \<Rightarrow> int option \<Rightarrow> query_row \<Rightarrow> query_row" where
  "completed_row now status error result_row_count q =
     q\<lparr>q_status := status, q_error := coalesce_opt error (q_error q),
       q_result_row_count := coalesce_opt result_row_count (q_result_row_count q),
       q_completed_at := coalesce_opt (q_completed_at q) (Some now)\<rparr>"

definition cancelled_row :: "timestamp \<Rightarrow> string option \<Rightarrow> query_row \<Rightarrow> query_row" where
  "cancelled_row now error q =
     q\<lparr>q_status := ''cancelled'', q_error := coalesce_opt error (q_error q),
       q_completed_at := Some now\<rparr>"

lemmas row_update_defs = lost_row_def requeued_row_def assigned_row_def completed_row_def
  cancelled_row_def

section \<open>Workers\<close>

definition register_worker ::
  "uuid \<Rightarrow> timestamp \<Rightarrow> uuid option \<Rightarrow> string \<Rightarrow> int \<Rightarrow> int \<Rightarrow> int \<Rightarrow> int \<Rightarrow> database
    \<Rightarrow> database \<times> uuid" where
  "register_worker fresh now worker_id endpoint cpus memory disk_space max_queries d =
     (let resolved = (case worker_id of Some w \<Rightarrow> w | None \<Rightarrow> fresh)
      in if resolved \<in> w_id ` set (workers d)
         then (d\<lparr>workers := sql_update (\<lambda>w. w_id w = resolved)
                 (\<lambda>w. w\<lparr>w_endpoint := endpoint, w_status := ''initializing'', w_cpus := cpus,
                    w_memory := memory, w_disk_space := disk_space,
                    w_max_concurrent_queries := max_queries, w_last_heartbeat_at := now\<rparr>)
                 (workers d)\<rparr>, resolved)
         else (d\<lparr>workers := workers d @
                 [\<lparr>w_id = resolved, w_endpoint = endpoint, w_status = ''initializing'',
                   w_cpus = cpus, w_memory = memory, w_disk_space = disk_space,
                   w_max_concurrent_queries = max_queries, w_memory_used_mb = None,
                   w_cpu_usage = None, w_started_at = now, w_last_heartbeat_at = now\<rparr>]\<rparr>, resolved))"

definition heartbeat_worker ::
  "timestamp \<Rightarrow> uuid \<Rightarrow> int option \<Rightarrow> int option \<Rightarrow> int option \<Rightarrow> string option \<Rightarrow> int option
    \<Rightarrow> real option \<Rightarrow> database \<Rightarrow> database \<times> bool" where
  "heartbeat_worker now worker_id cpus memory disk_space status memory_used_mb cpu_usage d =
     (let cond = (\<lambda>w. w_id w = worker_id)
      in (d\<lparr>workers := sql_update cond
             (\<lambda>w. w\<lparr>w_last_heartbeat_at := now,
                w_cpus := coalesce cpus (w_cpus w),
                w_memory := coalesce memory (w_memory w),
                w_disk_space := coalesce disk_space (w_disk_space w),
                w_status := coalesce status (w_status w),
                w_memory_used_mb := coalesce_opt memory_used_mb (w_memory_used_mb w),
                w_cpu_usage := coalesce_opt cpu_usage (w_cpu_usage w)\<rparr>)
             (workers d)\<rparr>,
          affected_one ''UPDATE'' (count_where cond (workers d))))"

definition ready_worker :: "timestamp \<Rightarrow> uuid \<Rightarrow> database \<Rightarrow> database \<times> bool" where
  "ready_worker now worker_id d =
     (let cond = (\<lambda>w. w_id w = worker_id \<and> w_status w = ''initializing'')
      in (d\<lparr>workers := sql_update cond
             (\<lambda>w. w\<lparr>w_status := ''running'', w_last_heartbeat_at := now\<rparr>) (workers d)\<rparr>,
          affected_one ''UPDATE'' (count_where cond (workers d))))"

definition shutdown_worker :: "timestamp \<Rightarrow> uuid \<Rightarrow> database \<Rightarrow> database \<times> bool" where
  "shutdown_worker now worker_id d =
     (let cond = (\<lambda>w. w_id w = worker_id \<and> w_status w = ''running'')
      in (d\<lparr>workers := sql_update cond
             (\<lambda>w. w\<lparr>w_status := ''shutting_down'', w_last_heartbeat_at := now\<rparr>) (workers d)\<rparr>,
          affected_one ''UPDATE'' (count_where cond (workers d))))"

text \<open>The rows of \<^verbatim>\<open>workers LEFT JOIN queries ... GROUP BY w.worker_id\<close>, each with its number of
  running queries.\<close>

definition list_workers :: "database \<Rightarrow> (worker_row \<times> nat) list" where
  "list_workers d =
     order_by (\<lambda>(w, n). w_started_at w)
       (map (\<lambda>w. (w, count_where (\<lambda>q. q_worker_id q = Some (w_id w) \<and> q_status q = ''running'')
                       (queries d)))
          (filter (\<lambda>w. w_status w \<in> {''running'', ''shutting_down'', ''unreachable'', ''initializing''})
             (workers d)))"

definition get_running_worker :: "database \<Rightarrow> (uuid \<times> string) option" where
  "get_running_worker d =
     map_option (\<lambda>w. (w_id w, w_endpoint w))
       (fetchrow (order_by (\<lambda>w. - w_last_heartbeat_at w)
          (filter (\<lambda>w. w_status w = ''running'') (workers d))))"

definition mark_worker_unreachable :: "uuid \<Rightarrow> database \<Rightarrow> database \<times> (sql_error + unit)" where
  "mark_worker_unreachable worker_id d =
     (let wcond = (\<lambda>w. w_id w = worker_id \<and> w_status w \<in> {''running'', ''shutting_down''});
          qcond = (\<lambda>q. q_worker_id q = Some worker_id \<and> q_status q = ''running'');
          d1 = d\<lparr>workers := sql_update wcond (\<lambda>w. w\<lparr>w_status := ''unreachable''\<rparr>) (workers d)\<rparr>
      in if \<not> affected_one ''UPDATE'' (count_where wcond (workers d)) then (d1, Inr ())
         else (case notify_reverted (returning qcond lost_row (queries d))
                      (d1\<lparr>queries := sql_update qcond lost_row (queries d1)\<rparr>) of
                 Inl e \<Rightarrow> (d, Inl e)
               | Inr d2 \<Rightarrow> (d2, Inr ())))"

text \<open>The \<^verbatim>\<open>WHERE\<close> clause that selects the workers to stop.\<close>

definition is_stale :: "timestamp \<Rightarrow> worker_row \<Rightarrow> bool" where
  "is_stale stale_cutoff w \<longleftrightarrow>
     w_status w \<in> {''running'', ''shutting_down'', ''unreachable''} \<and>
     w_last_heartbeat_at w < stale_cutoff"

definition sweep_stale_workers ::
  "timestamp \<Rightarrow> int \<Rightarrow> database \<Rightarrow> database \<times> (sql_error + unit)" where
  "sweep_stale_workers utc worker_stale_sec d =
     (let stale_cutoff = utc - worker_stale_sec * second;
          stop = (\<lambda>w. w\<lparr>w_status := ''stopped''\<rparr>);
          stale_workers = returning (is_stale stale_cutoff) stop (workers d);
          worker_ids = map w_id stale_workers;
          qcond = (\<lambda>q. q_worker_id q \<in> Some ` set worker_ids \<and> q_status q = ''running'');
          d1 = d\<lparr>workers := sql_update (is_stale stale_cutoff) stop (workers d)\<rparr>
      in if stale_workers = [] then (d1, Inr ())
         else (case notify_reverted (returning qcond lost_row (queries d))
                      (d1\<lparr>queries := sql_update qcond lost_row (queries d1)\<rparr>) of
                 Inl e \<Rightarrow> (d, Inl e)
               | Inr d2 \<Rightarrow> (d2, Inr ())))"

section \<open>Queries\<close>

definition create_query ::
  "uuid \<Rightarrow> timestamp \<Rightarrow> string \<Rightarrow> int option \<Rightarrow> int option \<Rightarrow> int option \<Rightarrow> uuid option \<Rightarrow> database
    \<Rightarrow> database \<times> (sql_error + uuid)" where
  "create_query fresh now query cpus memory disk_space user_id d =
     (let row = \<lparr>q_id = fresh, q_worker_id = None, q_user_id = user_id, q_status = ''pending'',
            q_query = query, q_error = None, q_cpus = cpus, q_memory = memory,
            q_disk_space = disk_space, q_created_at = now, q_started_at = None,
            q_completed_at = None, q_result_row_count = None\<rparr>
      in if \<exists>u. user_id = Some u \<and> u \<notin> u_id ` set (users d) then (d, Inl ForeignKeyViolation)
         else (case sql_insert q_id row (queries d) of
                 Inl e \<Rightarrow> (d, Inl e)
               | Inr qs \<Rightarrow> (d\<lparr>queries := qs\<rparr>, Inr fresh)))"

definition list_queries_for_user ::
  "uuid \<Rightarrow> int \<Rightarrow> int \<Rightarrow> database \<Rightarrow> sql_error + query_row list" where
  "list_queries_for_user user_id n off d =
     limit_offset n off
       (order_by (\<lambda>q. - q_created_at q) (filter (\<lambda>q. q_user_id q = Some user_id) (queries d)))"

definition get_query :: "uuid \<Rightarrow> database \<Rightarrow> query_row option" where
  "get_query query_id d = fetchrow (filter (\<lambda>q. q_id q = query_id) (queries d))"

definition complete_query ::
  "timestamp \<Rightarrow> uuid \<Rightarrow> string \<Rightarrow> string option \<Rightarrow> int option \<Rightarrow> database
    \<Rightarrow> database \<times> (sql_error + bool)" where
  "complete_query now query_id status error result_row_count d =
     (let cond = (\<lambda>q. q_id q = query_id \<and> q_status q \<in> {''running'', ''pending''});
          d1 = d\<lparr>queries := sql_update cond (completed_row now status error result_row_count)
                  (queries d)\<rparr>;
          announce = (\<lambda>d'. case notify_query_status query_id status error result_row_count d' of
                          Inl e \<Rightarrow> (d', Inl e)
                        | Inr d'' \<Rightarrow> (d'', Inr True))
      in if affected_one ''UPDATE'' (count_where cond (queries d)) then announce d1
         else (let existing = map_option q_status
                      (fetchrow (filter (\<lambda>q. q_id q = query_id) (queries d1)))
               in if existing = Some status then announce d1 else (d1, Inr False)))"

definition mark_query_cancelled ::
  "timestamp \<Rightarrow> uuid \<Rightarrow> string option \<Rightarrow> database \<Rightarrow> database \<times> (sql_error + query_row option)" where
  "mark_query_cancelled now query_id error d =
     (let cond = (\<lambda>q. q_id q = query_id \<and> q_status q \<in> {''pending'', ''running''});
          row = fetchrow (returning cond (cancelled_row now error) (queries d));
          d1 = d\<lparr>queries := sql_update cond (cancelled_row now error) (queries d)\<rparr>
      in case row of
           None \<Rightarrow> (d1, Inr None)
         | Some r \<Rightarrow> (case notify_query_status query_id ''cancelled'' (q_error r) None d1 of
                        Inl e \<Rightarrow> (d1, Inl e)
                      | Inr d2 \<Rightarrow> (d2, Inr (Some r))))"

definition revert_query_to_pending :: "uuid \<Rightarrow> database \<Rightarrow> database \<times> (sql_error + unit)" where
  "revert_query_to_pending query_id d =
     (let cond = (\<lambda>q. q_id q = query_id \<and> q_status q = ''running'');
          d1 = d\<lparr>queries := sql_update cond requeued_row (queries d)\<rparr>
      in if affected_one ''UPDATE'' (count_where cond (queries d))
         then (case notify_query_status query_id ''pending'' None None d1 of
                 Inl e \<Rightarrow> (d1, Inl e)
               | Inr d2 \<Rightarrow> (d2, Inr ()))
         else (d1, Inr ()))"

section \<open>Assigning queries to workers\<close>

text \<open>The group \<^verbatim>\<open>worker_load\<close> of one worker: its running queries. A sum skips nulls, and no group
  is a load of zero.\<close>

definition load_rows :: "uuid \<Rightarrow> database \<Rightarrow> query_row list" where
  "load_rows w d = filter (\<lambda>q. q_status q = ''running'' \<and> q_worker_id q = Some w) (queries d)"

definition load_queries :: "uuid \<Rightarrow> database \<Rightarrow> int" where
  "load_queries w d = int (length (load_rows w d))"

definition load_sum :: "(query_row \<Rightarrow> int option) \<Rightarrow> uuid \<Rightarrow> database \<Rightarrow> int" where
  "load_sum col w d = (\<Sum>q\<leftarrow>load_rows w d. coalesce (col q) 0)"

definition fits_in :: "int option \<Rightarrow> int \<Rightarrow> int \<Rightarrow> bool" where
  "fits_in requested load capacity =
     (case requested of None \<Rightarrow> True | Some r \<Rightarrow> load + r \<le> capacity)"

definition worker_fits ::
  "timestamp \<Rightarrow> int option \<Rightarrow> int option \<Rightarrow> int option \<Rightarrow> database \<Rightarrow> worker_row \<Rightarrow> bool" where
  "worker_fits cutoff cpus memory disk_space d w \<longleftrightarrow>
     w_status w = ''running'' \<and> cutoff \<le> w_last_heartbeat_at w \<and>
     fits_in cpus (load_sum q_cpus (w_id w) d) (w_cpus w) \<and>
     fits_in memory (load_sum q_memory (w_id w) d) (w_memory w) \<and>
     fits_in disk_space (load_sum q_disk_space (w_id w) d) (w_disk_space w) \<and>
     load_queries (w_id w) d + 1 \<le> w_max_concurrent_queries w"

definition worker_for_query ::
  "timestamp \<Rightarrow> int option \<Rightarrow> int option \<Rightarrow> int option \<Rightarrow> database \<Rightarrow> worker_row option" where
  "worker_for_query cutoff cpus memory disk_space d =
     fetchrow (order_by (\<lambda>w. (load_queries (w_id w) d, - w_last_heartbeat_at w))
       (filter (worker_fits cutoff cpus memory disk_space d) (workers d)))"

text \<open>The row \<^verbatim>\<open>_claim_query\<close> returns: what is dispatched, and to whom.\<close>

record claimed_row =
  c_query_id :: uuid
  c_query :: string
  c_cpus :: "int option"
  c_memory :: "int option"
  c_disk_space :: "int option"
  c_worker_id :: uuid
  c_endpoint :: string

definition claimed_join :: "uuid \<Rightarrow> database \<Rightarrow> claimed_row option" where
  "claimed_join query_id d =
     fetchrow (concat (map (\<lambda>q. map (\<lambda>w.
         \<lparr>c_query_id = q_id q, c_query = q_query q, c_cpus = q_cpus q, c_memory = q_memory q,
           c_disk_space = q_disk_space q, c_worker_id = w_id w, c_endpoint = w_endpoint w\<rparr>)
         (filter (\<lambda>w. Some (w_id w) = q_worker_id q) (workers d)))
       (filter (\<lambda>q. q_id q = query_id) (queries d))))"

definition claim_query ::
  "timestamp \<Rightarrow> query_row \<Rightarrow> timestamp \<Rightarrow> database
    \<Rightarrow> sql_error + database \<times> claimed_row option" where
  "claim_query now pending stale_cutoff d =
     (case worker_for_query stale_cutoff (q_cpus pending) (q_memory pending)
             (q_disk_space pending) d of
        None \<Rightarrow> Inr (d, None)
      | Some worker \<Rightarrow>
          (let d1 = d\<lparr>queries := sql_update (\<lambda>q. q_id q = q_id pending)
                  (assigned_row now (w_id worker)) (queries d)\<rparr>
           in case notify_query_status (q_id pending) ''running'' None None d1 of
                Inl e \<Rightarrow> Inl e
              | Inr d2 \<Rightarrow> Inr (d2, claimed_join (q_id pending) d2)))"

definition in_transaction ::
  "database \<Rightarrow> sql_error + database \<times> 'a \<Rightarrow> database \<times> (sql_error + 'a)" where
  "in_transaction d r = (case r of Inl e \<Rightarrow> (d, Inl e) | Inr (d', a) \<Rightarrow> (d', Inr a))"

definition claim_pending_query ::
  "timestamp \<Rightarrow> timestamp \<Rightarrow> int \<Rightarrow> database
    \<Rightarrow> database \<times> (sql_error + claimed_row option)" where
  "claim_pending_query utc now worker_stale_sec d =
     (let stale_cutoff = utc - worker_stale_sec * second
      in in_transaction d
           (case fetchrow (order_by q_created_at (filter (\<lambda>q. q_status q = ''pending'') (queries d))) of
              None \<Rightarrow> Inr (d, None)
            | Some pending \<Rightarrow> claim_query now pending stale_cutoff d))"

definition claim_query_by_id ::
  "timestamp \<Rightarrow> timestamp \<Rightarrow> uuid \<Rightarrow> int \<Rightarrow> database
    \<Rightarrow> database \<times> (sql_error + claimed_row option)" where
  "claim_query_by_id utc now query_id worker_stale_sec d =
     (let stale_cutoff = utc - worker_stale_sec * second
      in in_transaction d
           (case fetchrow (filter (\<lambda>q. q_id q = query_id \<and> q_status q = ''pending'') (queries d)) of
              None \<Rightarrow> Inr (d, None)
            | Some pending \<Rightarrow> claim_query now pending stale_cutoff d))"

end
