(* ===== verification/Store_Effects.thy ===== *)
theory Store_Effects
  imports Query_Store
begin

text \<open>
  What each operation of \<^verbatim>\<open>db/queries.py\<close> does to each part of the database: to the rows of the
  table \<^verbatim>\<open>queries\<close> (always one row-wise update), to the table \<^verbatim>\<open>workers\<close>, to the channel (texts
  are only added at its end), and which parts it leaves alone. The invariants and the
  life-cycle theorems of the later theories rest on these lemmas, not on the definitions.
\<close>

section \<open>Row updates keep what identifies a query\<close>

lemma row_update_id [simp]:
  "q_id (lost_row q) = q_id q" "q_id (requeued_row q) = q_id q"
  "q_id (assigned_row now w q) = q_id q" "q_id (completed_row now st e n q) = q_id q"
  "q_id (cancelled_row now e q) = q_id q"
  by (simp_all add: row_update_defs)

lemma row_update_request [simp]:
  "q_query (lost_row q) = q_query q" "q_query (requeued_row q) = q_query q"
  "q_query (assigned_row now w q) = q_query q" "q_query (completed_row now st e n q) = q_query q"
  "q_query (cancelled_row now e q) = q_query q"
  "q_user_id (lost_row q) = q_user_id q" "q_user_id (requeued_row q) = q_user_id q"
  "q_user_id (assigned_row now w q) = q_user_id q"
  "q_user_id (completed_row now st e n q) = q_user_id q"
  "q_user_id (cancelled_row now e q) = q_user_id q"
  by (simp_all add: row_update_defs)

lemma row_update_status [simp]:
  "q_status (lost_row q) = ''pending''" "q_status (requeued_row q) = ''pending''"
  "q_status (assigned_row now w q) = ''running''" "q_status (completed_row now st e n q) = st"
  "q_status (cancelled_row now e q) = ''cancelled''"
  by (simp_all add: row_update_defs)

lemma row_update_worker [simp]:
  "q_worker_id (lost_row q) = None" "q_worker_id (requeued_row q) = None"
  "q_worker_id (assigned_row now w q) = Some w"
  "q_worker_id (completed_row now st e n q) = q_worker_id q"
  "q_worker_id (cancelled_row now e q) = q_worker_id q"
  by (simp_all add: row_update_defs)

lemma row_update_times [simp]:
  "q_started_at (lost_row q) = None" "q_started_at (requeued_row q) = None"
  "q_started_at (assigned_row now w q) = Some now"
  "q_started_at (completed_row now st e n q) = q_started_at q"
  "q_started_at (cancelled_row now e q) = q_started_at q"
  "q_completed_at (lost_row q) = q_completed_at q"
  "q_completed_at (requeued_row q) = q_completed_at q"
  "q_completed_at (assigned_row now w q) = q_completed_at q"
  "q_completed_at (completed_row now st e n q) = coalesce_opt (q_completed_at q) (Some now)"
  "q_completed_at (cancelled_row now e q) = Some now"
  by (simp_all add: row_update_defs)

lemma assigned_row_requests [simp]:
  "q_cpus (assigned_row now w q) = q_cpus q" "q_memory (assigned_row now w q) = q_memory q"
  "q_disk_space (assigned_row now w q) = q_disk_space q"
  by (simp_all add: assigned_row_def)

section \<open>Notifications\<close>

text \<open>A notification appends one text and touches nothing else.\<close>

lemma notify_query_status_Inr:
  "notify_query_status qid st e n d = Inr d' \<Longrightarrow>
    d' = d\<lparr>channel := channel d @ [json_dumps (notify_payload qid st e n)]\<rparr>"
  by (auto simp: notify_query_status_def Let_def split: if_splits)

lemma notify_reverted_Inr:
  "notify_reverted rs d = Inr d' \<Longrightarrow>
    d' = d\<lparr>channel := channel d @
      map (\<lambda>r. json_dumps (notify_payload (q_id r) ''pending'' (q_error r) None)) rs\<rparr>"
proof (induction rs arbitrary: d)
  case Nil
  then show ?case by simp
next
  case (Cons r rs)
  then obtain d1 where d1: "notify_query_status (q_id r) ''pending'' (q_error r) None d = Inr d1"
    and rest: "notify_reverted rs d1 = Inr d'"
    by (auto split: sum.splits)
  show ?case
    using Cons.IH [OF rest] notify_query_status_Inr [OF d1] by simp
qed

lemma length_str_uuid [simp]: "length (str_uuid u) = 36"
  by (simp add: str_uuid_def Let_def)

lemma escape_char_plain:
  assumes "32 \<le> code c" "code c \<le> 126" "code c \<noteq> 34" "code c \<noteq> 92"
  shows "escape_char c = [c]"
proof -
  have "c \<notin> {CHR 0x22, CHR 0x5C, CHR 0x0A, CHR 0x0D, CHR 0x09, CHR 0x0C, CHR 0x08}"
  proof
    assume "c \<in> {CHR 0x22, CHR 0x5C, CHR 0x0A, CHR 0x0D, CHR 0x09, CHR 0x0C, CHR 0x08}"
    then have "code c \<in> {34, 92, 10, 13, 9, 12, 8}"
      by (auto simp: code_def)
    with assms show False by auto
  qed
  with assms show ?thesis
    by (simp add: escape_char_def)
qed

lemma dump_str_uuid: "dump_string (str_uuid u) = CHR 0x22 # str_uuid u @ [CHR 0x22]"
proof -
  have "escape_char c = [c]" if c: "c \<in> set (str_uuid u)" for c
  proof (rule escape_char_plain)
    have "(48 \<le> code c \<and> code c \<le> 57) \<or> (97 \<le> code c \<and> code c \<le> 102) \<or> code c = 45"
      using set_str_uuid [OF c] is_hex_digit_code [of c] by (auto simp: code_def)
    then show "32 \<le> code c" "code c \<le> 126" "code c \<noteq> 34" "code c \<noteq> 92"
      by auto
  qed
  then have eq: "map escape_char (str_uuid u) = map (\<lambda>c. [c]) (str_uuid u)"
    by simp
  show ?thesis
    unfolding dump_string_def eq by simp
qed

text \<open>The notifications whose texts the code fixes are at most 129 characters long, so a server
  with any reasonable limit accepts them: the transactions that send them do not fail.\<close>

lemma fixed_payload_length:
  assumes "st = ''pending'' \<or> st = ''running''"
    and "e = None \<or> e = Some ''Worker became unreachable''"
  shows "length (json_dumps (notify_payload qid st e None)) < 130"
  using assms
  by (auto simp: notify_payload_def json_dumps_def dump_str_uuid)
     (simp_all add: dump_string_def escape_char_def code_def)

lemma notify_fixed_succeeds:
  assumes "130 \<le> payload_limit d" and "st = ''pending'' \<or> st = ''running''"
    and "e = None \<or> e = Some ''Worker became unreachable''"
  shows "notify_query_status qid st e None d =
    Inr (d\<lparr>channel := channel d @ [json_dumps (notify_payload qid st e None)]\<rparr>)"
  using fixed_payload_length [OF assms(2,3), of qid] assms(1)
  by (simp add: notify_query_status_def Let_def)

lemma notify_reverted_succeeds:
  assumes "130 \<le> payload_limit d"
    and "\<forall>r\<in>set rs. q_error r = Some ''Worker became unreachable''"
  shows "\<exists>d'. notify_reverted rs d = Inr d'"
  using assms
proof (induction rs arbitrary: d)
  case Nil
  then show ?case by simp
next
  case (Cons r rs)
  then show ?case
    using notify_fixed_succeeds [of d "''pending''" "q_error r" "q_id r"] by simp
qed

section \<open>Effects on the table of queries\<close>

lemma queries_register [simp]:
  "queries (fst (register_worker fr now wid ep c m ds mx d)) = queries d"
  by (simp add: register_worker_def Let_def)

lemma queries_heartbeat [simp]:
  "queries (fst (heartbeat_worker now wid c m ds st mu cu d)) = queries d"
  by (simp add: heartbeat_worker_def Let_def)

lemma queries_ready [simp]: "queries (fst (ready_worker now wid d)) = queries d"
  by (simp add: ready_worker_def Let_def)

lemma queries_shutdown [simp]: "queries (fst (shutdown_worker now wid d)) = queries d"
  by (simp add: shutdown_worker_def Let_def)

lemma queries_complete:
  "queries (fst (complete_query now qid st e n d)) =
    sql_update (\<lambda>q. q_id q = qid \<and> q_status q \<in> {''running'', ''pending''})
      (completed_row now st e n) (queries d)"
  by (auto simp: complete_query_def Let_def dest!: notify_query_status_Inr split: sum.splits)

lemma queries_cancelled:
  "queries (fst (mark_query_cancelled now qid e d)) =
    sql_update (\<lambda>q. q_id q = qid \<and> q_status q \<in> {''pending'', ''running''})
      (cancelled_row now e) (queries d)"
  by (auto simp: mark_query_cancelled_def Let_def dest!: notify_query_status_Inr
      split: sum.splits option.splits)

lemma queries_revert:
  "queries (fst (revert_query_to_pending qid d)) =
    sql_update (\<lambda>q. q_id q = qid \<and> q_status q = ''running'') requeued_row (queries d)"
  by (auto simp: revert_query_to_pending_def Let_def dest!: notify_query_status_Inr
      split: sum.splits)

lemma queries_unreachable:
  "queries (fst (mark_worker_unreachable wid d)) = queries d \<or>
   queries (fst (mark_worker_unreachable wid d)) =
     sql_update (\<lambda>q. q_worker_id q = Some wid \<and> q_status q = ''running'') lost_row (queries d)"
  by (auto simp: mark_worker_unreachable_def Let_def dest!: notify_reverted_Inr split: sum.splits)

text \<open>The running queries a sweep at a cutoff takes from stale workers.\<close>

definition lost_in_sweep :: "timestamp \<Rightarrow> database \<Rightarrow> query_row \<Rightarrow> bool" where
  "lost_in_sweep cutoff d q \<longleftrightarrow> q_status q = ''running'' \<and>
     (\<exists>w\<in>set (workers d). is_stale cutoff w \<and> q_worker_id q = Some (w_id w))"

lemma sweep_result:
  "fst (sweep_stale_workers utc stale d) = d \<or>
   (let cutoff = utc - stale * second; d' = fst (sweep_stale_workers utc stale d) in
     d' = d\<lparr>workers := sql_update (is_stale cutoff) (\<lambda>w. w\<lparr>w_status := ''stopped''\<rparr>) (workers d),
            queries := sql_update (lost_in_sweep cutoff d) lost_row (queries d),
            channel := channel d'\<rparr> \<and>
     channel d' = channel d @ map (\<lambda>r. json_dumps (notify_payload (q_id r) ''pending'' (q_error r) None))
       (returning (lost_in_sweep cutoff d) lost_row (queries d)))"
proof -
  let ?cut = "utc - stale * second"
  let ?ids = "map w_id (returning (is_stale ?cut) (\<lambda>w. w\<lparr>w_status := ''stopped''\<rparr>) (workers d))"
  have ids: "set ?ids = w_id ` {w \<in> set (workers d). is_stale ?cut w}"
    by (force simp: returning_def)
  have cond: "(\<lambda>q. q_worker_id q \<in> Some ` set ?ids \<and> q_status q = ''running'') =
      lost_in_sweep ?cut d"
    unfolding ids lost_in_sweep_def by auto
  show ?thesis
  proof (cases "?ids = []")
    case True
    then have "\<And>w. w \<in> set (workers d) \<Longrightarrow> \<not> is_stale ?cut w"
      using ids by auto
    then have "fst (sweep_stale_workers utc stale d) = d"
      using True by (simp add: sweep_stale_workers_def Let_def update_id)
    then show ?thesis ..
  next
    case False
    then show ?thesis
      unfolding sweep_stale_workers_def Let_def cond
      by (auto dest!: notify_reverted_Inr split: sum.split)
  qed
qed

lemma queries_sweep:
  "queries (fst (sweep_stale_workers utc stale d)) = queries d \<or>
   queries (fst (sweep_stale_workers utc stale d)) =
     sql_update (lost_in_sweep (utc - stale * second) d) lost_row (queries d)"
proof -
  have "queries (fst (sweep_stale_workers utc stale d)) =
      sql_update (lost_in_sweep (utc - stale * second) d) lost_row (queries d)"
    if "fst (sweep_stale_workers utc stale d) = d\<lparr>workers := ws,
          queries := sql_update (lost_in_sweep (utc - stale * second) d) lost_row (queries d),
          channel := ch\<rparr>" for ws ch
    by (simp add: that)
  with sweep_result [of utc stale d] show ?thesis
    unfolding Let_def by (metis (no_types))
qed

lemma claim_query_Inr:
  assumes "claim_query now p cutoff d = Inr (d', c)"
  shows "(worker_for_query cutoff (q_cpus p) (q_memory p) (q_disk_space p) d = None \<and>
          d' = d \<and> c = None) \<or>
    (\<exists>w. worker_for_query cutoff (q_cpus p) (q_memory p) (q_disk_space p) d = Some w \<and>
       d' = d\<lparr>queries := sql_update (\<lambda>q. q_id q = q_id p) (assigned_row now (w_id w)) (queries d),
              channel := channel d @ [json_dumps (notify_payload (q_id p) ''running'' None None)]\<rparr> \<and>
       c = claimed_join (q_id p) d')"
  using assms
  by (auto simp: claim_query_def Let_def dest!: notify_query_status_Inr
      split: option.splits sum.splits)

text \<open>Both claims take a pending row and hand it to \<open>claim_query\<close>; they differ in the row.\<close>

lemma claim_pending_cases:
  obtains (none) "\<forall>q\<in>set (queries d). q_status q \<noteq> ''pending''"
      "claim_pending_query utc now stale d = (d, Inr None)"
  | (some) p where "p \<in> set (queries d)" "q_status p = ''pending''"
      "\<forall>q\<in>set (queries d). q_status q = ''pending'' \<longrightarrow> q_created_at p \<le> q_created_at q"
      "claim_pending_query utc now stale d =
         in_transaction d (claim_query now p (utc - stale * second) d)"
proof (cases "fetchrow (order_by q_created_at (filter (\<lambda>q. q_status q = ''pending'') (queries d)))")
  case None
  then have "filter (\<lambda>q. q_status q = ''pending'') (queries d) = []" by simp
  then show ?thesis
    using None none by (simp add: claim_pending_query_def in_transaction_def filter_empty_conv)
next
  case (Some p)
  have "p \<in> set (queries d)" "q_status p = ''pending''"
    "\<forall>q\<in>set (queries d). q_status q = ''pending'' \<longrightarrow> q_created_at p \<le> q_created_at q"
    using fetchrow_order_by [OF Some] by auto
  moreover have "claim_pending_query utc now stale d =
      in_transaction d (claim_query now p (utc - stale * second) d)"
    using Some by (simp add: claim_pending_query_def)
  ultimately show ?thesis by (rule some)
qed

lemma claim_by_id_cases:
  obtains (none) "\<forall>q\<in>set (queries d). \<not> (q_id q = qid \<and> q_status q = ''pending'')"
      "claim_query_by_id utc now qid stale d = (d, Inr None)"
  | (some) p where "p \<in> set (queries d)" "q_status p = ''pending''" "q_id p = qid"
      "claim_query_by_id utc now qid stale d =
         in_transaction d (claim_query now p (utc - stale * second) d)"
proof (cases "fetchrow (filter (\<lambda>q. q_id q = qid \<and> q_status q = ''pending'') (queries d))")
  case None
  then show ?thesis
    using none by (simp add: claim_query_by_id_def in_transaction_def filter_empty_conv)
next
  case (Some p)
  have "p \<in> set (queries d)" "q_status p = ''pending''" "q_id p = qid"
    using fetchrow_Some_set [OF Some] by auto
  moreover have "claim_query_by_id utc now qid stale d =
      in_transaction d (claim_query now p (utc - stale * second) d)"
    using Some by (simp add: claim_query_by_id_def)
  ultimately show ?thesis by (rule some)
qed

text \<open>A claim either leaves the database as it was or assigns one pending row to a worker that
  fits it.\<close>

definition assigns :: "timestamp \<Rightarrow> timestamp \<Rightarrow> database \<Rightarrow> query_row \<Rightarrow> worker_row \<Rightarrow> database \<Rightarrow> bool" where
  "assigns now cutoff d p w d' \<longleftrightarrow>
     p \<in> set (queries d) \<and> q_status p = ''pending'' \<and> w \<in> set (workers d) \<and>
     worker_fits cutoff (q_cpus p) (q_memory p) (q_disk_space p) d w \<and>
     d' = d\<lparr>queries := sql_update (\<lambda>q. q_id q = q_id p) (assigned_row now (w_id w)) (queries d),
            channel := channel d @ [json_dumps (notify_payload (q_id p) ''running'' None None)]\<rparr>"

lemma worker_for_query_fits:
  assumes "worker_for_query cutoff c m s d = Some w"
  shows "w \<in> set (workers d)" and "worker_fits cutoff c m s d w"
  using fetchrow_order_by(1) [OF assms [unfolded worker_for_query_def]] by simp_all

lemma in_transaction_claim:
  assumes "p \<in> set (queries d)" and "q_status p = ''pending''"
  shows "fst (in_transaction d (claim_query now p cutoff d)) = d \<or>
    (\<exists>w. assigns now cutoff d p w (fst (in_transaction d (claim_query now p cutoff d))))"
proof (cases "claim_query now p cutoff d")
  case (Inl e)
  then show ?thesis by (simp add: in_transaction_def)
next
  case (Inr r)
  then obtain d' c where r: "claim_query now p cutoff d = Inr (d', c)"
    by (cases r) auto
  from claim_query_Inr [OF r] have "d' = d \<or> (\<exists>w. assigns now cutoff d p w d')"
  proof
    assume "\<exists>w. worker_for_query cutoff (q_cpus p) (q_memory p) (q_disk_space p) d = Some w \<and>
       d' = d\<lparr>queries := sql_update (\<lambda>q. q_id q = q_id p) (assigned_row now (w_id w)) (queries d),
              channel := channel d @ [json_dumps (notify_payload (q_id p) ''running'' None None)]\<rparr> \<and>
       c = claimed_join (q_id p) d'"
    then show ?thesis
      using worker_for_query_fits assms unfolding assigns_def by blast
  qed simp
  then show ?thesis
    using r by (simp add: in_transaction_def)
qed

lemma claim_pending_effect:
  "fst (claim_pending_query utc now stale d) = d \<or>
   (\<exists>p w. assigns now (utc - stale * second) d p w (fst (claim_pending_query utc now stale d)))"
proof (cases rule: claim_pending_cases [of d utc now stale])
  case none
  then show ?thesis by simp
next
  case (some p)
  then show ?thesis using in_transaction_claim [of p d now "utc - stale * second"] by auto
qed

lemma claim_by_id_effect:
  "fst (claim_query_by_id utc now qid stale d) = d \<or>
   (\<exists>p w. assigns now (utc - stale * second) d p w (fst (claim_query_by_id utc now qid stale d)))"
proof (cases rule: claim_by_id_cases [of d qid utc now stale])
  case none
  then show ?thesis by simp
next
  case (some p)
  then show ?thesis using in_transaction_claim [of p d now "utc - stale * second"] by auto
qed

section \<open>Effects on the table of workers\<close>

definition registered_row ::
  "timestamp \<Rightarrow> string \<Rightarrow> int \<Rightarrow> int \<Rightarrow> int \<Rightarrow> int \<Rightarrow> worker_row \<Rightarrow> worker_row" where
  "registered_row now endpoint cpus memory disk_space max_queries w =
     w\<lparr>w_endpoint := endpoint, w_status := ''initializing'', w_cpus := cpus, w_memory := memory,
       w_disk_space := disk_space, w_max_concurrent_queries := max_queries, w_last_heartbeat_at := now\<rparr>"

definition heartbeat_row ::
  "timestamp \<Rightarrow> int option \<Rightarrow> int option \<Rightarrow> int option \<Rightarrow> string option \<Rightarrow> int option \<Rightarrow> real option
    \<Rightarrow> worker_row \<Rightarrow> worker_row" where
  "heartbeat_row now cpus memory disk_space status memory_used_mb cpu_usage w =
     w\<lparr>w_last_heartbeat_at := now, w_cpus := coalesce cpus (w_cpus w),
       w_memory := coalesce memory (w_memory w), w_disk_space := coalesce disk_space (w_disk_space w),
       w_status := coalesce status (w_status w),
       w_memory_used_mb := coalesce_opt memory_used_mb (w_memory_used_mb w),
       w_cpu_usage := coalesce_opt cpu_usage (w_cpu_usage w)\<rparr>"

lemma worker_row_updates [simp]:
  "w_id (registered_row now ep c m s mx w) = w_id w"
  "w_status (registered_row now ep c m s mx w) = ''initializing''"
  "w_id (heartbeat_row now c' m' s' st mu cu w) = w_id w"
  "w_status (heartbeat_row now c' m' s' st mu cu w) = coalesce st (w_status w)"
  "w_max_concurrent_queries (heartbeat_row now c' m' s' st mu cu w) = w_max_concurrent_queries w"
  by (simp_all add: registered_row_def heartbeat_row_def)

lemma workers_register:
  obtains (known) "coalesce wid fr \<in> w_id ` set (workers d)"
      "workers (fst (register_worker fr now wid ep c m s mx d)) =
         sql_update (\<lambda>w. w_id w = coalesce wid fr) (registered_row now ep c m s mx) (workers d)"
  | (fresh) r where "coalesce wid fr \<notin> w_id ` set (workers d)" "w_id r = coalesce wid fr"
      "workers (fst (register_worker fr now wid ep c m s mx d)) = workers d @ [r]"
proof -
  have id: "(case wid of Some w \<Rightarrow> w | None \<Rightarrow> fr) = coalesce wid fr" by (cases wid) simp_all
  let ?r = "\<lparr>w_id = coalesce wid fr, w_endpoint = ep, w_status = ''initializing'',
      w_cpus = c, w_memory = m, w_disk_space = s, w_max_concurrent_queries = mx, w_memory_used_mb = None,
      w_cpu_usage = None, w_started_at = now, w_last_heartbeat_at = now\<rparr>"
  have "workers (fst (register_worker fr now wid ep c m s mx d)) =
      (if coalesce wid fr \<in> w_id ` set (workers d)
       then sql_update (\<lambda>w. w_id w = coalesce wid fr) (registered_row now ep c m s mx) (workers d)
       else workers d @ [?r])"
    unfolding register_worker_def Let_def id registered_row_def [abs_def] by simp
  then show thesis
    by (cases "coalesce wid fr \<in> w_id ` set (workers d)") (auto intro: known fresh [of ?r])
qed

lemma workers_heartbeat:
  "workers (fst (heartbeat_worker now wid c m s st mu cu d)) =
    sql_update (\<lambda>w. w_id w = wid) (heartbeat_row now c m s st mu cu) (workers d)"
  unfolding heartbeat_worker_def Let_def heartbeat_row_def [abs_def] by simp

text \<open>A heartbeat can carry any status: \<^verbatim>\<open>running\<close> and \<^verbatim>\<open>shutting_down\<close> are the ones the model's comment names, but
  whatever it says is stored.\<close>

theorem heartbeat_stores_any_status:
  assumes "worker_of k d = Some w"
  shows "map_option w_status (worker_of k (fst (heartbeat_worker now k c m s (Some st) mu cu d))) = Some st"
  using assms row_of_Some [OF assms] by (simp add: workers_heartbeat row_of_update heartbeat_row_def)

lemma workers_ready:
  "workers (fst (ready_worker now wid d)) = sql_update (\<lambda>w. w_id w = wid \<and> w_status w = ''initializing'')
    (\<lambda>w. w\<lparr>w_status := ''running'', w_last_heartbeat_at := now\<rparr>) (workers d)"
  by (simp add: ready_worker_def Let_def)

lemma workers_shutdown:
  "workers (fst (shutdown_worker now wid d)) = sql_update (\<lambda>w. w_id w = wid \<and> w_status w = ''running'')
    (\<lambda>w. w\<lparr>w_status := ''shutting_down'', w_last_heartbeat_at := now\<rparr>) (workers d)"
  by (simp add: shutdown_worker_def Let_def)

lemma workers_unreachable:
  "workers (fst (mark_worker_unreachable wid d)) = workers d \<or>
   workers (fst (mark_worker_unreachable wid d)) =
     sql_update (\<lambda>w. w_id w = wid \<and> w_status w \<in> {''running'', ''shutting_down''})
       (\<lambda>w. w\<lparr>w_status := ''unreachable''\<rparr>) (workers d)"
  by (auto simp: mark_worker_unreachable_def Let_def dest!: notify_reverted_Inr split: sum.splits)

lemma workers_sweep:
  "workers (fst (sweep_stale_workers utc stale d)) = workers d \<or>
   workers (fst (sweep_stale_workers utc stale d)) =
     sql_update (is_stale (utc - stale * second)) (\<lambda>w. w\<lparr>w_status := ''stopped''\<rparr>) (workers d)"
  by (auto simp: sweep_stale_workers_def Let_def dest!: notify_reverted_Inr split: sum.splits)

end
