(* ===== verification/Store_Invariant.thy ===== *)
theory Store_Invariant
  imports Store_Effects Machine
begin

text \<open>
  The life cycle of a query and the invariant of the store. \<open>row_evolves\<close> lists how one row can
  change, \<open>life\<close> is the automaton on statuses that the README describes, and \<open>board_step\<close> is the
  abstract machine the store implements: a board of statuses on which queries appear as pending
  and move along \<open>life\<close>. Runs are lists of operations, applied in order, so every serial
  schedule of the coordinator's statements is covered.
\<close>

section \<open>Statuses\<close>

text \<open>\<^verbatim>\<open>TERMINAL_QUERY_STATUSES\<close>.\<close>

definition terminal :: "string \<Rightarrow> bool" where
  "terminal st \<longleftrightarrow> st \<in> {''completed'', ''failed'', ''cancelled''}"

lemma terminal_simps [simp]:
  "terminal ''completed''" "terminal ''failed''" "terminal ''cancelled''"
  "\<not> terminal ''pending''" "\<not> terminal ''running''"
  by (simp_all add: terminal_def)

inductive life :: "string \<Rightarrow> string \<Rightarrow> bool" where
  keep: "life s s"
| assign: "life ''pending'' ''running''"
| requeue: "life ''running'' ''pending''"
| finish: "s = ''pending'' \<or> s = ''running'' \<Longrightarrow> terminal t \<Longrightarrow> life s t"

inductive_cases life_cases: "life s t"

lemma life_terminal: "life s t \<Longrightarrow> terminal s \<Longrightarrow> t = s"
  by (elim life_cases) auto

section \<open>How a row evolves\<close>

definition row_evolves :: "uuid set \<Rightarrow> query_row \<Rightarrow> query_row \<Rightarrow> bool" where
  "row_evolves W q q' \<longleftrightarrow>
     q' = q \<or>
     (q_status q = ''pending'' \<and> (\<exists>now. \<exists>w\<in>W. q' = assigned_row now w q)) \<or>
     (q_status q = ''running'' \<and> (q' = lost_row q \<or> q' = requeued_row q)) \<or>
     (q_status q \<in> {''pending'', ''running''} \<and>
       (\<exists>now st e n. terminal st \<and> (q' = completed_row now st e n q \<or> q' = cancelled_row now e q)))"

lemma row_evolves_refl [simp]: "row_evolves W q q"
  by (simp add: row_evolves_def)

lemma row_evolves_lost [intro]: "q_status q = ''running'' \<Longrightarrow> row_evolves W q (lost_row q)"
  by (simp add: row_evolves_def)

lemma row_evolves_requeued [intro]: "q_status q = ''running'' \<Longrightarrow> row_evolves W q (requeued_row q)"
  by (simp add: row_evolves_def)

lemma row_evolves_assigned [intro]:
  "q_status q = ''pending'' \<Longrightarrow> w \<in> W \<Longrightarrow> row_evolves W q (assigned_row now w q)"
  by (auto simp: row_evolves_def)

lemma row_evolves_finished [intro]:
  assumes "q_status q = ''running'' \<or> q_status q = ''pending''"
  shows "terminal st \<Longrightarrow> row_evolves W q (completed_row now st e n q)"
    and "row_evolves W q (cancelled_row now e q)"
proof -
  have "terminal ''failed''" by simp
  with assms show "row_evolves W q (cancelled_row now e q)"
    unfolding row_evolves_def by blast
  show "terminal st \<Longrightarrow> row_evolves W q (completed_row now st e n q)"
    using assms unfolding row_evolves_def by blast
qed

lemma row_evolves_id: "row_evolves W q q' \<Longrightarrow> q_id q' = q_id q"
  by (auto simp: row_evolves_def)

lemma row_evolves_request:
  "row_evolves W q q' \<Longrightarrow> q_query q' = q_query q \<and> q_user_id q' = q_user_id q"
  by (auto simp: row_evolves_def)

lemma row_evolves_life: "row_evolves W q q' \<Longrightarrow> life (q_status q) (q_status q')"
  by (auto simp: row_evolves_def intro: life.intros)

lemma row_evolves_terminal: "row_evolves W q q' \<Longrightarrow> terminal (q_status q) \<Longrightarrow> q' = q"
  by (auto simp: row_evolves_def)

text \<open>All rows evolve and new ones come at the end, as pending.\<close>

definition rows_evolve :: "uuid set \<Rightarrow> query_row list \<Rightarrow> query_row list \<Rightarrow> bool" where
  "rows_evolve W qs qs' \<longleftrightarrow>
     (\<exists>old new. qs' = old @ new \<and> list_all2 (row_evolves W) qs old \<and>
        (\<forall>q\<in>set new. q_status q = ''pending''))"

lemma rows_evolve_refl [simp]: "rows_evolve W qs qs"
  unfolding rows_evolve_def
  by (rule exI [of _ qs], rule exI [of _ "[]"]) (simp add: list_all2_same)

lemma rows_evolve_update:
  "(\<And>q. q \<in> set qs \<Longrightarrow> cond q \<Longrightarrow> row_evolves W q (upd q)) \<Longrightarrow> rows_evolve W qs (sql_update cond upd qs)"
  unfolding rows_evolve_def
  by (rule exI [of _ "sql_update cond upd qs"], rule exI [of _ "[]"])
     (auto simp: sql_update_def list.rel_map list_all2_same)

lemma rows_evolve_append: "q_status q = ''pending'' \<Longrightarrow> rows_evolve W qs (qs @ [q])"
  unfolding rows_evolve_def
  by (rule exI [of _ qs], rule exI [of _ "[q]"]) (simp add: list_all2_same)

lemma list_all2_row_of:
  assumes "list_all2 (row_evolves W) qs old"
  shows "case row_of q_id k qs of
      None \<Rightarrow> row_of q_id k old = None
    | Some q \<Rightarrow> (\<exists>q'. row_of q_id k old = Some q' \<and> row_evolves W q q')"
  using assms
  by (induction rule: list_all2_induct) (auto simp: row_of_Cons row_evolves_id split: option.splits)

lemma rows_evolve_row_of:
  assumes "rows_evolve W qs qs'" and "row_of q_id k qs = Some q"
  shows "\<exists>q'. row_of q_id k qs' = Some q' \<and> row_evolves W q q'"
proof -
  obtain old new where "qs' = old @ new" "list_all2 (row_evolves W) qs old"
    using assms(1) by (auto simp: rows_evolve_def)
  with assms(2) list_all2_row_of [of W qs old k] show ?thesis
    by (auto simp: row_of_append)
qed

lemma rows_evolve_new:
  assumes "rows_evolve W qs qs'" and "row_of q_id k qs = None" and "row_of q_id k qs' = Some q'"
  shows "q_status q' = ''pending''"
proof -
  obtain old new where new: "qs' = old @ new" "list_all2 (row_evolves W) qs old"
      "\<forall>q\<in>set new. q_status q = ''pending''"
    using assms(1) by (auto simp: rows_evolve_def)
  with assms(2,3) list_all2_row_of [of W qs old k] have "row_of q_id k new = Some q'"
    by (auto simp: row_of_append)
  with new(3) show ?thesis
    using row_of_Some by fastforce
qed

section \<open>Operations as data\<close>

datatype store_op =
    OpRegister uuid timestamp "uuid option" string int int int int
  | OpHeartbeat timestamp uuid "int option" "int option" "int option" "string option"
      "int option" "real option"
  | OpReady timestamp uuid
  | OpShutdown timestamp uuid
  | OpUnreachable uuid
  | OpSweep timestamp int
  | OpCreate uuid timestamp string "int option" "int option" "int option" "uuid option"
  | OpComplete timestamp uuid string "string option" "int option"
  | OpCancel timestamp uuid "string option"
  | OpRevert uuid
  | OpClaimNext timestamp timestamp int
  | OpClaimById timestamp timestamp uuid int

fun apply_op :: "store_op \<Rightarrow> database \<Rightarrow> database" where
  "apply_op (OpRegister fr now wid ep c m s mx) d = fst (register_worker fr now wid ep c m s mx d)"
| "apply_op (OpHeartbeat now wid c m s st mu cu) d = fst (heartbeat_worker now wid c m s st mu cu d)"
| "apply_op (OpReady now wid) d = fst (ready_worker now wid d)"
| "apply_op (OpShutdown now wid) d = fst (shutdown_worker now wid d)"
| "apply_op (OpUnreachable wid) d = fst (mark_worker_unreachable wid d)"
| "apply_op (OpSweep utc stale) d = fst (sweep_stale_workers utc stale d)"
| "apply_op (OpCreate fr now q c m s u) d = fst (create_query fr now q c m s u d)"
| "apply_op (OpComplete now qid st e n) d = fst (complete_query now qid st e n d)"
| "apply_op (OpCancel now qid e) d = fst (mark_query_cancelled now qid e d)"
| "apply_op (OpRevert qid) d = fst (revert_query_to_pending qid d)"
| "apply_op (OpClaimNext utc now stale) d = fst (claim_pending_query utc now stale d)"
| "apply_op (OpClaimById utc now qid stale) d = fst (claim_query_by_id utc now qid stale d)"

definition run_ops :: "store_op list \<Rightarrow> database \<Rightarrow> database" where
  "run_ops ops d = run_steps apply_op ops d"

lemma run_ops_simps [simp]:
  "run_ops [] d = d" "run_ops (op # ops) d = run_ops ops (apply_op op d)"
  by (simp_all add: run_ops_def)

text \<open>What the route \<^verbatim>\<open>/queries/{query_id}/complete\<close> lets through: its request model accepts the
  three terminal statuses only.\<close>

fun valid_op :: "store_op \<Rightarrow> bool" where
  "valid_op (OpComplete now qid st e n) = terminal st"
| "valid_op op = True"

section \<open>Every operation makes rows evolve\<close>

lemma queries_create:
  "rows_evolve (w_id ` set (workers d)) (queries d) (queries (fst (create_query fr now q c m s u d)))"
  by (auto simp: create_query_def sql_insert_def Let_def intro: rows_evolve_append)

lemma assigns_evolve:
  assumes "pk q_id (queries d)" and "assigns now cutoff d p w d'"
  shows "rows_evolve (w_id ` set (workers d)) (queries d) (queries d')"
proof -
  have p: "p \<in> set (queries d)" "q_status p = ''pending''"
    and d': "queries d' = sql_update (\<lambda>q. q_id q = q_id p) (assigned_row now (w_id w)) (queries d)"
    and w: "w \<in> set (workers d)"
    using assms(2) by (auto simp: assigns_def)
  have "q = p" if "q \<in> set (queries d)" "q_id q = q_id p" for q
    using distinct_map_unique [OF assms(1) [unfolded pk_def] that(1) p(1) that(2)] .
  with p(2) w show ?thesis
    unfolding d' by (auto intro!: rows_evolve_update)
qed

lemma apply_op_evolves:
  assumes "pk q_id (queries d)" and "valid_op op"
  shows "rows_evolve (w_id ` set (workers d)) (queries d) (queries (apply_op op d))"
proof (cases op)
  case (OpUnreachable wid)
  then show ?thesis
    using queries_unreachable [of wid d] by (auto intro!: rows_evolve_update)
next
  case (OpSweep utc stale)
  then show ?thesis
    using queries_sweep [of utc stale d]
    by (auto simp: lost_in_sweep_def intro!: rows_evolve_update row_evolves_lost)
next
  case (OpCreate fr now q c m s u)
  then show ?thesis using queries_create by simp
next
  case (OpComplete now qid st e n)
  with assms(2) show ?thesis
    by (auto simp: queries_complete intro!: rows_evolve_update)
next
  case (OpCancel now qid e)
  then show ?thesis
    by (auto simp: queries_cancelled intro!: rows_evolve_update)
next
  case (OpRevert qid)
  then show ?thesis
    by (auto simp: queries_revert intro!: rows_evolve_update)
next
  case (OpClaimNext utc now stale)
  then show ?thesis
    using claim_pending_effect [of utc now stale d] assigns_evolve [OF assms(1)] by auto
next
  case (OpClaimById utc now qid stale)
  then show ?thesis
    using claim_by_id_effect [of utc now qid stale d] assigns_evolve [OF assms(1)] by auto
qed simp_all

section \<open>The other parts of the database\<close>

lemma frame_assigns:
  assumes "assigns now cutoff d p w d'"
  shows "workers d' = workers d" "users d' = users d" "payload_limit d' = payload_limit d"
  using assms by (auto simp: assigns_def)

lemma frame_claim:
  "workers (fst (claim_pending_query utc now stale d)) = workers d"
  "users (fst (claim_pending_query utc now stale d)) = users d"
  "payload_limit (fst (claim_pending_query utc now stale d)) = payload_limit d"
  "workers (fst (claim_query_by_id utc now qid stale d)) = workers d"
  "users (fst (claim_query_by_id utc now qid stale d)) = users d"
  "payload_limit (fst (claim_query_by_id utc now qid stale d)) = payload_limit d"
  using claim_pending_effect [of utc now stale d] claim_by_id_effect [of utc now qid stale d]
    frame_assigns by metis+

lemma frame_finish:
  "workers (fst (complete_query now qid st e n d)) = workers d"
  "users (fst (complete_query now qid st e n d)) = users d"
  "payload_limit (fst (complete_query now qid st e n d)) = payload_limit d"
  "workers (fst (mark_query_cancelled now qid e d)) = workers d"
  "users (fst (mark_query_cancelled now qid e d)) = users d"
  "payload_limit (fst (mark_query_cancelled now qid e d)) = payload_limit d"
  "workers (fst (revert_query_to_pending qid d)) = workers d"
  "users (fst (revert_query_to_pending qid d)) = users d"
  "payload_limit (fst (revert_query_to_pending qid d)) = payload_limit d"
  by (auto simp: complete_query_def mark_query_cancelled_def revert_query_to_pending_def Let_def
      dest!: notify_query_status_Inr split: sum.split option.split)

lemma frame_create:
  "workers (fst (create_query fr now q c m s u d)) = workers d"
  "users (fst (create_query fr now q c m s u d)) = users d"
  "payload_limit (fst (create_query fr now q c m s u d)) = payload_limit d"
  by (auto simp: create_query_def Let_def split: sum.split)

lemma frame_unreachable:
  "map w_id (workers (fst (mark_worker_unreachable wid d))) = map w_id (workers d)"
  "users (fst (mark_worker_unreachable wid d)) = users d"
  "payload_limit (fst (mark_worker_unreachable wid d)) = payload_limit d"
  by (auto simp: mark_worker_unreachable_def Let_def map_key_update
      dest!: notify_reverted_Inr split: sum.split)

lemma frame_sweep:
  "map w_id (workers (fst (sweep_stale_workers utc stale d))) = map w_id (workers d)"
  "users (fst (sweep_stale_workers utc stale d)) = users d"
  "payload_limit (fst (sweep_stale_workers utc stale d)) = payload_limit d"
  by (auto simp: sweep_stale_workers_def Let_def map_key_update
      dest!: notify_reverted_Inr split: sum.split)

lemma frame_worker_ops:
  "map w_id (workers (fst (heartbeat_worker now wid c m s st mu cu d))) = map w_id (workers d)"
  "map w_id (workers (fst (ready_worker now wid d))) = map w_id (workers d)"
  "map w_id (workers (fst (shutdown_worker now wid d))) = map w_id (workers d)"
  "users (fst (heartbeat_worker now wid c m s st mu cu d)) = users d"
  "users (fst (ready_worker now wid d)) = users d"
  "users (fst (shutdown_worker now wid d)) = users d"
  "users (fst (register_worker fr now wid' ep c' m' s' mx d)) = users d"
  "payload_limit (fst (heartbeat_worker now wid c m s st mu cu d)) = payload_limit d"
  "payload_limit (fst (ready_worker now wid d)) = payload_limit d"
  "payload_limit (fst (shutdown_worker now wid d)) = payload_limit d"
  "payload_limit (fst (register_worker fr now wid' ep c' m' s' mx d)) = payload_limit d"
  by (simp_all add: heartbeat_worker_def ready_worker_def shutdown_worker_def register_worker_def
      Let_def map_key_update)

lemma register_ids:
  assumes "pk w_id (workers d)"
  shows "pk w_id (workers (fst (register_worker fr now wid ep c m s mx d)))"
    and "w_id ` set (workers d) \<subseteq> w_id ` set (workers (fst (register_worker fr now wid ep c m s mx d)))"
  using assms
  by (auto simp: register_worker_def Let_def pk_update pk_append_one key_image_update)

lemmas frame_lemmas = frame_claim frame_finish frame_create frame_unreachable frame_sweep
  frame_worker_ops

lemma apply_op_frame [simp]:
  "users (apply_op op d) = users d" "payload_limit (apply_op op d) = payload_limit d"
  by (cases op; simp add: frame_lemmas)+

lemma apply_op_worker_ids:
  assumes "pk w_id (workers d)"
  shows "pk w_id (workers (apply_op op d))"
    and "w_id ` set (workers d) \<subseteq> w_id ` set (workers (apply_op op d))"
proof -
  have same: "pk w_id ws' \<and> w_id ` set (workers d) \<subseteq> w_id ` set ws'"
    if "map w_id ws' = map w_id (workers d)" for ws'
    using assms that by (simp add: pk_def) (metis list.set_map order_refl)
  have "pk w_id (workers (apply_op op d)) \<and>
      w_id ` set (workers d) \<subseteq> w_id ` set (workers (apply_op op d))"
    by (cases op; use assms register_ids [OF assms] in \<open>simp add: same frame_lemmas\<close>)
  then show "pk w_id (workers (apply_op op d))"
    and "w_id ` set (workers d) \<subseteq> w_id ` set (workers (apply_op op d))"
    by blast+
qed

section \<open>The invariant\<close>

text \<open>A pending query is on no worker, a running one is on a worker since some instant, a finished
  one has an instant of completion, and no other status occurs.\<close>

definition query_ok :: "query_row \<Rightarrow> bool" where
  "query_ok q \<longleftrightarrow>
     (q_status q = ''pending'' \<and> q_worker_id q = None \<and> q_started_at q = None \<and> q_completed_at q = None) \<or>
     (q_status q = ''running'' \<and> q_worker_id q \<noteq> None \<and> q_started_at q \<noteq> None \<and> q_completed_at q = None) \<or>
     (terminal (q_status q) \<and> q_completed_at q \<noteq> None)"

text \<open>The keys are unique, every row is in order, and the foreign keys resolve.\<close>

definition store_wf :: "database \<Rightarrow> bool" where
  "store_wf d \<longleftrightarrow>
     pk w_id (workers d) \<and> pk q_id (queries d) \<and>
     (\<forall>q\<in>set (queries d). query_ok q \<and>
        set_option (q_worker_id q) \<subseteq> w_id ` set (workers d) \<and>
        set_option (q_user_id q) \<subseteq> u_id ` set (users d))"

lemma store_wf_empty: "store_wf (empty_db n)"
  by (simp add: store_wf_def empty_db_def)

lemma store_wf_pk: "store_wf d \<Longrightarrow> pk q_id (queries d)" "store_wf d \<Longrightarrow> pk w_id (workers d)"
  by (simp_all add: store_wf_def)

lemma query_ok_cases:
  assumes "query_ok q"
  obtains (pending) "q_status q = ''pending''" "q_worker_id q = None" "q_started_at q = None"
      "q_completed_at q = None"
  | (running) "q_status q = ''running''" "q_worker_id q \<noteq> None" "q_started_at q \<noteq> None"
      "q_completed_at q = None"
  | (finished) "terminal (q_status q)" "q_completed_at q \<noteq> None"
  using assms unfolding query_ok_def by metis

lemma query_ok_intros:
  "q_status q = ''pending'' \<Longrightarrow> q_worker_id q = None \<Longrightarrow> q_started_at q = None \<Longrightarrow>
    q_completed_at q = None \<Longrightarrow> query_ok q"
  "q_status q = ''running'' \<Longrightarrow> q_worker_id q \<noteq> None \<Longrightarrow> q_started_at q \<noteq> None \<Longrightarrow>
    q_completed_at q = None \<Longrightarrow> query_ok q"
  "terminal (q_status q) \<Longrightarrow> q_completed_at q \<noteq> None \<Longrightarrow> query_ok q"
  unfolding query_ok_def by blast+

lemma row_evolves_cases:
  assumes "row_evolves W q q'"
  obtains (same) "q' = q"
  | (assigned) now w where "q_status q = ''pending''" "w \<in> W" "q' = assigned_row now w q"
  | (lost) "q_status q = ''running''" "q' = lost_row q"
  | (requeued) "q_status q = ''running''" "q' = requeued_row q"
  | (completed) now st e n where "q_status q = ''pending'' \<or> q_status q = ''running''"
      "terminal st" "q' = completed_row now st e n q"
  | (cancelled) now e where "q_status q = ''pending'' \<or> q_status q = ''running''"
      "q' = cancelled_row now e q"
  using assms unfolding row_evolves_def by blast

lemma query_ok_evolves:
  assumes "query_ok q" and "row_evolves W q q'"
  shows "query_ok q'"
  using assms(2)
proof (cases rule: row_evolves_cases)
  case same
  with assms(1) show ?thesis by simp
next
  case (assigned now w)
  with assms(1) show ?thesis
    by (cases rule: query_ok_cases) (auto intro: query_ok_intros(2))
next
  case lost
  with assms(1) show ?thesis
    by (cases rule: query_ok_cases) (auto intro: query_ok_intros(1))
next
  case requeued
  with assms(1) show ?thesis
    by (cases rule: query_ok_cases) (auto intro: query_ok_intros(1))
next
  case (completed now st e n)
  then show ?thesis by (intro query_ok_intros(3)) auto
next
  case (cancelled now e)
  then show ?thesis by (intro query_ok_intros(3)) auto
qed

lemma query_ok_pending [simp]:
  "q_status q = ''pending'' \<Longrightarrow> query_ok q \<longleftrightarrow>
    q_worker_id q = None \<and> q_started_at q = None \<and> q_completed_at q = None"
  by (auto simp: query_ok_def)

text \<open>A row's references after it evolved: its user as before, its worker one it had or a new one
  that is registered.\<close>

lemma row_evolves_refs:
  "row_evolves W q q' \<Longrightarrow> q_user_id q' = q_user_id q"
  "row_evolves W q q' \<Longrightarrow> set_option (q_worker_id q') \<subseteq> set_option (q_worker_id q) \<union> W"
  by (auto simp: row_evolves_def)

lemma rows_evolve_members:
  assumes "rows_evolve W qs qs'" and "q' \<in> set qs'"
  shows "(\<exists>q\<in>set qs. row_evolves W q q') \<or> q_status q' = ''pending''"
proof -
  obtain old new where new: "qs' = old @ new" "list_all2 (row_evolves W) qs old"
      "\<forall>q\<in>set new. q_status q = ''pending''"
    using assms(1) by (auto simp: rows_evolve_def)
  then show ?thesis
    using assms(2) list_all2_memberD [OF new(2)] by auto
qed

lemma rows_evolve_ids:
  "list_all2 (row_evolves W) qs old \<Longrightarrow> map q_id old = map q_id qs"
  by (induction rule: list_all2_induct) (auto simp: row_evolves_id)

text \<open>An operation other than an insertion keeps the list of query ids.\<close>

lemma apply_op_query_ids:
  assumes "\<And>fr now q c m s u. op \<noteq> OpCreate fr now q c m s u"
  shows "map q_id (queries (apply_op op d)) = map q_id (queries d)"
proof -
  have claims: "map q_id (queries d') = map q_id (queries d)"
    if "assigns now cutoff d p w d'" for now cutoff p w d'
    using that by (auto simp: assigns_def map_key_update)
  show ?thesis
  proof (cases op)
    case (OpUnreachable wid)
    then show ?thesis
      using queries_unreachable [of wid d] by (auto simp: map_key_update)
  next
    case (OpSweep utc stale)
    then show ?thesis
      using queries_sweep [of utc stale d] by (auto simp: map_key_update)
  next
    case (OpClaimNext utc now stale)
    then show ?thesis
      using claim_pending_effect [of utc now stale d] claims by auto
  next
    case (OpClaimById utc now qid stale)
    then show ?thesis
      using claim_by_id_effect [of utc now qid stale d] claims by auto
  next
    case (OpCreate fr now q c m s u)
    with assms have False by blast
    then show ?thesis ..
  qed (simp_all add: queries_complete queries_cancelled queries_revert map_key_update)
qed

lemma store_wf_create:
  assumes "store_wf d"
  shows "store_wf (fst (create_query fr now q c m s u d))"
  using assms
  by (auto simp: create_query_def Let_def sql_insert_def store_wf_def pk_append_one)

lemma store_wf_apply_op:
  assumes "store_wf d" and "valid_op op"
  shows "store_wf (apply_op op d)"
proof (cases "\<exists>fr now q c m s u. op = OpCreate fr now q c m s u")
  case True
  with assms show ?thesis by (auto intro: store_wf_create)
next
  case False
  then have ids: "map q_id (queries (apply_op op d)) = map q_id (queries d)"
    by (intro apply_op_query_ids) auto
  let ?W = "w_id ` set (workers d)"
  have ev: "rows_evolve ?W (queries d) (queries (apply_op op d))"
    using assms by (intro apply_op_evolves) (auto simp: store_wf_def)
  then obtain old new where on: "queries (apply_op op d) = old @ new"
      "list_all2 (row_evolves ?W) (queries d) old"
    by (auto simp: rows_evolve_def)
  with ids rows_evolve_ids [OF on(2)] have "new = []" by simp
  with on have all2: "list_all2 (row_evolves ?W) (queries d) (queries (apply_op op d))" by simp
  have row: "query_ok q' \<and> set_option (q_worker_id q') \<subseteq> ?W \<and>
      set_option (q_user_id q') \<subseteq> u_id ` set (users d)"
    if "q' \<in> set (queries (apply_op op d))" for q'
  proof -
    from list_all2_memberD [OF all2 that]
    obtain q where q: "q \<in> set (queries d)" "row_evolves ?W q q'" ..
    then show ?thesis
      using assms(1) query_ok_evolves [OF _ q(2)] row_evolves_refs [OF q(2)]
      by (auto simp: store_wf_def)
  qed
  have "pk q_id (queries (apply_op op d))"
    using ids store_wf_pk(1) [OF assms(1)] by (simp add: pk_def)
  moreover have "pk w_id (workers (apply_op op d))"
      and W: "?W \<subseteq> w_id ` set (workers (apply_op op d))"
    using apply_op_worker_ids [OF store_wf_pk(2) [OF assms(1)]] by blast+
  moreover have "\<forall>q\<in>set (queries (apply_op op d)). query_ok q \<and>
      set_option (q_worker_id q) \<subseteq> w_id ` set (workers (apply_op op d)) \<and>
      set_option (q_user_id q) \<subseteq> u_id ` set (users (apply_op op d))"
    unfolding apply_op_frame(1) using row W by (fast dest: subset_trans)
  ultimately show ?thesis
    unfolding store_wf_def by blast
qed

interpretation store: machine apply_op valid_op store_wf
  by unfold_locales (rule store_wf_apply_op)

section \<open>The board the store implements\<close>

type_synonym board = "uuid \<Rightarrow> string option"

definition board_of :: "database \<Rightarrow> board" where
  "board_of d = (\<lambda>k. map_option q_status (query_of k d))"

definition board_step :: "board \<Rightarrow> board \<Rightarrow> bool" where
  "board_step b b' \<longleftrightarrow>
     (\<forall>k. case b k of
            None \<Rightarrow> b' k = None \<or> b' k = Some ''pending''
          | Some s \<Rightarrow> (\<exists>t. b' k = Some t \<and> life s t))"

lemma apply_op_row:
  assumes "store_wf d" "valid_op op" "query_of k d = Some q"
  shows "\<exists>q'. query_of k (apply_op op d) = Some q' \<and> row_evolves (w_id ` set (workers d)) q q'"
  using rows_evolve_row_of [OF apply_op_evolves [OF store_wf_pk(1) [OF assms(1)] assms(2)] assms(3)] .

lemma board_step_evolves:
  assumes "rows_evolve W (queries d) (queries d')"
  shows "board_step (board_of d) (board_of d')"
  unfolding board_step_def
proof
  fix k
  show "case board_of d k of
      None \<Rightarrow> board_of d' k = None \<or> board_of d' k = Some ''pending''
    | Some s \<Rightarrow> \<exists>t. board_of d' k = Some t \<and> life s t"
  proof (cases "query_of k d")
    case None
    then show ?thesis
      using rows_evolve_new [OF assms] by (cases "query_of k d'") (auto simp: board_of_def)
  next
    case (Some q)
    then show ?thesis
      using rows_evolve_row_of [OF assms Some] row_evolves_life by (fastforce simp: board_of_def)
  qed
qed

lemma board_step_apply_op:
  assumes "store_wf d" and "valid_op op"
  shows "board_step (board_of d) (board_of (apply_op op d))"
  using board_step_evolves [OF apply_op_evolves [OF store_wf_pk(1) [OF assms(1)] assms(2)]] .

lemma board_step_refl [simp]: "board_step b b"
  by (auto simp: board_step_def intro: life.intros split: option.split)

lemma apply_op_terminal:
  assumes "store_wf d" "valid_op op" "query_of k d = Some q" "terminal (q_status q)"
  shows "query_of k (apply_op op d) = Some q"
  using apply_op_row [OF assms(1-3)] row_evolves_terminal assms(4) by blast

text \<open>The store implements the board, and no operation touches a finished row.\<close>

interpretation board: machine_abs apply_op valid_op store_wf board_of board_step
  by unfold_locales (rule board_step_apply_op)

interpretation finished: machine_fact apply_op valid_op store_wf "\<lambda>_. True"
  "\<lambda>d. query_of k d = Some q \<and> terminal (q_status q)" for k q
  by unfold_locales (simp add: apply_op_terminal)

end
