(* ===== verification/Claim_Laws.thy ===== *)
theory Claim_Laws
  imports Store_Invariant
begin

text \<open>
  The assignment of queries to workers: how a claim changes the load of each worker, when a claim
  succeeds, and which worker it takes. A load is a sum over the running queries of a worker, so
  one lemma about sums over an updated table serves the number of queries and the three resources.
\<close>

section \<open>Sums over an updated table\<close>

lemma sum_update_one:
  assumes "pk key t" and "p \<in> set t" and "\<not> P p"
  shows "(\<Sum>r\<leftarrow>filter P (sql_update (\<lambda>r. key r = key p) upd t). g r) =
    (\<Sum>r\<leftarrow>filter P t. g r) + (if P (upd p) then g (upd p) else (0 :: int))"
  using assms
proof (induction t)
  case Nil
  then show ?case by simp
next
  case (Cons a t)
  have other: "sql_update (\<lambda>r. key r = key p) upd t = t" if "p = a"
    using Cons.prems(1) that by (intro update_id) (auto simp: pk_def image_iff)
  show ?case
  proof (cases "p = a")
    case True
    with other Cons.prems(3) show ?thesis
      by (simp add: sql_update_def)
  next
    case False
    with Cons.prems have "key a \<noteq> key p" "p \<in> set t" "pk key t"
      by (auto simp: pk_def image_iff)
    with Cons.IH Cons.prems(3) show ?thesis
      by (simp add: sql_update_def)
  qed
qed

lemma load_queries_sum: "load_queries w d = (\<Sum>q\<leftarrow>load_rows w d. 1)"
  by (simp add: load_queries_def sum_list_triv)

lemma load_of_assignment:
  assumes "pk q_id (queries d)" and p: "p \<in> set (queries d)" "q_status p = ''pending''"
    and d': "queries d' = sql_update (\<lambda>q. q_id q = q_id p) (assigned_row now k) (queries d)"
  shows "load_queries k d' = load_queries k d + 1"
    and "col (assigned_row now k p) = col p \<Longrightarrow> load_sum col k d' = load_sum col k d + coalesce (col p) 0"
    and "v \<noteq> k \<Longrightarrow> load_queries v d' = load_queries v d"
    and "v \<noteq> k \<Longrightarrow> load_sum col v d' = load_sum col v d"
proof -
  have sum: "(\<Sum>q\<leftarrow>load_rows v d'. g q) = (\<Sum>q\<leftarrow>load_rows v d. g q) +
      (if v = k then g (assigned_row now k p) else 0)" for v and g :: "query_row \<Rightarrow> int"
    unfolding load_rows_def d'
    using sum_update_one [OF assms(1) p(1), where
        P = "\<lambda>q. q_status q = ''running'' \<and> q_worker_id q = Some v" and
        upd = "assigned_row now k" and g = g] p(2)
    by auto
  show "load_queries k d' = load_queries k d + 1"
    by (simp add: load_queries_sum sum del: sum_list_triv)
  show "load_sum col k d' = load_sum col k d + coalesce (col p) 0" if "col (assigned_row now k p) = col p"
    using that by (simp add: load_sum_def sum)
  show "load_queries v d' = load_queries v d" if "v \<noteq> k"
    using that by (simp add: load_queries_sum sum del: sum_list_triv)
  show "load_sum col v d' = load_sum col v d" if "v \<noteq> k"
    using that by (simp add: load_sum_def sum)
qed

lemma load_assigned:
  assumes "pk q_id (queries d)" and "assigns now cutoff d p w d'"
  shows "load_queries (w_id w) d' = load_queries (w_id w) d + 1"
    and "col (assigned_row now (w_id w) p) = col p \<Longrightarrow>
      load_sum col (w_id w) d' = load_sum col (w_id w) d + coalesce (col p) 0"
    and "v \<noteq> w_id w \<Longrightarrow> load_queries v d' = load_queries v d"
    and "v \<noteq> w_id w \<Longrightarrow> load_sum col v d' = load_sum col v d"
proof -
  have "p \<in> set (queries d)" "q_status p = ''pending''"
    "queries d' = sql_update (\<lambda>q. q_id q = q_id p) (assigned_row now (w_id w)) (queries d)"
    using assms(2) by (simp_all add: assigns_def)
  note load = load_of_assignment [OF assms(1) this]
  show "load_queries (w_id w) d' = load_queries (w_id w) d + 1" by (rule load)
  show "load_sum col (w_id w) d' = load_sum col (w_id w) d + coalesce (col p) 0"
    if "col (assigned_row now (w_id w) p) = col p" using that by (rule load)
  show "load_queries v d' = load_queries v d" if "v \<noteq> w_id w" using that by (rule load)
  show "load_sum col v d' = load_sum col v d" if "v \<noteq> w_id w" using that by (rule load)
qed

section \<open>The claimed row\<close>

lemma claimed_join_row:
  assumes "pk q_id (queries d)" "pk w_id (workers d)"
    and "query_of k d = Some q" "q_worker_id q = Some v" "worker_of v d = Some w"
  shows "claimed_join k d = Some
    \<lparr>c_query_id = q_id q, c_query = q_query q, c_cpus = q_cpus q, c_memory = q_memory q,
      c_disk_space = q_disk_space q, c_worker_id = w_id w, c_endpoint = w_endpoint w\<rparr>"
  using pk_filter [OF assms(1,3)] pk_filter [OF assms(2,5)] assms(4)
  by (simp add: claimed_join_def)

lemma claimed_join_assigned:
  assumes "store_wf d" and "assigns now cutoff d p w d'"
  shows "claimed_join (q_id p) d' = Some
    \<lparr>c_query_id = q_id p, c_query = q_query p, c_cpus = q_cpus p, c_memory = q_memory p,
      c_disk_space = q_disk_space p, c_worker_id = w_id w, c_endpoint = w_endpoint w\<rparr>"
proof -
  note pk = store_wf_pk [OF assms(1)]
  have "worker_of (w_id w) d' = Some w" "query_of (q_id p) d = Some p"
    using assms(2) row_of_iff [OF pk(1)] row_of_iff [OF pk(2)] by (simp_all add: assigns_def)
  moreover from this(2) have "query_of (q_id p) d' = Some (assigned_row now (w_id w) p)"
    using assms(2) by (simp add: assigns_def row_of_update)
  ultimately show ?thesis
    using claimed_join_row [of d' "q_id p"] pk assms(2) by (simp add: assigns_def pk_update)
qed

section \<open>When a claim succeeds\<close>

text \<open>On a server that accepts the fixed notifications a claim raises nothing. It returns a row
  exactly when a worker fits, and then that row is the join above.\<close>

lemma claim_query_result:
  assumes "130 \<le> payload_limit d" and "p \<in> set (queries d)" and "q_status p = ''pending''"
  shows "in_transaction d (claim_query now p cutoff d) =
    (case worker_for_query cutoff (q_cpus p) (q_memory p) (q_disk_space p) d of
       None \<Rightarrow> (d, Inr None)
     | Some w \<Rightarrow>
        (let d' = d\<lparr>queries := sql_update (\<lambda>q. q_id q = q_id p) (assigned_row now (w_id w)) (queries d),
              channel := channel d @ [json_dumps (notify_payload (q_id p) ''running'' None None)]\<rparr>
         in (d', Inr (claimed_join (q_id p) d'))))"
  using assms
  by (auto simp: claim_query_def in_transaction_def notify_fixed_succeeds Let_def split: option.split)

lemma claim_result:
  assumes "store_wf d" "130 \<le> payload_limit d" "p \<in> set (queries d)" "q_status p = ''pending''"
  shows "(\<exists>w d' c. worker_for_query cutoff (q_cpus p) (q_memory p) (q_disk_space p) d = Some w \<and>
            assigns now cutoff d p w d' \<and> claimed_join (q_id p) d' = Some c \<and>
            in_transaction d (claim_query now p cutoff d) = (d', Inr (Some c))) \<or>
         (worker_for_query cutoff (q_cpus p) (q_memory p) (q_disk_space p) d = None \<and>
            in_transaction d (claim_query now p cutoff d) = (d, Inr None))"
proof (cases "worker_for_query cutoff (q_cpus p) (q_memory p) (q_disk_space p) d")
  case None
  then show ?thesis
    using claim_query_result [OF assms(2-4)] by simp
next
  case (Some w)
  let ?d = "d\<lparr>queries := sql_update (\<lambda>q. q_id q = q_id p) (assigned_row now (w_id w)) (queries d),
      channel := channel d @ [json_dumps (notify_payload (q_id p) ''running'' None None)]\<rparr>"
  have as: "assigns now cutoff d p w ?d"
    using worker_for_query_fits [OF Some] assms(3,4) by (auto simp: assigns_def)
  have "in_transaction d (claim_query now p cutoff d) = (?d, Inr (claimed_join (q_id p) ?d))"
    using claim_query_result [OF assms(2-4)] Some by (simp add: Let_def)
  with Some as claimed_join_assigned [OF assms(1) as] show ?thesis
    by fastforce
qed

lemma worker_for_query_None:
  "worker_for_query cutoff c m s d = None \<longleftrightarrow> (\<forall>w\<in>set (workers d). \<not> worker_fits cutoff c m s d w)"
  by (simp add: worker_for_query_def filter_empty_conv)

text \<open>A claim by id of a pending query: it is assigned to a fitting worker, or none fits.\<close>

lemma claim_by_id_result:
  assumes "store_wf d" "130 \<le> payload_limit d" "p \<in> set (queries d)" "q_status p = ''pending''"
  obtains (got) v d' where "v \<in> set (workers d)"
      "worker_fits (utc - stale * second) (q_cpus p) (q_memory p) (q_disk_space p) d v"
      "claim_query_by_id utc now (q_id p) stale d = (d', Inr (Some
        \<lparr>c_query_id = q_id p, c_query = q_query p, c_cpus = q_cpus p, c_memory = q_memory p,
         c_disk_space = q_disk_space p, c_worker_id = w_id v, c_endpoint = w_endpoint v\<rparr>))"
      "query_of (q_id p) d' = Some (assigned_row now (w_id v) p)"
  | (unfit) "\<And>v. v \<in> set (workers d) \<Longrightarrow>
        \<not> worker_fits (utc - stale * second) (q_cpus p) (q_memory p) (q_disk_space p) d v"
      "claim_query_by_id utc now (q_id p) stale d = (d, Inr None)"
proof -
  let ?cut = "utc - stale * second"
  have keys: "pk q_id (queries d)" using assms(1) by (simp add: store_wf_def)
  have claim: "claim_query_by_id utc now (q_id p) stale d = in_transaction d (claim_query now p ?cut d)"
  proof (cases rule: claim_by_id_cases [of d "q_id p" utc now stale])
    case none
    with assms(3,4) show ?thesis by blast
  next
    case (some q)
    have "q = p" using distinct_map_unique [OF keys [unfolded pk_def] some(1) assms(3) some(3)] .
    with some(4) show ?thesis by simp
  qed
  from claim_result [OF assms, of ?cut now] show thesis
  proof (elim disjE exE conjE)
    fix v d' c assume v: "worker_for_query ?cut (q_cpus p) (q_memory p) (q_disk_space p) d = Some v"
      and a: "assigns now ?cut d p v d'" and c: "claimed_join (q_id p) d' = Some c"
      and eq: "in_transaction d (claim_query now p ?cut d) = (d', Inr (Some c))"
    have p: "query_of (q_id p) d = Some p" using assms(3) row_of_iff [OF keys] by simp
    have "query_of (q_id p) d' = map_option (\<lambda>q. if q_id q = q_id p then assigned_row now (w_id v) q else q)
        (query_of (q_id p) d)"
      using a row_of_update [of q_id "assigned_row now (w_id v)"] by (simp add: assigns_def)
    with p have "query_of (q_id p) d' = Some (assigned_row now (w_id v) p)" by simp
    with worker_for_query_fits [OF v] claim eq c claimed_join_assigned [OF assms(1) a] got show thesis by auto
  next
    assume "worker_for_query ?cut (q_cpus p) (q_memory p) (q_disk_space p) d = None"
      "in_transaction d (claim_query now p ?cut d) = (d, Inr None)"
    with claim unfit show thesis by (simp add: worker_for_query_None)
  qed
qed

lemma worker_for_query_least:
  assumes "worker_for_query cutoff c m s d = Some w" and "v \<in> set (workers d)"
    and "worker_fits cutoff c m s d v"
  shows "load_queries (w_id w) d < load_queries (w_id v) d \<or>
    (load_queries (w_id w) d = load_queries (w_id v) d \<and>
     w_last_heartbeat_at v \<le> w_last_heartbeat_at w)"
  using fetchrow_order_by(2) [OF assms(1) [unfolded worker_for_query_def]] assms(2,3)
  by (auto simp: less_eq_prod_def)

text \<open>What capacity means after an assignment: the bounds that made the worker fit now hold for
  the new load.\<close>

definition within_capacity :: "database \<Rightarrow> query_row \<Rightarrow> worker_row \<Rightarrow> bool" where
  "within_capacity d p w \<longleftrightarrow>
     load_queries (w_id w) d \<le> w_max_concurrent_queries w \<and>
     (q_cpus p \<noteq> None \<longrightarrow> load_sum q_cpus (w_id w) d \<le> w_cpus w) \<and>
     (q_memory p \<noteq> None \<longrightarrow> load_sum q_memory (w_id w) d \<le> w_memory w) \<and>
     (q_disk_space p \<noteq> None \<longrightarrow> load_sum q_disk_space (w_id w) d \<le> w_disk_space w)"

lemma assigns_within_capacity:
  assumes "pk q_id (queries d)" and "assigns now cutoff d p w d'"
  shows "within_capacity d' p w"
proof -
  have "worker_fits cutoff (q_cpus p) (q_memory p) (q_disk_space p) d w"
    using assms(2) by (simp add: assigns_def)
  then show ?thesis
    using load_assigned(1) [OF assms] load_assigned(2) [OF assms, of q_cpus]
      load_assigned(2) [OF assms, of q_memory] load_assigned(2) [OF assms, of q_disk_space]
    by (auto simp: within_capacity_def worker_fits_def fits_in_def)
qed

end
