(* ===== verification/Store_Properties.thy ===== *)
theory Store_Properties
  imports Claim_Laws
begin

text \<open>
  The properties of \<^verbatim>\<open>db/queries.py\<close>: the invariant of the store, the life cycle of queries, what a
  claim guarantees and when it succeeds, completion, the recovery of queries from lost workers,
  and the announcement of status changes. Each property with hypotheses is followed by its
  witness on a small concrete database.
\<close>

section \<open>Concrete databases for the witnesses\<close>

definition sample_worker :: "uuid \<Rightarrow> int \<Rightarrow> timestamp \<Rightarrow> worker_row" where
  "sample_worker k slots beat = \<lparr>w_id = k, w_endpoint = ''http://w:8001/'', w_status = ''running'',
     w_cpus = 4, w_memory = 1024, w_disk_space = 2048, w_max_concurrent_queries = slots,
     w_memory_used_mb = None, w_cpu_usage = None, w_started_at = 0, w_last_heartbeat_at = beat\<rparr>"

definition sample_query :: "uuid \<Rightarrow> timestamp \<Rightarrow> int option \<Rightarrow> query_row" where
  "sample_query k created cpus = \<lparr>q_id = k, q_worker_id = None, q_user_id = None,
     q_status = ''pending'', q_query = ''SELECT 1'', q_error = None, q_cpus = cpus,
     q_memory = None, q_disk_space = None, q_created_at = created, q_started_at = None,
     q_completed_at = None, q_result_row_count = None\<rparr>"

definition sample_db :: "worker_row list \<Rightarrow> query_row list \<Rightarrow> database" where
  "sample_db ws qs = (empty_db 8000)\<lparr>workers := ws, queries := qs\<rparr>"

lemma sample_db_simps [simp]:
  "workers (sample_db ws qs) = ws" "queries (sample_db ws qs) = qs" "users (sample_db ws qs) = []"
  "payload_limit (sample_db ws qs) = 8000" "channel (sample_db ws qs) = []"
  by (simp_all add: sample_db_def empty_db_def)

lemma sample_worker_simps [simp]:
  "w_id (sample_worker k n t) = k" "w_status (sample_worker k n t) = ''running''"
  "w_last_heartbeat_at (sample_worker k n t) = t"
  "w_max_concurrent_queries (sample_worker k n t) = n"
  "w_cpus (sample_worker k n t) = 4"
  by (simp_all add: sample_worker_def)

lemma sample_query_simps [simp]:
  "q_id (sample_query k t c) = k" "q_status (sample_query k t c) = ''pending''"
  "q_worker_id (sample_query k t c) = None" "q_user_id (sample_query k t c) = None"
  "q_cpus (sample_query k t c) = c" "q_memory (sample_query k t c) = None"
  "q_disk_space (sample_query k t c) = None" "q_created_at (sample_query k t c) = t"
  "q_completed_at (sample_query k t c) = None" "q_error (sample_query k t c) = None"
  "q_started_at (sample_query k t c) = None"
  by (simp_all add: sample_query_def)

lemma query_ok_samples [simp]:
  "query_ok (sample_query k t c)" "query_ok (assigned_row now w (sample_query k t c))"
  by (auto intro: query_ok_intros)

lemma query_ok_completed [simp]: "terminal st \<Longrightarrow> query_ok (completed_row now st e n q)"
  by (rule query_ok_intros(3)) simp_all

text \<open>One worker with room, one pending query; and the same with the query running on it.\<close>

definition idle_db :: database where
  "idle_db = sample_db [sample_worker 7 2 0] [sample_query 100 1 (Some 1)]"

definition busy_db :: database where
  "busy_db = sample_db [sample_worker 7 2 0] [assigned_row 2 7 (sample_query 100 1 (Some 1))]"

lemma idle_db_wf: "store_wf idle_db"
  by (simp add: store_wf_def idle_db_def pk_def)

lemma busy_db_wf: "store_wf busy_db"
  by (simp add: store_wf_def busy_db_def pk_def)

section \<open>The invariant and the life cycle\<close>

text \<open>C1. The store invariant. Whatever the order of the coordinator's database operations, worker
  and query ids stay unique, every query's worker and user exist, and each row is in order: a
  pending query has no worker and no start, a running one has both and no completion, a finished
  one has a completion instant, and no other status occurs.\<close>

theorem store_invariant:
  assumes "store_wf d" and "\<forall>op\<in>set ops. valid_op op"
  shows "store_wf (run_ops ops d)"
  unfolding run_ops_def using assms by (rule store.run_inv)

theorem store_invariant_witness:
  "store_wf (run_ops [OpRegister 1 0 (Some 7) ''http://w:8001'' 4 1024 2048 2, OpReady 5 7,
     OpCreate 100 6 ''SELECT 1'' (Some 1) None None None, OpClaimNext 20 20 30,
     OpComplete 30 100 ''completed'' None (Some 1), OpSweep 100 1] (empty_db 8000))"
  by (rule store_invariant) (simp_all add: store_wf_empty)

text \<open>C3. Finished queries are frozen. Once a query is completed, failed or cancelled, no sequence of
  operations changes any column of its row: a late completion, cancellation, sweep, revert or
  claim leaves it alone.\<close>

theorem finished_queries_frozen:
  assumes "store_wf d" and "\<forall>op\<in>set ops. valid_op op"
    and "query_of k d = Some q" and "terminal (q_status q)"
  shows "query_of k (run_ops ops d) = Some q"
  unfolding run_ops_def using finished.run_fact [of d ops k q] assms by simp

theorem finished_queries_frozen_witness:
  "let q = completed_row 3 ''failed'' (Some ''boom'') None (assigned_row 2 7 (sample_query 100 1 None));
       d = sample_db [sample_worker 7 2 0] [q]
   in query_of 100 (run_ops [OpComplete 4 100 ''completed'' None (Some 5), OpCancel 5 100 None,
        OpUnreachable 7, OpRevert 100, OpClaimById 6 6 100 30] d) = Some q"
proof -
  let ?q = "completed_row 3 ''failed'' (Some ''boom'') None (assigned_row 2 7 (sample_query 100 1 None))"
  have "store_wf (sample_db [sample_worker 7 2 0] [?q])"
    by (simp add: store_wf_def pk_def)
  then show ?thesis
    unfolding Let_def by (rule finished_queries_frozen) (simp_all add: row_of_Cons)
qed

text \<open>C2. The store implements the life cycle. Seen as a board from query ids to statuses, every run of
  operations is a run of the abstract machine on which queries appear as pending and move only
  from pending to running, from running back to pending, and from either to a terminal status.\<close>

theorem life_cycle_refinement:
  assumes "store_wf d" and "\<forall>op\<in>set ops. valid_op op"
  shows "board_step\<^sup>*\<^sup>* (board_of d) (board_of (run_ops ops d))"
  unfolding run_ops_def using assms by (rule board.run_refines)

theorem life_cycle_refinement_witness:
  "board_step\<^sup>*\<^sup>* (board_of busy_db)
     (board_of (run_ops [OpUnreachable 7, OpComplete 9 100 ''completed'' None None] busy_db))"
  by (rule life_cycle_refinement) (simp_all add: busy_db_wf)

section \<open>Claims\<close>

text \<open>C4. What a claim guarantees. When the scheduler's claim returns a row, the query was pending and
  none pending was older; it now runs on a worker that is running, has a recent heartbeat, and
  within whose limits all its running queries stay, the new one included; no fitting worker had
  fewer running queries; the loads of the other workers are as before; and the returned row
  carries the query's text and requests and the worker's endpoint.\<close>

theorem claim_guarantee:
  assumes "store_wf d" and "130 \<le> payload_limit d"
    and "claim_pending_query utc now stale d = (d', Inr (Some c))"
  shows "\<exists>p w. query_of (c_query_id c) d = Some p \<and> q_status p = ''pending'' \<and>
      (\<forall>q\<in>set (queries d). q_status q = ''pending'' \<longrightarrow> q_created_at p \<le> q_created_at q) \<and>
      query_of (c_query_id c) d' = Some (assigned_row now (c_worker_id c) p) \<and>
      worker_of (c_worker_id c) d = Some w \<and> w_status w = ''running'' \<and>
      utc - stale * second \<le> w_last_heartbeat_at w \<and>
      within_capacity d' p w \<and>
      (\<forall>v\<in>set (workers d).
         worker_fits (utc - stale * second) (q_cpus p) (q_memory p) (q_disk_space p) d v \<longrightarrow>
         load_queries (w_id w) d \<le> load_queries (w_id v) d) \<and>
      (\<forall>v. v \<noteq> w_id w \<longrightarrow> load_queries v d' = load_queries v d) \<and>
      c_query c = q_query p \<and> c_cpus c = q_cpus p \<and> c_memory c = q_memory p \<and>
      c_disk_space c = q_disk_space p \<and> c_endpoint c = w_endpoint w"
proof (cases rule: claim_pending_cases [of d utc now stale])
  case none
  with assms(3) show ?thesis by simp
next
  case (some p)
  let ?cut = "utc - stale * second"
  from claim_result [OF assms(1,2) some(1,2), of ?cut now] assms(3) some(4)
  obtain w where w: "worker_for_query ?cut (q_cpus p) (q_memory p) (q_disk_space p) d = Some w"
    and as: "assigns now ?cut d p w d'" and c: "claimed_join (q_id p) d' = Some c"
    by auto
  note pks = store_wf_pk [OF assms(1)]
  have c_eq: "c = \<lparr>c_query_id = q_id p, c_query = q_query p, c_cpus = q_cpus p,
      c_memory = q_memory p, c_disk_space = q_disk_space p, c_worker_id = w_id w,
      c_endpoint = w_endpoint w\<rparr>"
    using c claimed_join_assigned [OF assms(1) as] by simp
  have p_of: "query_of (q_id p) d = Some p"
    using pks(1) some(1) by (simp add: row_of_iff)
  have w_of: "worker_of (w_id w) d = Some w"
    using pks(2) as by (simp add: row_of_iff assigns_def)
  have d'_of: "query_of (q_id p) d' = Some (assigned_row now (w_id w) p)"
    using as p_of by (auto simp: assigns_def row_of_update)
  have fits: "worker_fits ?cut (q_cpus p) (q_memory p) (q_disk_space p) d w"
    using as by (simp add: assigns_def)
  have least: "load_queries (w_id w) d \<le> load_queries (w_id v) d"
    if "v \<in> set (workers d)" "worker_fits ?cut (q_cpus p) (q_memory p) (q_disk_space p) d v" for v
    using worker_for_query_least [OF w that] by auto
  show ?thesis
    using some(2,3) p_of w_of d'_of fits least assigns_within_capacity [OF pks(1) as]
      load_assigned(3) [OF pks(1) as]
    by (intro exI [of _ p] exI [of _ w]) (simp add: c_eq worker_fits_def)
qed

text \<open>The claim on the idle database, computed.\<close>

lemma idle_claim:
  "\<exists>d'. claim_pending_query 20 20 30 idle_db =
    (d', Inr (Some \<lparr>c_query_id = 100, c_query = ''SELECT 1'', c_cpus = Some 1, c_memory = None,
       c_disk_space = None, c_worker_id = 7, c_endpoint = ''http://w:8001/''\<rparr>))"
  by (simp add: claim_pending_query_def claim_query_def idle_db_def order_by_def
      worker_for_query_def worker_fits_def load_queries_def load_sum_def load_rows_def fits_in_def
      second_def notify_fixed_succeeds in_transaction_def claimed_join_def sql_update_def
      sample_query_def sample_worker_def assigned_row_def Let_def)

theorem claim_guarantee_witness:
  "\<exists>d' c p w. claim_pending_query 20 20 30 idle_db = (d', Inr (Some c)) \<and>
     query_of (c_query_id c) idle_db = Some p \<and> worker_of (c_worker_id c) idle_db = Some w \<and>
     within_capacity d' p w"
proof -
  obtain d' c where c: "claim_pending_query 20 20 30 idle_db = (d', Inr (Some c))"
    using idle_claim by blast
  have "130 \<le> payload_limit idle_db"
    by (simp add: idle_db_def)
  from claim_guarantee [OF idle_db_wf this c] c show ?thesis
    by blast
qed

lemma claim_finds_nothing_all:
  assumes "store_wf d" and "130 \<le> payload_limit d"
  shows "(\<exists>r. snd (claim_pending_query utc now stale d) = Inr r) \<and>
    (snd (claim_pending_query utc now stale d) = Inr None \<longleftrightarrow>
      (case fetchrow (order_by q_created_at (filter (\<lambda>q. q_status q = ''pending'') (queries d))) of
         None \<Rightarrow> True
       | Some p \<Rightarrow> \<forall>w\<in>set (workers d).
           \<not> worker_fits (utc - stale * second) (q_cpus p) (q_memory p) (q_disk_space p) d w)) \<and>
    (snd (claim_pending_query utc now stale d) = Inr None \<longrightarrow>
      fst (claim_pending_query utc now stale d) = d)"
proof (cases "fetchrow (order_by q_created_at (filter (\<lambda>q. q_status q = ''pending'') (queries d)))")
  case None
  then show ?thesis by (simp add: claim_pending_query_def in_transaction_def)
next
  case (Some p)
  have p: "p \<in> set (queries d)" "q_status p = ''pending''"
    using fetchrow_order_by(1) [OF Some] by simp_all
  have eq: "claim_pending_query utc now stale d =
      in_transaction d (claim_query now p (utc - stale * second) d)"
    using Some by (simp add: claim_pending_query_def)
  have none: "worker_for_query (utc - stale * second) (q_cpus p) (q_memory p) (q_disk_space p) d = None
    \<longleftrightarrow> (\<forall>w\<in>set (workers d).
           \<not> worker_fits (utc - stale * second) (q_cpus p) (q_memory p) (q_disk_space p) d w)"
    by (rule worker_for_query_None)
  from claim_result [OF assms p, of "utc - stale * second" now] show ?thesis
    unfolding eq Some option.case none [symmetric] by (elim disjE exE conjE) simp_all
qed

lemma claim_finds_nothing:
  assumes "store_wf d" and "130 \<le> payload_limit d"
  shows "snd (claim_pending_query utc now stale d) = Inr None \<longleftrightarrow>
      (case fetchrow (order_by q_created_at (filter (\<lambda>q. q_status q = ''pending'') (queries d))) of
         None \<Rightarrow> True
       | Some p \<Rightarrow> \<forall>w\<in>set (workers d).
           \<not> worker_fits (utc - stale * second) (q_cpus p) (q_memory p) (q_disk_space p) d w)"
  using claim_finds_nothing_all [OF assms] by blast

text \<open>When a claim finds nothing. On a server that accepts the fixed notifications, the scheduler's
  claim never raises; it returns nothing exactly when no query is pending or no worker fits the
  oldest pending one, and then it changes nothing. So a fitting worker is never left idle in front
  of the oldest query.\<close>

theorem claim_finds_nothing_iff:
  assumes "store_wf d" and "130 \<le> payload_limit d"
  shows "(\<exists>r. snd (claim_pending_query utc now stale d) = Inr r) \<and>
    (snd (claim_pending_query utc now stale d) = Inr None \<longleftrightarrow>
      (case fetchrow (order_by q_created_at (filter (\<lambda>q. q_status q = ''pending'') (queries d))) of
         None \<Rightarrow> True
       | Some p \<Rightarrow> \<forall>w\<in>set (workers d).
           \<not> worker_fits (utc - stale * second) (q_cpus p) (q_memory p) (q_disk_space p) d w)) \<and>
    (snd (claim_pending_query utc now stale d) = Inr None \<longrightarrow>
      fst (claim_pending_query utc now stale d) = d)"
  using assms by (rule claim_finds_nothing_all)

theorem claim_finds_nothing_iff_witness:
  "snd (claim_pending_query 20 20 30 (sample_db [sample_worker 7 2 0] [sample_query 100 1 (Some 5)]))
    = Inr None"
proof -
  let ?d = "sample_db [sample_worker 7 2 0] [sample_query 100 1 (Some 5)]"
  have "store_wf ?d"
    by (simp add: store_wf_def pk_def)
  from claim_finds_nothing_iff [OF this, of 20 20 30] show ?thesis
    by (simp add: order_by_def worker_fits_def fits_in_def load_sum_def load_rows_def second_def)
qed

section \<open>Completion\<close>

lemma complete_query_result:
  assumes wf: "store_wf b" and len: "length (json_dumps (notify_payload k st e n)) < payload_limit b"
  shows "snd (complete_query t k st e n b) = Inr (\<exists>q. query_of k b = Some q \<and>
      (q_status q = ''pending'' \<or> q_status q = ''running'' \<or> q_status q = st))"
proof -
  let ?cond = "\<lambda>q. q_id q = k \<and> (q_status q = ''running'' \<or> q_status q = ''pending'')"
  have pk: "pk q_id (queries b)" using wf by (rule store_wf_pk)
  have set: "(q_status q \<in> {''running'', ''pending''}) =
      (q_status q = ''running'' \<or> q_status q = ''pending'')" for q by simp
  have aff: "affected_one ''UPDATE'' (count_where ?cond (queries b)) \<longleftrightarrow>
      (\<exists>q. query_of k b = Some q \<and> (q_status q = ''running'' \<or> q_status q = ''pending''))"
    unfolding affected_one_key [OF pk] using row_of_iff [OF pk] by blast
  have ann: "notify_query_status k st e n d' = Inr (d'\<lparr>channel := channel d' @
      [json_dumps (notify_payload k st e n)]\<rparr>)" if "payload_limit d' = payload_limit b" for d'
    using len that by (simp add: notify_query_status_def)
  have old: "fetchrow (filter (\<lambda>q. q_id q = k) (sql_update ?cond (completed_row t st e n) (queries b)))
      = map_option (\<lambda>q. if ?cond q then completed_row t st e n q else q) (query_of k b)"
    using row_of_update [of q_id "completed_row t st e n" k ?cond "queries b"]
    by (simp add: row_of_def)
  show ?thesis
  proof (cases "query_of k b")
    case None
    then show ?thesis
      unfolding complete_query_def Let_def set aff by (simp add: old)
  next
    case (Some q)
    then have "q_id q = k" by (simp add: row_of_iff [OF pk])
    with Some show ?thesis
      unfolding complete_query_def Let_def set aff by (auto simp: old ann)
  qed
qed

text \<open>C24. Completion. The callback of a worker is acknowledged exactly when the query exists and is
  still active or already has the reported status; so a worker that repeats the callback of a
  finished query is acknowledged again, and the repetition changes no row.\<close>

theorem completion_acknowledged:
  assumes "store_wf d" and "length (json_dumps (notify_payload k st e n)) < payload_limit d"
    and "terminal st"
  shows "let (d1, r) = complete_query now k st e n d; (d2, r') = complete_query later k st e n d1
     in r = Inr (\<exists>q. query_of k d = Some q \<and>
          (q_status q = ''pending'' \<or> q_status q = ''running'' \<or> q_status q = st)) \<and>
        r' = r \<and> queries d2 = queries d1"
proof -
  let ?d1 = "fst (complete_query now k st e n d)"
  have wf: "store_wf ?d1"
    using store_wf_apply_op [OF assms(1), of "OpComplete now k st e n"] assms(3) by simp
  have lim: "payload_limit ?d1 = payload_limit d"
    by (simp add: frame_finish)
  let ?f = "\<lambda>q. if q_id q = k \<and> q_status q \<in> {''running'', ''pending''}
     then completed_row now st e n q else q"
  have "query_of k ?d1 = map_option ?f (query_of k d)"
    unfolding queries_complete by (rule row_of_update) simp
  moreover have key: "query_of k d = Some q \<Longrightarrow> q_id q = k" for q
    using row_of_iff [OF store_wf_pk(1) [OF assms(1)]] by simp
  ultimately have same: "(\<exists>q. query_of k ?d1 = Some q \<and>
          (q_status q = ''pending'' \<or> q_status q = ''running'' \<or> q_status q = st)) \<longleftrightarrow>
        (\<exists>q. query_of k d = Some q \<and>
          (q_status q = ''pending'' \<or> q_status q = ''running'' \<or> q_status q = st))"
    using key by (cases "query_of k d") (simp_all split: if_splits)
  have "queries (fst (complete_query later k st e n ?d1)) = queries ?d1"
    unfolding queries_complete [of later k st e n ?d1]
  proof (rule update_id)
    fix r assume "r \<in> set (queries ?d1)"
    then obtain q where "r = ?f q"
      unfolding queries_complete sql_update_def by (auto simp only: set_map)
    then show "\<not> (q_id r = k \<and> q_status r \<in> {''running'', ''pending''})"
      using assms(3) by (cases "q_id q = k \<and> q_status q \<in> {''running'', ''pending''}")
        (auto simp: terminal_def)
  qed
  then show ?thesis
    using complete_query_result [OF assms(1,2), of now] complete_query_result [OF wf, of k st e n later]
      assms(2) lim same
    by (simp add: case_prod_beta Let_def)
qed

theorem completion_acknowledged_witness:
  "snd (complete_query 9 100 ''completed'' None None busy_db) = Inr True \<and>
   snd (complete_query 10 100 ''completed'' None None
     (fst (complete_query 9 100 ''completed'' None None busy_db))) = Inr True"
proof -
  have len: "length (json_dumps (notify_payload 100 ''completed'' None None)) < payload_limit busy_db"
    by (simp add: notify_payload_def json_dumps_def dump_str_uuid busy_db_def)
       (simp add: dump_string_def escape_char_def code_def)
  show ?thesis
    using completion_acknowledged [OF busy_db_wf len, of 9 10]
    by (simp add: case_prod_beta Let_def busy_db_def row_of_Cons)
qed

end
