(* ===== verification/Store_Recovery.thy ===== *)
theory Store_Recovery
  imports Store_Properties
begin

text \<open>
  Recovery and announcement in \<^verbatim>\<open>db/queries.py\<close>: what happens to the queries of a worker that is
  reported unreachable or stops sending heartbeats, which status changes reach the notification
  channel, and three behaviours of the recovery that the code does not intend: an error text that
  outlives the recovery, the queries of a worker that restarts, and a notification that is too
  long for the server.
\<close>

section \<open>Row-wise effects\<close>

lemma notify_lost_succeeds:
  assumes "130 \<le> payload_limit d"
  shows "\<exists>d'. notify_reverted (returning cond lost_row qs) d = Inr d'"
  by (rule notify_reverted_succeeds [OF assms]) (auto simp: returning_def lost_row_def)

lemma unreachable_effect:
  assumes "pk w_id (workers d)" and "130 \<le> payload_limit d" and "worker_of k d = Some w"
    and "w_status w = ''running'' \<or> w_status w = ''shutting_down''"
  shows "snd (mark_worker_unreachable k d) = Inr ()"
    and "workers (fst (mark_worker_unreachable k d)) =
      sql_update (\<lambda>w. w_id w = k \<and> w_status w \<in> {''running'', ''shutting_down''})
        (\<lambda>w. w\<lparr>w_status := ''unreachable''\<rparr>) (workers d)"
    and "queries (fst (mark_worker_unreachable k d)) =
      sql_update (\<lambda>q. q_worker_id q = Some k \<and> q_status q = ''running'') lost_row (queries d)"
proof -
  let ?wcond = "\<lambda>w. w_id w = k \<and> w_status w \<in> {''running'', ''shutting_down''}"
  let ?qcond = "\<lambda>q. q_worker_id q = Some k \<and> q_status q = ''running''"
  have "w \<in> set (workers d)" "w_id w = k"
    using assms(3) row_of_iff [OF assms(1)] by auto
  with assms(4) have hit: "affected_one ''UPDATE'' (count_where ?wcond (workers d))"
    unfolding affected_one_key [OF assms(1)] by auto
  let ?d1 = "d\<lparr>workers := sql_update ?wcond (\<lambda>w. w\<lparr>w_status := ''unreachable''\<rparr>) (workers d)\<rparr>"
  let ?d2 = "?d1\<lparr>queries := sql_update ?qcond lost_row (queries d)\<rparr>"
  have "130 \<le> payload_limit ?d2" using assms(2) by simp
  from notify_lost_succeeds [OF this, of ?qcond "queries d"]
  obtain d' where d': "notify_reverted (returning ?qcond lost_row (queries d)) ?d2 = Inr d'" ..
  then have eq: "mark_worker_unreachable k d = (d', Inr ())"
    unfolding mark_worker_unreachable_def Let_def using hit by simp
  show "snd (mark_worker_unreachable k d) = Inr ()"
    and "workers (fst (mark_worker_unreachable k d)) =
      sql_update ?wcond (\<lambda>w. w\<lparr>w_status := ''unreachable''\<rparr>) (workers d)"
    and "queries (fst (mark_worker_unreachable k d)) = sql_update ?qcond lost_row (queries d)"
    using notify_reverted_Inr [OF d'] by (simp_all add: eq)
qed

lemma sweep_effect:
  assumes "130 \<le> payload_limit d"
  shows "snd (sweep_stale_workers utc stale d) = Inr ()"
    and "workers (fst (sweep_stale_workers utc stale d)) =
      sql_update (is_stale (utc - stale * second)) (\<lambda>w. w\<lparr>w_status := ''stopped''\<rparr>) (workers d)"
    and "queries (fst (sweep_stale_workers utc stale d)) =
      sql_update (lost_in_sweep (utc - stale * second) d) lost_row (queries d)"
proof -
  let ?cut = "utc - stale * second"
  let ?stop = "\<lambda>w. w\<lparr>w_status := ''stopped''\<rparr>"
  let ?ids = "map w_id (returning (is_stale ?cut) ?stop (workers d))"
  have ids: "set ?ids = w_id ` {w \<in> set (workers d). is_stale ?cut w}"
    by (force simp: returning_def)
  have cond: "(\<lambda>q. q_worker_id q \<in> Some ` set ?ids \<and> q_status q = ''running'') = lost_in_sweep ?cut d"
    unfolding ids lost_in_sweep_def by auto
  have all: "snd (sweep_stale_workers utc stale d) = Inr () \<and>
    workers (fst (sweep_stale_workers utc stale d)) = sql_update (is_stale ?cut) ?stop (workers d) \<and>
    queries (fst (sweep_stale_workers utc stale d)) = sql_update (lost_in_sweep ?cut d) lost_row (queries d)"
  proof (cases "returning (is_stale ?cut) ?stop (workers d) = []")
    case True
    then have "\<And>w. w \<in> set (workers d) \<Longrightarrow> \<not> is_stale ?cut w"
      using ids by auto
    with True show ?thesis
      by (auto simp: sweep_stale_workers_def Let_def lost_in_sweep_def intro!: update_id [symmetric])
  next
    case False
    let ?d2 = "d\<lparr>workers := sql_update (is_stale ?cut) ?stop (workers d),
      queries := sql_update (lost_in_sweep ?cut d) lost_row (queries d)\<rparr>"
    have "130 \<le> payload_limit ?d2" using assms by simp
    from notify_lost_succeeds [OF this, of "lost_in_sweep ?cut d" "queries d"]
    obtain d' where d': "notify_reverted (returning (lost_in_sweep ?cut d) lost_row (queries d)) ?d2
        = Inr d'" ..
    then have eq: "sweep_stale_workers utc stale d = (d', Inr ())"
      unfolding sweep_stale_workers_def Let_def cond using False by simp
    show ?thesis
      using notify_reverted_Inr [OF d'] by (simp add: eq)
  qed
  then show "snd (sweep_stale_workers utc stale d) = Inr ()"
    and "workers (fst (sweep_stale_workers utc stale d)) =
      sql_update (is_stale ?cut) ?stop (workers d)"
    and "queries (fst (sweep_stale_workers utc stale d)) =
      sql_update (lost_in_sweep ?cut d) lost_row (queries d)"
    by blast+
qed

section \<open>Lost workers\<close>

text \<open>A worker reported unreachable. If the worker was running or shutting down, its row says
  unreachable afterwards, each of its running queries is pending again without worker and start
  and with the error text, and every other query and worker is as before.\<close>

theorem unreachable_requeues:
  assumes "store_wf d" and "130 \<le> payload_limit d" and "worker_of k d = Some w"
    and "w_status w = ''running'' \<or> w_status w = ''shutting_down''"
  shows "let d' = fst (mark_worker_unreachable k d) in
    worker_of k d' = Some (w\<lparr>w_status := ''unreachable''\<rparr>) \<and>
    (\<forall>i. i \<noteq> k \<longrightarrow> worker_of i d' = worker_of i d) \<and>
    (\<forall>i. query_of i d' = (case query_of i d of
         None \<Rightarrow> None
       | Some q \<Rightarrow> if q_status q = ''running'' \<and> q_worker_id q = Some k
           then Some (q\<lparr>q_status := ''pending'', q_worker_id := None, q_started_at := None,
                       q_error := Some ''Worker became unreachable''\<rparr>)
           else Some q))"
proof -
  note pkw = store_wf_pk(2) [OF assms(1)]
  note eff = unreachable_effect [OF pkw assms(2,3,4)]
  have w: "w_id w = k" using assms(3) row_of_iff [OF pkw] by simp
  have upd: "worker_of i (fst (mark_worker_unreachable k d)) =
      map_option (\<lambda>r. if w_id r = k \<and> w_status r \<in> {''running'', ''shutting_down''}
         then r\<lparr>w_status := ''unreachable''\<rparr> else r) (worker_of i d)" for i
    unfolding eff(2) by (rule row_of_update) simp
  have key: "worker_of i d = Some r \<Longrightarrow> w_id r = i" for i r
    using row_of_iff [OF pkw] by simp
  have other: "worker_of i (fst (mark_worker_unreachable k d)) = worker_of i d" if "i \<noteq> k" for i
    using that by (cases "worker_of i d") (simp_all add: upd key)
  have q: "query_of i (fst (mark_worker_unreachable k d)) =
      map_option (\<lambda>q. if q_worker_id q = Some k \<and> q_status q = ''running'' then lost_row q else q)
        (query_of i d)" for i
    unfolding eff(3) by (rule row_of_update) simp
  have qi: "query_of i (fst (mark_worker_unreachable k d)) = (case query_of i d of
         None \<Rightarrow> None
       | Some q \<Rightarrow> if q_status q = ''running'' \<and> q_worker_id q = Some k
           then Some (q\<lparr>q_status := ''pending'', q_worker_id := None, q_started_at := None,
                       q_error := Some ''Worker became unreachable''\<rparr>)
           else Some q)" for i
    unfolding q by (cases "query_of i d") (auto simp: lost_row_def)
  show ?thesis
    unfolding Let_def using upd [of k] assms(3,4) w other qi by auto
qed

theorem unreachable_requeues_witness:
  "query_of 100 (fst (mark_worker_unreachable 7 busy_db)) =
     Some ((sample_query 100 1 (Some 1))\<lparr>q_error := Some ''Worker became unreachable''\<rparr>)"
  using unreachable_requeues [OF busy_db_wf, of 7 "sample_worker 7 2 0"]
  by (simp add: busy_db_def row_of_Cons Let_def assigned_row_def sample_query_def)

text \<open>C25. The sweep. It stops every worker in use whose last heartbeat is before the cutoff and no
  other, puts exactly the running queries of those workers back to pending with the error text,
  and leaves every other query as it was.\<close>

theorem sweep_requeues:
  assumes "store_wf d" and "130 \<le> payload_limit d"
  shows "let d' = fst (sweep_stale_workers utc stale d);
      is_lost = (\<lambda>k. \<exists>w. worker_of k d = Some w \<and>
         (w_status w = ''running'' \<or> w_status w = ''shutting_down'' \<or> w_status w = ''unreachable'') \<and>
         w_last_heartbeat_at w < utc - stale * second)
    in (\<forall>k. worker_of k d' = map_option (\<lambda>w. if is_lost k then w\<lparr>w_status := ''stopped''\<rparr> else w)
                            (worker_of k d)) \<and>
       (\<forall>i. query_of i d' = map_option (\<lambda>q.
            if q_status q = ''running'' \<and> (\<exists>k. q_worker_id q = Some k \<and> is_lost k)
            then q\<lparr>q_status := ''pending'', q_worker_id := None, q_started_at := None,
                   q_error := Some ''Worker became unreachable''\<rparr>
            else q) (query_of i d))"
proof -
  let ?cut = "utc - stale * second"
  let ?lost = "\<lambda>k. \<exists>w. worker_of k d = Some w \<and>
     (w_status w = ''running'' \<or> w_status w = ''shutting_down'' \<or> w_status w = ''unreachable'') \<and>
     w_last_heartbeat_at w < ?cut"
  note pkw = store_wf_pk(2) [OF assms(1)]
  note eff = sweep_effect [OF assms(2), of utc stale]
  have lost: "?lost k \<longleftrightarrow> (\<exists>w\<in>set (workers d). w_id w = k \<and> is_stale ?cut w)" for k
    unfolding row_of_iff [OF pkw] is_stale_def by blast
  have "is_stale ?cut w \<longleftrightarrow> ?lost k" if "worker_of k d = Some w" for k w
    using that by (simp add: is_stale_def)
  moreover have "worker_of k (fst (sweep_stale_workers utc stale d)) =
      map_option (\<lambda>w. if is_stale ?cut w then w\<lparr>w_status := ''stopped''\<rparr> else w) (worker_of k d)" for k
    unfolding eff(2) by (rule row_of_update) simp
  ultimately have ws: "worker_of k (fst (sweep_stale_workers utc stale d)) =
      map_option (\<lambda>w. if ?lost k then w\<lparr>w_status := ''stopped''\<rparr> else w) (worker_of k d)" for k
    by (cases "worker_of k d") simp_all
  have cond: "lost_in_sweep ?cut d q \<longleftrightarrow> q_status q = ''running'' \<and> (\<exists>k. q_worker_id q = Some k \<and> ?lost k)"
    for q
    unfolding lost_in_sweep_def lost by auto
  have qs: "query_of i (fst (sweep_stale_workers utc stale d)) =
      map_option (\<lambda>q. if lost_in_sweep ?cut d q then lost_row q else q) (query_of i d)" for i
    unfolding eff(3) by (rule row_of_update) simp
  show ?thesis
    unfolding Let_def using ws qs [unfolded cond lost_row_def] by blast
qed

theorem sweep_requeues_witness:
  "query_of 100 (fst (sweep_stale_workers (31 * second) 30 busy_db)) =
     Some ((sample_query 100 1 (Some 1))\<lparr>q_error := Some ''Worker became unreachable''\<rparr>) \<and>
   query_of 100 (fst (sweep_stale_workers (30 * second) 30 busy_db)) = query_of 100 busy_db"
  using sweep_requeues [OF busy_db_wf, of "31 * second" 30]
    sweep_requeues [OF busy_db_wf, of "30 * second" 30]
  by (simp add: busy_db_def row_of_Cons Let_def assigned_row_def sample_query_def second_def)

section \<open>Announcements\<close>

text \<open>Whether the Python function raises.\<close>

fun op_raises :: "store_op \<Rightarrow> database \<Rightarrow> bool" where
  "op_raises (OpUnreachable wid) d = isl (snd (mark_worker_unreachable wid d))"
| "op_raises (OpSweep utc stale) d = isl (snd (sweep_stale_workers utc stale d))"
| "op_raises (OpCreate fr now q c m s u) d = isl (snd (create_query fr now q c m s u d))"
| "op_raises (OpComplete now qid st e n) d = isl (snd (complete_query now qid st e n d))"
| "op_raises (OpCancel now qid e) d = isl (snd (mark_query_cancelled now qid e d))"
| "op_raises (OpRevert qid) d = isl (snd (revert_query_to_pending qid d))"
| "op_raises (OpClaimNext utc now stale) d = isl (snd (claim_pending_query utc now stale d))"
| "op_raises (OpClaimById utc now qid stale) d = isl (snd (claim_query_by_id utc now qid stale d))"
| "op_raises op d = False"

definition announced :: "uuid \<Rightarrow> string \<Rightarrow> database \<Rightarrow> database \<Rightarrow> bool" where
  "announced k st d d' \<longleftrightarrow>
     (\<exists>e n. json_dumps (notify_payload k st e n) \<in> set (drop (length (channel d)) (channel d')))"

lemma announcedI:
  "channel d' = channel d @ ts \<Longrightarrow> json_dumps (notify_payload k st e n) \<in> set ts \<Longrightarrow> announced k st d d'"
  by (auto simp: announced_def)

lemma announce_update:
  assumes "pk q_id (queries d)"
    and qs: "queries d' = sql_update cond upd (queries d)" and upd: "\<And>q. q_id (upd q) = q_id q"
    and "query_of k d = Some q" "query_of k d' = Some q'" "q_status q' \<noteq> q_status q"
  shows "cond q" "q' = upd q" "q_id q = k" "q \<in> set (queries d)"
proof -
  have "query_of k d' = map_option (\<lambda>q. if cond q then upd q else q) (query_of k d)"
    unfolding qs by (rule row_of_update) (rule upd)
  with assms(4-6) show "cond q" "q' = upd q"
    by (auto split: if_splits)
  show "q_id q = k" "q \<in> set (queries d)"
    using assms(4) row_of_iff [OF assms(1)] by auto
qed

lemma announce_complete:
  assumes "pk q_id (queries d)" and "\<not> isl (snd (complete_query now qid st e n d))"
    and "query_of k d = Some q" and "query_of k (fst (complete_query now qid st e n d)) = Some q'"
    and "q_status q' \<noteq> q_status q"
  shows "announced k (q_status q') d (fst (complete_query now qid st e n d))"
proof -
  let ?cond = "\<lambda>q. q_id q = qid \<and> q_status q \<in> {''running'', ''pending''}"
  have up: "?cond q" "q' = completed_row now st e n q" "q_id q = k" "q \<in> set (queries d)"
    by (rule announce_update [OF assms(1) queries_complete _ assms(3-5)]; simp)+
  then have "affected_one ''UPDATE'' (count_where ?cond (queries d))"
    unfolding affected_one_key [OF assms(1)] by blast
  with assms(2) have "channel (fst (complete_query now qid st e n d)) = channel d @
      [json_dumps (notify_payload qid st e n)]"
    unfolding complete_query_def Let_def
    by (auto dest!: notify_query_status_Inr split: sum.splits)
  then show ?thesis
    using up by (auto intro: announcedI)
qed

lemma announce_cancel:
  assumes "pk q_id (queries d)" and "\<not> isl (snd (mark_query_cancelled now qid e d))"
    and "query_of k d = Some q" and "query_of k (fst (mark_query_cancelled now qid e d)) = Some q'"
    and "q_status q' \<noteq> q_status q"
  shows "announced k (q_status q') d (fst (mark_query_cancelled now qid e d))"
proof -
  let ?cond = "\<lambda>q. q_id q = qid \<and> q_status q \<in> {''pending'', ''running''}"
  have up: "?cond q" "q' = cancelled_row now e q" "q_id q = k" "q \<in> set (queries d)"
    by (rule announce_update [OF assms(1) queries_cancelled _ assms(3-5)]; simp)+
  then have "returning ?cond (cancelled_row now e) (queries d) \<noteq> []"
    by (auto simp: returning_def filter_empty_conv)
  then obtain r where "fetchrow (returning ?cond (cancelled_row now e) (queries d)) = Some r"
    by (cases "returning ?cond (cancelled_row now e) (queries d)") auto
  with assms(2) have "\<exists>err. channel (fst (mark_query_cancelled now qid e d)) = channel d @
      [json_dumps (notify_payload qid ''cancelled'' err None)]"
    unfolding mark_query_cancelled_def Let_def
    by (auto dest!: notify_query_status_Inr split: sum.splits)
  then show ?thesis
    using up by (auto intro: announcedI)
qed

lemma announce_revert:
  assumes "pk q_id (queries d)" and "\<not> isl (snd (revert_query_to_pending qid d))"
    and "query_of k d = Some q" and "query_of k (fst (revert_query_to_pending qid d)) = Some q'"
    and "q_status q' \<noteq> q_status q"
  shows "announced k (q_status q') d (fst (revert_query_to_pending qid d))"
proof -
  let ?cond = "\<lambda>q. q_id q = qid \<and> q_status q = ''running''"
  have up: "?cond q" "q' = requeued_row q" "q_id q = k" "q \<in> set (queries d)"
    by (rule announce_update [OF assms(1) queries_revert _ assms(3-5)]; simp)+
  then have "affected_one ''UPDATE'' (count_where ?cond (queries d))"
    unfolding affected_one_key [OF assms(1)] by blast
  with assms(2) have "channel (fst (revert_query_to_pending qid d)) = channel d @
      [json_dumps (notify_payload qid ''pending'' None None)]"
    unfolding revert_query_to_pending_def Let_def
    by (auto dest!: notify_query_status_Inr split: sum.splits)
  then show ?thesis
    using up by (auto intro: announcedI)
qed

text \<open>An update that requeues lost rows and sends one text for each of them.\<close>

lemma announce_lost:
  assumes "pk q_id (queries d)"
    and qs: "queries d' = sql_update cond lost_row (queries d)"
    and ch: "channel d' = channel d @ map (\<lambda>r. json_dumps (notify_payload (q_id r) ''pending'' (q_error r) None))
       (returning cond lost_row (queries d))"
    and "query_of k d = Some q" "query_of k d' = Some q'" "q_status q' \<noteq> q_status q"
  shows "announced k (q_status q') d d'"
proof -
  have up: "cond q" "q' = lost_row q" "q_id q = k" "q \<in> set (queries d)"
    by (rule announce_update [OF assms(1) qs _ assms(4-6)]; simp)+
  then have "lost_row q \<in> set (returning cond lost_row (queries d))"
    by (simp add: returning_def)
  then have "json_dumps (notify_payload k ''pending'' (q_error (lost_row q)) None) \<in>
      set (map (\<lambda>r. json_dumps (notify_payload (q_id r) ''pending'' (q_error r) None))
       (returning cond lost_row (queries d)))"
    using up(3) by force
  with announcedI [OF ch this] up(2) show ?thesis by simp
qed

lemma channel_unreachable:
  "queries (fst (mark_worker_unreachable wid d)) = queries d \<or>
   (let cond = (\<lambda>q. q_worker_id q = Some wid \<and> q_status q = ''running'') in
     queries (fst (mark_worker_unreachable wid d)) = sql_update cond lost_row (queries d) \<and>
     channel (fst (mark_worker_unreachable wid d)) = channel d @
       map (\<lambda>r. json_dumps (notify_payload (q_id r) ''pending'' (q_error r) None))
         (returning cond lost_row (queries d)))"
  by (auto simp: mark_worker_unreachable_def Let_def dest!: notify_reverted_Inr split: sum.splits)

lemma channel_sweep:
  "queries (fst (sweep_stale_workers utc stale d)) = queries d \<or>
   (let cond = lost_in_sweep (utc - stale * second) d in
     queries (fst (sweep_stale_workers utc stale d)) = sql_update cond lost_row (queries d) \<and>
     channel (fst (sweep_stale_workers utc stale d)) = channel d @
       map (\<lambda>r. json_dumps (notify_payload (q_id r) ''pending'' (q_error r) None))
         (returning cond lost_row (queries d)))"
proof -
  let ?c = "lost_in_sweep (utc - stale * second) d"
  let ?d' = "fst (sweep_stale_workers utc stale d)"
  have "queries ?d' = sql_update ?c lost_row (queries d)"
    if "?d' = d\<lparr>workers := ws, queries := sql_update ?c lost_row (queries d), channel := ch\<rparr>"
    for ws ch
    using arg_cong [OF that, of queries] by simp
  with sweep_result [of utc stale d] show ?thesis
    unfolding Let_def by (elim disjE conjE) (rule disjI1, simp, rule disjI2, rule conjI)
qed

lemma announce_assigns:
  assumes "pk q_id (queries d)" and a: "assigns now cutoff d p w d'"
    and "query_of k d = Some q" "query_of k d' = Some q'" "q_status q' \<noteq> q_status q"
  shows "announced k (q_status q') d d'"
proof -
  have qs: "queries d' = sql_update (\<lambda>q. q_id q = q_id p) (assigned_row now (w_id w)) (queries d)"
    and ch: "channel d' = channel d @ [json_dumps (notify_payload (q_id p) ''running'' None None)]"
    using a by (auto simp: assigns_def)
  have "q_id q = q_id p" "q' = assigned_row now (w_id w) q" "q_id q = k"
    by (rule announce_update [OF assms(1) qs _ assms(3-5)]; simp)+
  with ch show ?thesis
    by (auto intro: announcedI)
qed

lemma apply_op_announces:
  assumes pk: "pk q_id (queries d)" and ok: "\<not> op_raises op d"
    and q: "query_of k d = Some q" and q': "query_of k (apply_op op d) = Some q'"
    and ne: "q_status q' \<noteq> q_status q"
  shows "announced k (q_status q') d (apply_op op d)"
proof -
  have same: False if "queries (apply_op op d) = queries d"
    using that q q' ne by simp
  show ?thesis
  proof (cases op)
    case (OpUnreachable wid)
    then have eq: "apply_op op d = fst (mark_worker_unreachable wid d)" by simp
    from channel_unreachable [of wid d, unfolded Let_def, folded eq] show ?thesis
      by (elim disjE conjE) (erule same [THEN FalseE], rule announce_lost [OF pk _ _ q q' ne])
  next
    case (OpSweep utc stale)
    then have eq: "apply_op op d = fst (sweep_stale_workers utc stale d)" by simp
    from channel_sweep [of utc stale d, unfolded Let_def, folded eq] show ?thesis
      by (elim disjE conjE) (erule same [THEN FalseE], rule announce_lost [OF pk _ _ q q' ne])
  next
    case (OpCreate fr now qu c m s u)
    then have "queries (apply_op op d) = queries d \<or> (\<exists>r. queries (apply_op op d) = queries d @ [r])"
      by (auto simp: create_query_def sql_insert_def Let_def)
    then have "query_of k (apply_op op d) = Some q"
      using q by (auto simp: row_of_append)
    with q' ne show ?thesis by simp
  next
    case (OpComplete now qid st e n)
    then show ?thesis using announce_complete [OF pk] ok q q' ne by simp
  next
    case (OpCancel now qid e)
    then show ?thesis using announce_cancel [OF pk] ok q q' ne by simp
  next
    case (OpRevert qid)
    then show ?thesis using announce_revert [OF pk] ok q q' ne by simp
  next
    case (OpClaimNext utc now stale)
    then show ?thesis
      using claim_pending_effect [of utc now stale d] same announce_assigns [OF pk _ q q' ne] by auto
  next
    case (OpClaimById utc now qid stale)
    then show ?thesis
      using claim_by_id_effect [of utc now qid stale d] same announce_assigns [OF pk _ q q' ne] by auto
  qed (use same in simp_all)
qed

text \<open>C26. Announcement. When an operation of the store returns and has changed the status of a
  query, the texts it appended to the channel contain a message of that query with the new status.
  Listeners that apply messages in order therefore end at the status in the table.\<close>

theorem status_changes_announced:
  assumes "store_wf d" and "\<not> op_raises op d" and "query_of k d = Some q"
    and "query_of k (apply_op op d) = Some q'" and "q_status q' \<noteq> q_status q"
  shows "\<exists>error count. json_dumps (notify_payload k (q_status q') error count)
      \<in> set (drop (length (channel d)) (channel (apply_op op d)))"
  using apply_op_announces [OF store_wf_pk(1) [OF assms(1)] assms(2-5)] by (simp add: announced_def)

theorem status_changes_announced_witness:
  "\<exists>error count. json_dumps (notify_payload 100 ''pending'' error count)
      \<in> set (drop (length (channel busy_db)) (channel (apply_op (OpUnreachable 7) busy_db)))"
proof -
  have w: "worker_of 7 busy_db = Some (sample_worker 7 2 0)"
    by (simp add: busy_db_def row_of_Cons)
  note eff = unreachable_effect [OF store_wf_pk(2) [OF busy_db_wf] _ w]
  have "snd (mark_worker_unreachable 7 busy_db) = Inr ()"
    by (rule eff(1)) (simp_all add: busy_db_def)
  then have ok: "\<not> op_raises (OpUnreachable 7) busy_db"
    by simp
  have "queries (fst (mark_worker_unreachable 7 busy_db)) =
      sql_update (\<lambda>q. q_worker_id q = Some 7 \<and> q_status q = ''running'') lost_row (queries busy_db)"
    by (rule eff(3)) (simp_all add: busy_db_def)
  then have q': "query_of 100 (apply_op (OpUnreachable 7) busy_db) =
      Some (lost_row (assigned_row 2 7 (sample_query 100 1 (Some 1))))"
    by (simp add: busy_db_def row_of_Cons sql_update_def)
  have q: "query_of 100 busy_db = Some (assigned_row 2 7 (sample_query 100 1 (Some 1)))"
    by (simp add: busy_db_def row_of_Cons)
  from status_changes_announced [OF busy_db_wf ok q q'] show ?thesis
    by simp
qed

section \<open>What the recovery leaves behind\<close>

lemma row_evolves_error: "row_evolves W q q' \<Longrightarrow> q_error q \<noteq> None \<Longrightarrow> q_error q' \<noteq> None"
  by (elim row_evolves_cases)
     (auto simp: row_update_defs split: option.splits)

interpretation errors: machine_fact apply_op valid_op store_wf "\<lambda>_. True"
  "\<lambda>d. \<exists>q. query_of k d = Some q \<and> q_error q \<noteq> None" for k
  by unfold_locales (use apply_op_row row_evolves_error in blast)

text \<open>An error text is never cleared. Once a query has one, for instance because its worker was
  lost, it has one after every sequence of operations, also when another worker completes it
  without an error: the completed query then still reads \<^verbatim>\<open>Worker became unreachable\<close>.\<close>

theorem error_never_cleared:
  assumes "store_wf d" and "\<forall>op\<in>set ops. valid_op op"
    and "query_of k d = Some q" and "q_error q \<noteq> None"
  shows "\<exists>q'. query_of k (run_ops ops d) = Some q' \<and> q_error q' \<noteq> None"
  unfolding run_ops_def using errors.run_fact [of d ops k] assms by simp

definition recovered_db :: database where
  "recovered_db = sample_db [sample_worker 8 2 0]
     [assigned_row 5 8 (lost_row (assigned_row 2 7 (sample_query 100 1 (Some 1))))]"

theorem error_never_cleared_witness:
  "\<exists>q. query_of 100 (run_ops [OpComplete 9 100 ''completed'' None (Some 1)] recovered_db) = Some q \<and>
    q_status q = ''completed'' \<and> q_error q \<noteq> None"
proof -
  have wf: "store_wf recovered_db"
    by (simp add: store_wf_def pk_def recovered_db_def query_ok_def assigned_row_def lost_row_def
        sample_query_def)
  have q: "query_of 100 recovered_db =
      Some (assigned_row 5 8 (lost_row (assigned_row 2 7 (sample_query 100 1 (Some 1)))))"
    by (simp add: recovered_db_def row_of_Cons)
  have e: "q_error (assigned_row 5 8 (lost_row (assigned_row 2 7 (sample_query 100 1 (Some 1))))) \<noteq> None"
    by (simp add: lost_row_def assigned_row_def)
  let ?d = "run_ops [OpComplete 9 100 ''completed'' None (Some 1)] recovered_db"
  have "\<exists>q. query_of 100 ?d = Some q \<and> q_error q \<noteq> None"
    by (rule error_never_cleared [OF wf _ q e]) simp
  moreover have "query_of 100 ?d =
      Some (completed_row 9 ''completed'' None (Some 1)
        (assigned_row 5 8 (lost_row (assigned_row 2 7 (sample_query 100 1 (Some 1))))))"
    by (simp add: queries_complete recovered_db_def row_of_Cons sql_update_def)
  ultimately show ?thesis by simp
qed

text \<open>Operations during which one worker says nothing and one query is not finished or refused.\<close>

fun silent_about :: "uuid \<Rightarrow> uuid \<Rightarrow> store_op \<Rightarrow> bool" where
  "silent_about w k (OpHeartbeat now wid c m s st mu cu) = (wid \<noteq> w)"
| "silent_about w k (OpReady now wid) = (wid \<noteq> w)"
| "silent_about w k (OpComplete now qid st e n) = (qid \<noteq> k)"
| "silent_about w k (OpCancel now qid e) = (qid \<noteq> k)"
| "silent_about w k (OpRevert qid) = (qid \<noteq> k)"
| "silent_about w k op = True"

text \<open>A worker whose status neither the sweep nor the unreachable report looks for.\<close>

definition parked_status :: "string \<Rightarrow> bool" where
  "parked_status st \<longleftrightarrow> st \<in> {''initializing'', ''stopped''}"

lemma parked_status_simps [simp]:
  "parked_status ''initializing''" "parked_status ''stopped''" "\<not> parked_status ''running''"
  "\<not> parked_status ''shutting_down''" "\<not> parked_status ''unreachable''"
  by (simp_all add: parked_status_def)

definition parked :: "uuid \<Rightarrow> database \<Rightarrow> bool" where
  "parked w d \<longleftrightarrow> (\<exists>r. worker_of w d = Some r \<and> parked_status (w_status r))"

lemma parked_update:
  assumes ws: "workers d' = sql_update cond upd (workers d)" and "parked w d"
    and upd: "\<And>r. w_id (upd r) = w_id r"
    and keep: "\<And>r. worker_of w d = Some r \<Longrightarrow> cond r \<Longrightarrow> parked_status (w_status (upd r))"
  shows "parked w d'"
proof -
  have "worker_of w d' = map_option (\<lambda>r. if cond r then upd r else r) (worker_of w d)"
    unfolding ws by (rule row_of_update) (rule upd)
  moreover obtain r where "worker_of w d = Some r" "parked_status (w_status r)"
    using assms(2) by (auto simp: parked_def)
  ultimately show ?thesis
    using keep by (simp add: parked_def)
qed

lemma parked_apply_op:
  assumes i: "parked w d" and pkw: "pk w_id (workers d)" and s: "silent_about w k op"
  shows "parked w (apply_op op d)"
proof -
  have same: "parked w (apply_op op d)" if "workers (apply_op op d) = workers d"
    using i that by (simp add: parked_def)
  have st: "parked_status (w_status r)" "w_id r = w" if "worker_of w d = Some r" for r
    using i that row_of_iff [OF pkw] by (auto simp: parked_def)
  note upd = parked_update [OF _ i, where d' = "apply_op op d"]
  show ?thesis
  proof (cases op)
    case (OpRegister fr now wid ep c m sp mx)
    show ?thesis
    proof (cases rule: workers_register [of wid fr d now ep c m sp mx])
      case known
      then have "workers (apply_op op d) = sql_update (\<lambda>w. w_id w = coalesce wid fr)
          (registered_row now ep c m sp mx) (workers d)"
        using OpRegister by simp
      then show ?thesis by (rule upd) simp_all
    next
      case (fresh r)
      with OpRegister i show ?thesis by (auto simp: parked_def row_of_append)
    qed
  next
    case (OpHeartbeat now wid c m sp stt mu cu)
    then have "workers (apply_op op d) =
        sql_update (\<lambda>w. w_id w = wid) (heartbeat_row now c m sp stt mu cu) (workers d)"
      by (simp add: workers_heartbeat)
    then show ?thesis
      by (rule upd) (use OpHeartbeat s in \<open>auto dest: st(2)\<close>)
  next
    case (OpReady now wid)
    then have "workers (apply_op op d) = sql_update (\<lambda>w. w_id w = wid \<and> w_status w = ''initializing'')
        (\<lambda>w. w\<lparr>w_status := ''running'', w_last_heartbeat_at := now\<rparr>) (workers d)"
      by (simp add: workers_ready)
    then show ?thesis
      by (rule upd) (use OpReady s in \<open>auto dest: st(2)\<close>)
  next
    case (OpShutdown now wid)
    then have "workers (apply_op op d) = sql_update (\<lambda>w. w_id w = wid \<and> w_status w = ''running'')
        (\<lambda>w. w\<lparr>w_status := ''shutting_down'', w_last_heartbeat_at := now\<rparr>) (workers d)"
      by (simp add: workers_shutdown)
    then show ?thesis
      by (rule upd) (auto dest: st(1))
  next
    case (OpUnreachable wid)
    then have "workers (apply_op op d) = workers d \<or> workers (apply_op op d) =
        sql_update (\<lambda>w. w_id w = wid \<and> w_status w \<in> {''running'', ''shutting_down''})
          (\<lambda>w. w\<lparr>w_status := ''unreachable''\<rparr>) (workers d)"
      using workers_unreachable [of wid d] by simp
    then show ?thesis
      by (elim disjE) (rule same, assumption, rule upd, assumption, auto dest: st(1))
  next
    case (OpSweep utc stale)
    then have "workers (apply_op op d) = workers d \<or> workers (apply_op op d) =
        sql_update (is_stale (utc - stale * second)) (\<lambda>w. w\<lparr>w_status := ''stopped''\<rparr>) (workers d)"
      using workers_sweep [of utc stale d] by simp
    then show ?thesis
      by (elim disjE) (rule same, assumption, rule upd, assumption, auto simp: is_stale_def dest: st(1))
  qed (use same in \<open>simp_all add: frame_lemmas\<close>)
qed

lemma stranded_apply_op:
  assumes wf: "store_wf d" and i: "parked w d" and s: "silent_about w k op"
    and q: "query_of k d = Some q" "q_status q = ''running''" "q_worker_id q = Some w"
  shows "query_of k (apply_op op d) = Some q"
proof -
  note pk = store_wf_pk [OF wf]
  have qk: "q \<in> set (queries d)" "q_id q = k"
    using q(1) row_of_iff [OF pk(1)] by auto
  have upd: "query_of k (apply_op op d) = Some q"
    if "queries (apply_op op d) = sql_update cond f (queries d)" "\<And>q. q_id (f q) = q_id q" "\<not> cond q"
    for cond f
    unfolding that(1) using row_of_update [of q_id f k cond "queries d", OF that(2)] q(1) that(3) by simp
  have claim: "query_of k (apply_op op d) = Some q"
    if "assigns now cutoff d p v (apply_op op d)" for now cutoff p v
  proof (rule upd)
    show "queries (apply_op op d) = sql_update (\<lambda>q. q_id q = q_id p) (assigned_row now (w_id v)) (queries d)"
      using that by (simp add: assigns_def)
    have p: "p \<in> set (queries d)" "q_status p = ''pending''"
      using that by (auto simp: assigns_def)
    show "q_id q \<noteq> q_id p"
      using distinct_map_unique [OF pk(1) [unfolded pk_def] qk(1) p(1)] p(2) q(2) by auto
  qed simp
  have worker: "parked_status (w_status r)" if "r \<in> set (workers d)" "w_id r = w" for r
  proof -
    have "worker_of w d = Some r" using that row_of_iff [OF pk(2), of w r] by simp
    with i show ?thesis by (auto simp: parked_def)
  qed
  show ?thesis
  proof (cases op)
    case (OpUnreachable wid)
    show ?thesis
    proof (cases "wid = w")
      case True
      have miss: "\<not> affected_one ''UPDATE'' (count_where (\<lambda>w. w_id w = wid \<and>
          w_status w \<in> {''running'', ''shutting_down''}) (workers d))"
        unfolding affected_one_key [OF pk(2)] using True by (auto dest: worker)
      then have "queries (fst (mark_worker_unreachable wid d)) = queries d"
        unfolding mark_worker_unreachable_def Let_def by (simp only: miss not_False_eq_True if_True) simp
      then show ?thesis using OpUnreachable q(1) by simp
    next
      case False
      then show ?thesis
        using OpUnreachable queries_unreachable [of wid d] q upd
        by (elim disjE) (simp, rule upd, simp, simp, simp)
    qed
  next
    case (OpSweep utc stale)
    have "\<not> lost_in_sweep (utc - stale * second) d q"
      using q(3) by (auto simp: lost_in_sweep_def is_stale_def dest: worker)
    with OpSweep queries_sweep [of utc stale d] q(1) show ?thesis
      by (elim disjE) (simp, rule upd, simp, simp, simp)
  next
    case (OpCreate fr now qu c m sp u)
    then have "queries (apply_op op d) = queries d \<or> (\<exists>r. queries (apply_op op d) = queries d @ [r])"
      by (auto simp: create_query_def sql_insert_def Let_def)
    then show ?thesis
      using q(1) by (auto simp: row_of_append)
  next
    case (OpComplete now qid st e n)
    then have eq: "apply_op op d = fst (complete_query now qid st e n d)" by simp
    show ?thesis
      by (rule upd [unfolded eq, OF queries_complete, folded eq]) (use OpComplete s qk in simp_all)
  next
    case (OpCancel now qid e)
    then have eq: "apply_op op d = fst (mark_query_cancelled now qid e d)" by simp
    show ?thesis
      by (rule upd [unfolded eq, OF queries_cancelled, folded eq]) (use OpCancel s qk in simp_all)
  next
    case (OpRevert qid)
    then have eq: "apply_op op d = fst (revert_query_to_pending qid d)" by simp
    show ?thesis
      by (rule upd [unfolded eq, OF queries_revert, folded eq]) (use OpRevert s qk in simp_all)
  next
    case (OpClaimNext utc now stale)
    then show ?thesis
      using claim_pending_effect [of utc now stale d] claim q(1) by auto
  next
    case (OpClaimById utc now qid stale)
    then show ?thesis
      using claim_by_id_effect [of utc now qid stale d] claim q(1) by auto
  qed (use q(1) in simp_all)
qed

interpretation stranded: machine_fact apply_op valid_op store_wf "silent_about w k"
  "\<lambda>d. parked w d \<and> query_of k d = Some q \<and> q_status q = ''running'' \<and> q_worker_id q = Some w"
  for w k q
  by unfold_locales (auto intro: parked_apply_op stranded_apply_op store_wf_pk(2))

text \<open>A worker nobody looks at. While a worker's row says \<^verbatim>\<open>initializing\<close>, as it does from the moment
  it registers again until it reports ready, or \<^verbatim>\<open>stopped\<close>, a query that runs on it stays exactly as it
  is under every operation of the others: the sweep and the unreachable report skip such a worker. If
  the worker does not come back, the query runs for ever.\<close>

theorem parked_worker_strands_queries:
  assumes "store_wf d" and "\<forall>op\<in>set ops. valid_op op \<and> silent_about w k op"
    and "parked w d"
    and "query_of k d = Some q" and "q_status q = ''running''" and "q_worker_id q = Some w"
  shows "query_of k (run_ops ops d) = Some q"
  unfolding run_ops_def
  using stranded.run_fact [of d ops w k q] assms by auto

theorem parked_worker_strands_queries_witness:
  "query_of 100 (run_ops [OpUnreachable 7, OpSweep (100 * second) 30, OpClaimNext 9 9 30]
     (fst (register_worker 1 3 (Some 7) ''http://w:8001/'' 4 1024 2048 2 busy_db))) =
   Some (assigned_row 2 7 (sample_query 100 1 (Some 1)))"
proof -
  let ?d = "fst (register_worker 1 3 (Some 7) ''http://w:8001/'' 4 1024 2048 2 busy_db)"
  have wf: "store_wf ?d"
    using store_wf_apply_op [OF busy_db_wf,
        of "OpRegister 1 3 (Some 7) ''http://w:8001/'' 4 1024 2048 2"] by simp
  have i: "parked 7 ?d"
    by (simp add: parked_def register_worker_def Let_def busy_db_def row_of_Cons sql_update_def)
  have q: "query_of 100 ?d = Some (assigned_row 2 7 (sample_query 100 1 (Some 1)))"
    by (simp add: busy_db_def row_of_Cons)
  show ?thesis
    by (rule parked_worker_strands_queries [OF wf _ i q]) simp_all
qed

text \<open>A completion the channel refuses. When the text of the notification reaches the server's
  limit, which an error text from the database engine can, the completion of an active query is
  stored although the operation raises: the row is final and no listener is told.\<close>

theorem long_completion_unannounced:
  assumes "store_wf d" and "query_of k d = Some q"
    and "q_status q = ''running'' \<or> q_status q = ''pending''"
    and "payload_limit d \<le> length (json_dumps (notify_payload k st e n))"
  shows "let (d', r) = complete_query now k st e n d in
    r = Inl NotifyPayloadTooLong \<and> channel d' = channel d \<and>
    query_of k d' = Some (completed_row now st e n q)"
proof -
  let ?cond = "\<lambda>q. q_id q = k \<and> q_status q \<in> {''running'', ''pending''}"
  have q: "q \<in> set (queries d)" "q_id q = k"
    using assms(2) row_of_iff [OF store_wf_pk(1) [OF assms(1)]] by auto
  with assms(3) have hit: "affected_one ''UPDATE'' (count_where ?cond (queries d))"
    unfolding affected_one_key [OF store_wf_pk(1) [OF assms(1)]] by auto
  have fail: "notify_query_status k st e n d' = Inl NotifyPayloadTooLong"
    if "payload_limit d' = payload_limit d" for d'
    using that assms(4) by (simp add: notify_query_status_def)
  have eq: "complete_query now k st e n d =
      (d\<lparr>queries := sql_update ?cond (completed_row now st e n) (queries d)\<rparr>, Inl NotifyPayloadTooLong)"
    unfolding complete_query_def Let_def using hit by (simp only: if_True) (simp add: fail)
  have "query_of k (d\<lparr>queries := sql_update ?cond (completed_row now st e n) (queries d)\<rparr>) =
      map_option (\<lambda>q. if ?cond q then completed_row now st e n q else q) (query_of k d)"
    using row_of_update [of q_id "completed_row now st e n" k ?cond "queries d"] by simp
  also have "\<dots> = Some (completed_row now st e n q)"
    using assms(2,3) q(2) by auto
  finally show ?thesis
    unfolding eq by simp
qed

theorem long_completion_unannounced_witness:
  "let d = busy_db\<lparr>payload_limit := 10\<rparr> in
    snd (complete_query 9 100 ''failed'' (Some ''Binder Error'') None d) = Inl NotifyPayloadTooLong \<and>
    channel (fst (complete_query 9 100 ''failed'' (Some ''Binder Error'') None d)) = []"
proof -
  let ?d = "busy_db\<lparr>payload_limit := 10\<rparr>"
  have wf: "store_wf ?d" using busy_db_wf by (simp add: store_wf_def)
  have q: "query_of 100 ?d = Some (assigned_row 2 7 (sample_query 100 1 (Some 1)))"
    by (simp add: busy_db_def row_of_Cons)
  have len: "payload_limit ?d \<le>
      length (json_dumps (notify_payload 100 ''failed'' (Some ''Binder Error'') None))"
    by (simp add: notify_payload_def json_dumps_def dump_str_uuid)
  from long_completion_unannounced [OF wf q _ len, of 9] show ?thesis
    by (simp add: Let_def case_prod_beta busy_db_def)
qed

end
