(* ===== verification/Event_Hub.thy ===== *)
theory Event_Hub
  imports Event_Bus Http Store_Recovery Settings
begin

text \<open>
  \<^verbatim>\<open>ducklauncher/coordinator/events.py\<close> and the endpoint \<^verbatim>\<open>/queries/{query_id}/events\<close>: the hub that
  hands the notifications of the database to the queues of the open streams, the listener that
  feeds it, the frames of the stream, and the stream itself as a function of what its loop meets.
  A queue is a number; the hub maps a query id to the queues of its subscribers.
\<close>

section \<open>The hub\<close>

record hub =
  next_queue :: nat
  subscribers :: "uuid \<Rightarrow> nat list option"
  queues :: "nat \<Rightarrow> json_obj list"

definition new_hub :: hub where
  "new_hub = \<lparr>next_queue = 0, subscribers = Map.empty, queues = (\<lambda>_. [])\<rparr>"

definition subscribe :: "uuid \<Rightarrow> hub \<Rightarrow> hub \<times> nat" where
  "subscribe query_id h =
     (let q = next_queue h; old = coalesce (subscribers h query_id) []
      in (h\<lparr>next_queue := q + 1, subscribers := (subscribers h)(query_id \<mapsto> old @ [q]),
            queues := (queues h)(q := [])\<rparr>, q))"

definition unsubscribe :: "uuid \<Rightarrow> nat \<Rightarrow> hub \<Rightarrow> hub" where
  "unsubscribe query_id q h =
     (case subscribers h query_id of
        None \<Rightarrow> h
      | Some qs \<Rightarrow>
          if q \<notin> set qs then h
          else if remove1 q qs = [] then h\<lparr>subscribers := (subscribers h)(query_id := None)\<rparr>
          else h\<lparr>subscribers := (subscribers h)(query_id \<mapsto> remove1 q qs)\<rparr>)"

text \<open>\<^verbatim>\<open>UUID(str(payload["query_id"]))\<close>; of two members with one name the later counts.\<close>

fun str_of_json :: "json \<Rightarrow> string" where
  "str_of_json JNull = ''None''"
| "str_of_json (JInt i) = str_of_int i"
| "str_of_json (JStr s) = s"

definition json_get :: "json_obj \<Rightarrow> string \<Rightarrow> json option" where
  "json_get payload key = map_of (rev payload) key"

definition payload_query_id :: "json_obj \<Rightarrow> uuid option" where
  "payload_query_id payload =
     (case json_get payload ''query_id'' of
        None \<Rightarrow> None
      | Some v \<Rightarrow> (case parse_uuid (str_of_json v) of Inl _ \<Rightarrow> None | Inr k \<Rightarrow> Some k))"

definition dispatch :: "json_obj \<Rightarrow> hub \<Rightarrow> hub" where
  "dispatch payload h =
     (case payload_query_id payload of
        None \<Rightarrow> h
      | Some query_id \<Rightarrow>
          h\<lparr>queues := foldl (\<lambda>f q. f(q := f q @ [payload])) (queues h)
             (coalesce (subscribers h query_id) [])\<rparr>)"

text \<open>The callback of the listener on one notification.\<close>

definition on_notify :: "string \<Rightarrow> hub \<Rightarrow> hub" where
  "on_notify payload h =
     (case json_loads payload of
        Some obj \<Rightarrow> dispatch obj h
      | None \<Rightarrow> h)"

text \<open>\<^verbatim>\<open>queue.get()\<close> when the queue is not empty.\<close>

definition queue_get :: "nat \<Rightarrow> hub \<Rightarrow> (json_obj \<times> hub) option" where
  "queue_get q h =
     (case queues h q of
        [] \<Rightarrow> None
      | m # ms \<Rightarrow> Some (m, h\<lparr>queues := (queues h)(q := ms)\<rparr>))"

section \<open>The stream\<close>

definition opt_str :: "string option \<Rightarrow> json" where
  "opt_str x = (case x of None \<Rightarrow> JNull | Some s \<Rightarrow> JStr s)"

definition opt_int :: "int option \<Rightarrow> json" where
  "opt_int x = (case x of None \<Rightarrow> JNull | Some i \<Rightarrow> JInt i)"

definition query_event_payload :: "query_row \<Rightarrow> json_obj" where
  "query_event_payload row =
     [(''query_id'', JStr (str_uuid (q_id row))), (''status'', JStr (q_status row)),
      (''error'', opt_str (q_error row)), (''result_row_count'', opt_int (q_result_row_count row))]"

definition newline :: string where
  "newline = [CHR 0x0A]"

definition format_sse :: "json_obj \<Rightarrow> string" where
  "format_sse event =
     ''event: status'' @ newline @ ''data: '' @ json_dumps event @ newline @ newline"

definition TERMINAL_QUERY_STATUSES :: "string list" where
  "TERMINAL_QUERY_STATUSES = [''completed'', ''failed'', ''cancelled'']"

definition terminal_event :: "json_obj \<Rightarrow> bool" where
  "terminal_event event \<longleftrightarrow>
     (\<exists>st\<in>set TERMINAL_QUERY_STATUSES. json_get event ''status'' = Some (JStr st))"

text \<open>What one turn of the loop of \<^verbatim>\<open>event_stream\<close> meets: a client that is gone, thirty seconds without
  an event, or an event. The result is what is yielded, and whether the generator has returned.\<close>

datatype turn = Disconnected | Timeout | Event json_obj

fun stream_loop :: "turn list \<Rightarrow> string list \<times> bool" where
  "stream_loop [] = ([], False)"
| "stream_loop (Disconnected # ts) = ([], True)"
| "stream_loop (Timeout # ts) =
     (let (out, fin) = stream_loop ts in ((CHR '':'' # '' heartbeat'' @ newline @ newline) # out, fin))"
| "stream_loop (Event e # ts) =
     (if terminal_event e then ([format_sse e], True)
      else (let (out, fin) = stream_loop ts in (format_sse e # out, fin)))"

definition event_stream :: "query_row \<Rightarrow> turn list \<Rightarrow> string list \<times> bool" where
  "event_stream row turns =
     (if q_status row \<in> set TERMINAL_QUERY_STATUSES then ([format_sse (query_event_payload row)], True)
      else (let (out, fin) = stream_loop turns
            in (format_sse (query_event_payload row) # out, fin)))"

section \<open>The hub as an event bus\<close>

definition hub_wf :: "hub \<Rightarrow> bool" where
  "hub_wf h \<longleftrightarrow>
     (\<forall>k qs. subscribers h k = Some qs \<longrightarrow> qs \<noteq> [] \<and> distinct qs \<and> (\<forall>q\<in>set qs. q < next_queue h)) \<and>
     (\<forall>k j qs rs q. subscribers h k = Some qs \<longrightarrow> subscribers h j = Some rs \<longrightarrow>
        q \<in> set qs \<longrightarrow> q \<in> set rs \<longrightarrow> k = j)"

definition listens :: "uuid \<Rightarrow> nat \<Rightarrow> hub \<Rightarrow> bool" where
  "listens k q h \<longleftrightarrow> (\<exists>qs. subscribers h k = Some qs \<and> q \<in> set qs)"

lemma foldl_append_queues:
  "distinct qs \<Longrightarrow> foldl (\<lambda>f q. f(q := f q @ [m])) f qs i = (if i \<in> set qs then f i @ [m] else f i)"
  by (induction qs arbitrary: f) auto

lemma hub_wf_new: "hub_wf new_hub"
  by (simp add: hub_wf_def new_hub_def)

lemma hub_wf_subscribe:
  assumes "hub_wf h"
  shows "hub_wf (fst (subscribe k h))"
proof -
  have new: "q \<noteq> next_queue h" if "subscribers h j = Some qs" "q \<in> set qs" for j qs q
    using assms that by (fastforce simp: hub_wf_def)
  show ?thesis
    using assms new
    by (cases "subscribers h k") (auto simp: hub_wf_def subscribe_def Let_def less_Suc_eq split: if_splits)
qed

lemma hub_wf_unsubscribe: "hub_wf h \<Longrightarrow> hub_wf (unsubscribe k q h)"
  using set_remove1_subset [of q]
  by (auto simp: hub_wf_def unsubscribe_def distinct_remove1 split: option.splits)

lemma hub_wf_dispatch: "hub_wf h \<Longrightarrow> hub_wf (dispatch m h)"
  by (simp add: hub_wf_def dispatch_def split: option.split)

lemma hub_wf_listens:
  assumes "hub_wf h" and "listens k q h"
  shows "q < next_queue h" and "listens j q h \<Longrightarrow> j = k"
  using assms by (auto simp: hub_wf_def listens_def)

lemma dispatch_queue:
  assumes "hub_wf h" and "listens k q h"
  shows "queues (dispatch m h) q = queues h q @ (if payload_query_id m = Some k then [m] else [])"
proof (cases "payload_query_id m")
  case None
  then show ?thesis by (simp add: dispatch_def)
next
  case (Some j)
  let ?qs = "coalesce (subscribers h j) []"
  have "distinct ?qs"
    using assms(1) by (cases "subscribers h j") (auto simp: hub_wf_def)
  then have "queues (dispatch m h) q = (if q \<in> set ?qs then queues h q @ [m] else queues h q)"
    using Some by (simp add: dispatch_def foldl_append_queues)
  moreover have "q \<in> set ?qs \<longleftrightarrow> j = k"
  proof
    assume "q \<in> set ?qs"
    then have "listens j q h"
      by (cases "subscribers h j") (auto simp: listens_def)
    then show "j = k" by (rule hub_wf_listens(2) [OF assms])
  qed (use assms(2) in \<open>auto simp: listens_def\<close>)
  ultimately show ?thesis
    using Some by simp
qed

interpretation hub: event_bus hub_wf subscribe unsubscribe dispatch payload_query_id listens
  "\<lambda>q h. queues h q"
proof (unfold_locales)
  fix s :: hub and op :: "(uuid, json_obj) bus_op"
  assume wf: "hub_wf s"
  show "hub_wf (bus_step subscribe unsubscribe dispatch op s)"
    using hub_wf_subscribe [OF wf] hub_wf_unsubscribe [OF wf] hub_wf_dispatch [OF wf] by (cases op) simp_all
  show "listens k q s' \<and> queues s' q = [] \<and> (\<forall>i. \<not> listens i q s)"
    if "subscribe k s = (s', q)" for k s' q
    using that hub_wf_listens(1) [OF wf] by (fastforce simp: subscribe_def Let_def listens_def)
  show "listens i q (fst (subscribe k s)) \<and> queues (fst (subscribe k s)) q = queues s q"
    if l: "listens i q s" for i q k
    using l hub_wf_listens(1) [OF wf l] by (auto simp: subscribe_def Let_def listens_def)
  show "\<not> listens k q (unsubscribe k q s)" for k q
  proof (cases "subscribers s k")
    case None
    then show ?thesis by (simp add: unsubscribe_def listens_def)
  next
    case (Some qs)
    then have "distinct qs" using wf by (auto simp: hub_wf_def)
    with Some show ?thesis by (auto simp: unsubscribe_def listens_def)
  qed
  show "listens i q (unsubscribe k j s) \<and> queues (unsubscribe k j s) q = queues s q"
    if "listens i q s" "(k, j) \<noteq> (i, q)" for i q k j
  proof -
    have "q \<in> set (remove1 j qs)" if "subscribers s k = Some qs" "k = i" for qs
      using that \<open>listens i q s\<close> \<open>(k, j) \<noteq> (i, q)\<close> by (auto simp: listens_def)
    then show ?thesis
      using that(1) by (cases "subscribers s k") (fastforce simp: unsubscribe_def listens_def)+
  qed
  show "queues (dispatch m s) q = queues s q @ (if payload_query_id m = Some i then [m] else [])"
    if "listens i q s" for i q m
    by (rule dispatch_queue [OF wf that])
next
  show "listens i q (dispatch m s) \<longleftrightarrow> listens i q s" for i q m s
    by (simp add: listens_def dispatch_def split: option.split)
qed

section \<open>From the table to the stream\<close>

lemma payload_query_id_notify [simp]:
  "payload_query_id (notify_payload k st e n) = Some k"
  by (cases e; cases n) (simp_all add: payload_query_id_def notify_payload_def json_get_def)

lemma on_notify_payload: "on_notify (json_dumps (notify_payload k st e n)) h = dispatch (notify_payload k st e n) h"
  by (simp add: on_notify_def json_loads_dumps)

text \<open>C34. Subscribers get what is published. After a subscription, and whatever others subscribe,
  unsubscribe and publish, the queue holds exactly the messages of its query published since, in
  order, until it is unsubscribed.\<close>

theorem subscriber_queue:
  assumes "hub_wf h" and "subscribe k h = (h', q)" and "Unsubscribe k q \<notin> set ops"
  shows "queues (run_steps (bus_step subscribe unsubscribe dispatch) ops h') q =
    filter (\<lambda>m. payload_query_id m = Some k) (published ops)"
  using assms by (rule hub.subscriber_receives)

theorem subscriber_queue_witness:
  "queues (run_steps (bus_step subscribe unsubscribe dispatch)
     [Publish (notify_payload 1 ''running'' None None), Subscribe 2, Publish (notify_payload 2 ''running'' None None),
      Publish (notify_payload 1 ''completed'' None (Some 3))] (fst (subscribe 1 new_hub))) 0 =
   [notify_payload 1 ''running'' None None, notify_payload 1 ''completed'' None (Some 3)]"
proof -
  have s: "subscribe 1 new_hub = (fst (subscribe 1 new_hub), 0)"
    by (simp add: subscribe_def Let_def new_hub_def)
  show ?thesis
    by (subst subscriber_queue [OF hub_wf_new s]) simp_all
qed

text \<open>No queue is left behind. A stream that subscribes and unsubscribes leaves the subscribers as
  they were, whatever the hub dispatched in between.\<close>

theorem unsubscribe_restores:
  assumes "hub_wf h" and "subscribe k h = (h', q)"
  shows "subscribers (unsubscribe k q (run_steps dispatch ms h')) = subscribers h"
proof -
  have same: "subscribers (run_steps dispatch ms b) = subscribers b" for b
    by (induction ms arbitrary: b) (simp_all add: dispatch_def split: option.split)
  have q: "q = next_queue h" and h': "subscribers h' = (subscribers h)(k \<mapsto> coalesce (subscribers h k) [] @ [q])"
    using assms(2) by (auto simp: subscribe_def Let_def)
  have "q \<notin> set (coalesce (subscribers h k) [])"
    using assms(1) q by (cases "subscribers h k") (auto simp: hub_wf_def)
  moreover have "coalesce (subscribers h k) [] = [] \<longleftrightarrow> subscribers h k = None"
    using assms(1) by (cases "subscribers h k") (auto simp: hub_wf_def)
  ultimately show ?thesis
    by (cases "subscribers h k")
       (auto simp: unsubscribe_def same h' remove1_append split: option.split)
qed

theorem unsubscribe_restores_witness:
  "subscribers (unsubscribe 1 0 (run_steps dispatch [notify_payload 1 ''running'' None None]
     (fst (subscribe 1 new_hub)))) = Map.empty"
proof -
  have s: "subscribe 1 new_hub = (fst (subscribe 1 new_hub), 0)"
    by (simp add: subscribe_def Let_def new_hub_def)
  show ?thesis
    using unsubscribe_restores [OF hub_wf_new s, of "[notify_payload 1 ''running'' None None]"]
    by (simp add: new_hub_def)
qed

section \<open>What the client decodes\<close>

text \<open>The event stream format as a browser reads it: lines collect the name and the data of an event,
  an empty line ends it, and a line that starts with a colon is a comment.\<close>

fun sse_lines :: "string list \<Rightarrow> string \<Rightarrow> string list \<Rightarrow> (string \<times> string) list" where
  "sse_lines [] name data = []"
| "sse_lines (l # ls) name data =
     (if l = [] then (if data = [] then sse_lines ls [] []
                      else (name, join newline data) # sse_lines ls [] [])
      else if startswith l ''event: '' then sse_lines ls (drop 7 l) data
      else if startswith l ''data: '' then sse_lines ls name (data @ [drop 6 l])
      else sse_lines ls name data)"

definition sse_decode :: "string \<Rightarrow> (string \<times> string) list" where
  "sse_decode s = sse_lines (split_on (CHR 0x0A) s) [] []"

text \<open>The events of a stream: the row, then what the queue delivers up to a final status.\<close>

fun delivered :: "turn list \<Rightarrow> json_obj list" where
  "delivered [] = []"
| "delivered (Disconnected # ts) = []"
| "delivered (Timeout # ts) = delivered ts"
| "delivered (Event e # ts) = e # (if terminal_event e then [] else delivered ts)"

definition heartbeat :: string where
  "heartbeat = CHR '':'' # '' heartbeat'' @ newline @ newline"

lemma json_dumps_no_newline: "CHR 0x0A \<notin> set (json_dumps e)"
  using json_dumps_printable [of e] by (auto simp: is_printable_def code_def)

lemma split_on_Cons_sep: "split_on c (c # s) = [] # split_on c s"
  by simp

lemma decode_frame:
  "sse_lines (split_on (CHR 0x0A) (format_sse e @ s)) [] [] =
    (''status'', json_dumps e) # sse_lines (split_on (CHR 0x0A) s) [] []"
proof -
  have "split_on (CHR 0x0A) (format_sse e @ s) =
      ''event: status'' # (''data: '' @ json_dumps e) # [] # split_on (CHR 0x0A) s"
    using split_on_append [of "CHR 0x0A" "''event: status''"]
      split_on_append [of "CHR 0x0A" "''data: '' @ json_dumps e" "CHR 0x0A # s"] json_dumps_no_newline [of e]
    by (simp add: format_sse_def newline_def)
  then show ?thesis by simp
qed

lemma decode_heartbeat:
  "sse_lines (split_on (CHR 0x0A) (heartbeat @ s)) [] [] = sse_lines (split_on (CHR 0x0A) s) [] []"
proof -
  have "split_on (CHR 0x0A) (heartbeat @ s) = (CHR '':'' # '' heartbeat'') # [] # split_on (CHR 0x0A) s"
    using split_on_append [of "CHR 0x0A" "CHR '':'' # '' heartbeat''" "CHR 0x0A # s"]
    by (simp add: heartbeat_def newline_def)
  then show ?thesis by simp
qed

lemma decode_loop:
  "sse_lines (split_on (CHR 0x0A) (concat (fst (stream_loop ts)))) [] [] =
    map (\<lambda>e. (''status'', json_dumps e)) (delivered ts)"
proof (induction ts rule: delivered.induct)
  case (3 ts)
  then show ?case
    using decode_heartbeat by (simp add: case_prod_beta Let_def heartbeat_def)
next
  case (4 e ts)
  then show ?case
    using decode_frame [of e "[]"] decode_frame [of e] by (simp add: case_prod_beta Let_def)
qed simp_all

text \<open>C36. The stream is decoded without loss. A browser that reads the bytes of a stream sees one
  event named \<^verbatim>\<open>status\<close> for the row and one for each message the stream took from its queue, in order
  and up to the first final status, and each data text loads back as the message, whatever
  characters the error text has; heartbeats are invisible.\<close>

theorem stream_decodes:
  "sse_decode (concat (fst (event_stream row turns))) =
     map (\<lambda>e. (''status'', json_dumps e))
       (query_event_payload row #
        (if q_status row \<in> set TERMINAL_QUERY_STATUSES then [] else delivered turns)) \<and>
   map (\<lambda>(_, data). json_loads data) (sse_decode (concat (fst (event_stream row turns)))) =
     map Some (query_event_payload row #
        (if q_status row \<in> set TERMINAL_QUERY_STATUSES then [] else delivered turns))"
proof -
  have "sse_decode (concat (fst (event_stream row turns))) =
     map (\<lambda>e. (''status'', json_dumps e))
       (query_event_payload row #
        (if q_status row \<in> set TERMINAL_QUERY_STATUSES then [] else delivered turns))"
    using decode_frame [of "query_event_payload row" "[]"] decode_frame [of "query_event_payload row"]
      decode_loop [of turns]
    by (simp add: sse_decode_def event_stream_def case_prod_beta Let_def)
  then show ?thesis
    by (simp add: json_loads_dumps comp_def)
qed

section \<open>Final statuses on the way to the stream\<close>

lemma complete_query_channel:
  "snd (complete_query now k st e n d) = Inr True \<Longrightarrow>
    channel (fst (complete_query now k st e n d)) = channel d @ [json_dumps (notify_payload k st e n)]"
  unfolding complete_query_def Let_def
  by (auto dest!: notify_query_status_Inr split: sum.splits if_splits)

lemma terminal_event_notify:
  "terminal_event (notify_payload k st e n) \<longleftrightarrow> terminal st"
  by (cases e; cases n)
     (auto simp: terminal_event_def TERMINAL_QUERY_STATUSES_def json_get_def notify_payload_def terminal_def)

text \<open>C35. A completion ends the streams. When a completion is acknowledged, every queue that listens to
  the query gets, once the listener has handled the new notifications, one more message, and the
  stream that takes it yields it and returns.\<close>

theorem completion_ends_stream:
  assumes "snd (complete_query now k st e n d) = Inr True" and "terminal st"
    and "hub_wf h" and "listens k q h"
  shows "\<exists>m. queues (run_steps on_notify
       (drop (length (channel d)) (channel (fst (complete_query now k st e n d)))) h) q = queues h q @ [m] \<and>
     stream_loop (Event m # turns) = ([format_sse m], True) \<and>
     json_get m ''status'' = Some (JStr st)"
proof -
  let ?m = "notify_payload k st e n"
  have "run_steps on_notify (drop (length (channel d)) (channel (fst (complete_query now k st e n d)))) h =
      dispatch ?m h"
    by (simp add: complete_query_channel [OF assms(1)] on_notify_payload)
  moreover have "queues (dispatch ?m h) q = queues h q @ [?m]"
    using dispatch_queue [OF assms(3,4)] by simp
  moreover have "json_get ?m ''status'' = Some (JStr st)"
    by (cases e; cases n) (simp_all add: json_get_def notify_payload_def)
  ultimately show ?thesis
    using assms(2) terminal_event_notify [of k st e n] by auto
qed

theorem completion_ends_stream_witness:
  "\<exists>m. queues (run_steps on_notify
       (drop 0 (channel (fst (complete_query 9 100 ''completed'' None None busy_db))))
       (fst (subscribe 100 new_hub))) 0 = [m]"
proof -
  have len: "length (json_dumps (notify_payload 100 ''completed'' None None)) < payload_limit busy_db"
    by (simp add: notify_payload_def json_dumps_def dump_str_uuid busy_db_def)
       (simp add: dump_string_def escape_char_def code_def)
  have ok: "snd (complete_query 9 100 ''completed'' None None busy_db) = Inr True"
    using complete_query_result [OF busy_db_wf len, of 9] by (simp add: busy_db_def row_of_Cons)
  have l: "listens 100 0 (fst (subscribe 100 new_hub))" "queues (fst (subscribe 100 new_hub)) 0 = []"
    by (simp_all add: subscribe_def Let_def new_hub_def listens_def)
  have "length (channel busy_db) = 0" by (simp add: busy_db_def)
  with completion_ends_stream [OF ok _ hub_wf_subscribe [OF hub_wf_new] l(1)] l(2) show ?thesis
    by fastforce
qed

text \<open>A completion that is missed. The endpoint reads the row first and subscribes when the stream
  starts. If the final notification is handled in between, the queue stays empty as long as no other
  message of the query comes, and the stream of the row it read, however long it waits, yields
  heartbeats and does not return.\<close>

theorem missed_completion_never_ends:
  assumes "hub_wf h" and "subscribe k (dispatch (notify_payload k st e n) h) = (h', q)"
    and "Unsubscribe k q \<notin> set ops" and "\<forall>m\<in>set (published ops). payload_query_id m \<noteq> Some k"
    and "q_status row = ''running'' \<or> q_status row = ''pending''"
  shows "queues (run_steps (bus_step subscribe unsubscribe dispatch) ops h') q = [] \<and>
    event_stream row (replicate waits Timeout) =
      (format_sse (query_event_payload row) # replicate waits heartbeat, False)"
proof -
  have "hub_wf (dispatch (notify_payload k st e n) h)"
    by (rule hub_wf_dispatch) (rule assms(1))
  from hub.subscriber_receives [OF this assms(2,3)] assms(4)
  have "queues (run_steps (bus_step subscribe unsubscribe dispatch) ops h') q = []"
    by (simp add: filter_empty_conv)
  moreover have "stream_loop (replicate waits Timeout) = (replicate waits heartbeat, False)"
    by (induction waits) (simp_all add: heartbeat_def)
  ultimately show ?thesis
    using assms(5) by (auto simp: event_stream_def TERMINAL_QUERY_STATUSES_def)
qed

theorem missed_completion_never_ends_witness:
  "event_stream (assigned_row 2 7 (sample_query 100 1 None)) (replicate 2 Timeout) =
     (format_sse (query_event_payload (assigned_row 2 7 (sample_query 100 1 None))) #
      replicate 2 heartbeat, False)"
proof -
  have s: "subscribe 100 (dispatch (notify_payload 100 ''completed'' None None) new_hub) =
      (fst (subscribe 100 (dispatch (notify_payload 100 ''completed'' None None) new_hub)), 0)"
    by (simp add: subscribe_def Let_def dispatch_def new_hub_def)
  show ?thesis
    by (rule missed_completion_never_ends [OF hub_wf_new s, of "[]", THEN conjunct2]) simp_all
qed

end
