(* ===== verification/Work_Queue.thy ===== *)
theory Work_Queue
  imports Prelude
begin

text \<open>
  The loop that takes jobs from a store and hands them on, as the scheduler runs it, over an
  interface to the store: a claim keeps the store's invariant and changes nothing when it finds no
  job, and handing a job on keeps the invariant. The number of turns bounds the jobs of one run.
\<close>

function batch_loop ::
  "(nat \<Rightarrow> 's \<Rightarrow> 's \<times> ('e + 'j option)) \<Rightarrow> (nat \<Rightarrow> 'j \<Rightarrow> 's \<Rightarrow> 's \<times> ('e + 'b)) \<Rightarrow> int \<Rightarrow> nat \<Rightarrow> 's
    \<Rightarrow> 's \<times> ('e + nat)" where
  "batch_loop claim hand_on max_batch scheduled s =
     (if int scheduled < max_batch then
        (case claim scheduled s of
           (s1, Inl e) \<Rightarrow> (s1, Inl e)
         | (s1, Inr None) \<Rightarrow> (s1, Inr scheduled)
         | (s1, Inr (Some job)) \<Rightarrow>
             (case hand_on scheduled job s1 of
                (s2, Inl e) \<Rightarrow> (s2, Inl e)
              | (s2, Inr _) \<Rightarrow> batch_loop claim hand_on max_batch (scheduled + 1) s2))
      else (s, Inr scheduled))"
  by pat_completeness auto
termination
  by (relation "measure (\<lambda>(_, _, m, n, _). nat (m - int n))") auto

declare batch_loop.simps [simp del]

lemma batch_loop_bound:
  "batch_loop claim hand_on m n s = (s', Inr k) \<Longrightarrow> int n \<le> m \<Longrightarrow> n \<le> k \<and> int k \<le> m"
proof (induction claim hand_on m n s rule: batch_loop.induct)
  case (1 claim hand_on m n s)
  show ?case
    using 1 unfolding batch_loop.simps [of claim hand_on m n s]
    by (fastforce split: if_splits prod.splits sum.splits option.splits)
qed

locale work_queue =
  fixes claim :: "nat \<Rightarrow> 's \<Rightarrow> 's \<times> ('e + 'j option)"
    and hand_on :: "nat \<Rightarrow> 'j \<Rightarrow> 's \<Rightarrow> 's \<times> ('e + 'b)"
    and inv :: "'s \<Rightarrow> bool"
  assumes claim_inv: "inv s \<Longrightarrow> inv (fst (claim n s))"
    and hand_on_inv: "inv s \<Longrightarrow> inv (fst (hand_on n job s))"
    and claim_none: "inv s \<Longrightarrow> claim n s = (s', Inr None) \<Longrightarrow> s' = s"
begin

lemma loop_inv: "inv s \<Longrightarrow> inv (fst (batch_loop claim hand_on m n s))"
proof (induction "nat (m - int n)" arbitrary: n s rule: less_induct)
  case less
  show ?case
  proof (cases "int n < m")
    case False
    then show ?thesis using less.prems by (simp add: batch_loop.simps)
  next
    case True
    obtain s1 r where c: "claim n s = (s1, r)" by fastforce
    have i1: "inv s1" using claim_inv [OF less.prems, of n] c by simp
    consider (err) e where "r = Inl e" | (none) "r = Inr None" | (job) j where "r = Inr (Some j)"
      by (cases r; cases "projr r") auto
    then show ?thesis
    proof cases
      case (job j)
      obtain s2 b where h: "hand_on n j s1 = (s2, b)" by fastforce
      have i2: "inv s2" using hand_on_inv [OF i1, of n j] h by simp
      have "inv (fst (batch_loop claim hand_on m (n + 1) s2))"
        by (rule less.hyps) (use True i2 in auto)
      with True c job h i2 show ?thesis
        by (cases b) (simp_all add: batch_loop.simps [of claim hand_on m n s])
    qed (use True c i1 in \<open>simp_all add: batch_loop.simps [of claim hand_on m n s]\<close>)
  qed
qed

text \<open>A run that ends before its bound has left nothing to claim.\<close>

lemma loop_exhausts:
  "inv s \<Longrightarrow> batch_loop claim hand_on m n s = (s', Inr k) \<Longrightarrow> int k < m \<Longrightarrow>
    claim k s' = (s', Inr None)"
proof (induction "nat (m - int n)" arbitrary: n s rule: less_induct)
  case less
  show ?case
  proof (cases "int n < m")
    case False
    then show ?thesis using less.prems by (simp add: batch_loop.simps)
  next
    case True
    obtain s1 r where c: "claim n s = (s1, r)" by fastforce
    have i1: "inv s1" using claim_inv [OF less.prems(1), of n] c by simp
    consider (err) e where "r = Inl e" | (none) "r = Inr None" | (job) j where "r = Inr (Some j)"
      by (cases r; cases "projr r") auto
    then show ?thesis
    proof cases
      case err
      then show ?thesis
        using less.prems True c by (simp add: batch_loop.simps [of claim hand_on m n s])
    next
      case none
      then have "k = n" "s' = s1"
        using less.prems True c by (simp_all add: batch_loop.simps [of claim hand_on m n s])
      with none c claim_none [OF less.prems(1), of n s1] show ?thesis by simp
    next
      case (job j)
      obtain s2 b where h: "hand_on n j s1 = (s2, b)" by fastforce
      have i2: "inv s2" using hand_on_inv [OF i1, of n j] h by simp
      have "batch_loop claim hand_on m (n + 1) s2 = (s', Inr k)"
        using less.prems True c job h
        by (cases b) (simp_all add: batch_loop.simps [of claim hand_on m n s])
      then show ?thesis
        by (rule less.hyps [rotated 2]) (use True less.prems i2 in auto)
    qed
  qed
qed

end

end
