(* ===== verification/Scheduler.thy ===== *)
theory Scheduler
  imports Work_Queue Http Settings Store_Recovery
begin

text \<open>
  \<^verbatim>\<open>ducklauncher/coordinator/scheduler.py\<close>: dispatching a claimed query to its worker, the batch that
  drains the pending queries, and the loop that sweeps and drains. While a request is on its way
  other tasks of the coordinator use the store: a \<open>world\<close> gives, for each turn of a batch, the two
  clocks, the worker's answer to the request, and the operations the others commit meanwhile.
\<close>

record world =
  wd_utc :: "nat \<Rightarrow> timestamp"
  wd_now :: "nat \<Rightarrow> timestamp"
  wd_answer :: "nat \<Rightarrow> string \<Rightarrow> json_obj \<Rightarrow> unit outcome"
  wd_meanwhile :: "nat \<Rightarrow> store_op list"

definition opt_json :: "int option \<Rightarrow> json" where
  "opt_json x = (case x of None \<Rightarrow> JNull | Some i \<Rightarrow> JInt i)"

definition dispatch_payload :: "claimed_row \<Rightarrow> json_obj" where
  "dispatch_payload claimed =
     [(''query_id'', JStr (str_uuid (c_query_id claimed))), (''query'', JStr (c_query claimed)),
      (''cpus'', opt_json (c_cpus claimed)), (''memory'', opt_json (c_memory claimed)),
      (''disk_space'', opt_json (c_disk_space claimed))]"

text \<open>The end of a dispatch that failed: the store operation, and \<^verbatim>\<open>False\<close> if it does not raise.\<close>

definition then_false :: "database \<times> (sql_error + unit) \<Rightarrow> database \<times> (app_error + bool)" where
  "then_false r = (case r of (d, Inl e) \<Rightarrow> (d, Inl (SqlExc e)) | (d, Inr _) \<Rightarrow> (d, Inr False))"

text \<open>What follows the answer to a dispatch, and the dispatch with the request before it.\<close>

definition after_dispatch ::
  "claimed_row \<Rightarrow> unit outcome \<Rightarrow> database \<Rightarrow> database \<times> (app_error + bool)" where
  "after_dispatch claimed answer d =
     (case answer of
        Reply status _ \<Rightarrow>
          if status \<noteq> 202 then
            (if status = 502 \<or> status = 503
             then then_false (mark_worker_unreachable (c_worker_id claimed) d)
             else then_false (revert_query_to_pending (c_query_id claimed) d))
          else (d, Inr True)
      | HttpError _ \<Rightarrow> then_false (mark_worker_unreachable (c_worker_id claimed) d)
      | Raises \<Rightarrow> (d, Inl OtherExc))"

definition dispatch_query ::
  "world \<Rightarrow> nat \<Rightarrow> claimed_row \<Rightarrow> database \<Rightarrow> database \<times> (app_error + bool)" where
  "dispatch_query w n claimed d =
     (let endpoint = rstrip_chars ''/'' (c_endpoint claimed);
          answer = wd_answer w n (endpoint @ ''/query'') (dispatch_payload claimed);
          d1 = run_ops (wd_meanwhile w n) d
      in after_dispatch claimed answer d1)"

lemmas dispatch_defs = dispatch_query_def after_dispatch_def Let_def

text \<open>The claim of one turn: by id in the first turn when an id is given, the oldest otherwise.\<close>

definition turn_claim ::
  "coordinator_settings \<Rightarrow> world \<Rightarrow> uuid option \<Rightarrow> nat \<Rightarrow> database
    \<Rightarrow> database \<times> (app_error + claimed_row option)" where
  "turn_claim settings w query_id scheduled d =
     (case (if query_id \<noteq> None \<and> scheduled = 0
            then claim_query_by_id (wd_utc w scheduled) (wd_now w scheduled) (the query_id)
                   (worker_stale_sec settings) d
            else claim_pending_query (wd_utc w scheduled) (wd_now w scheduled)
                   (worker_stale_sec settings) d) of
        (d1, Inl e) \<Rightarrow> (d1, Inl (SqlExc e))
      | (d1, Inr c) \<Rightarrow> (d1, Inr c))"

definition schedule_pending_queries ::
  "coordinator_settings \<Rightarrow> world \<Rightarrow> uuid option \<Rightarrow> int \<Rightarrow> database \<Rightarrow> database \<times> (app_error + nat)" where
  "schedule_pending_queries settings w query_id max_batch d =
     batch_loop (turn_claim settings w query_id) (dispatch_query w) max_batch 0 d"

text \<open>One iteration of \<^verbatim>\<open>scheduler_loop\<close>: an exception ends it and is logged.\<close>

definition scheduler_iteration ::
  "coordinator_settings \<Rightarrow> timestamp \<Rightarrow> world \<Rightarrow> database \<Rightarrow> database" where
  "scheduler_iteration settings utc w d =
     (case sweep_stale_workers utc (worker_stale_sec settings) d of
        (d1, Inl _) \<Rightarrow> d1
      | (d1, Inr _) \<Rightarrow> fst (schedule_pending_queries settings w None 10 d1))"

text \<open>The rounds of the loop: whether the stop event is set when it begins, what the others did
  during the sleep before it, the clock of its sweep and the world of its batch.\<close>

record round =
  rd_stopped :: bool
  rd_others :: "store_op list"
  rd_utc :: timestamp
  rd_world :: world

fun scheduler_loop :: "coordinator_settings \<Rightarrow> round list \<Rightarrow> database \<Rightarrow> database" where
  "scheduler_loop settings [] d = d"
| "scheduler_loop settings (r # rs) d =
     (if rd_stopped r then run_ops (rd_others r) d
      else scheduler_loop settings rs
             (scheduler_iteration settings (rd_utc r) (rd_world r) (run_ops (rd_others r) d)))"

section \<open>The interface of the batch\<close>

definition fair_world :: "world \<Rightarrow> bool" where
  "fair_world w \<longleftrightarrow> (\<forall>n. \<forall>op\<in>set (wd_meanwhile w n). valid_op op)"

lemma fst_then_false [simp]: "fst (then_false r) = fst r"
  by (cases r) (auto simp: then_false_def split: sum.split)

lemma run_ops_wf: "store_wf d \<Longrightarrow> \<forall>op\<in>set ops. valid_op op \<Longrightarrow> store_wf (run_ops ops d)"
  unfolding run_ops_def by (rule store.run_inv)

lemma dispatch_wf:
  assumes "store_wf d" and "fair_world w"
  shows "store_wf (fst (dispatch_query w n c d))"
proof -
  let ?d1 = "run_ops (wd_meanwhile w n) d"
  have d1: "store_wf ?d1"
    by (rule run_ops_wf [OF assms(1)]) (use assms(2) in \<open>simp add: fair_world_def\<close>)
  have "store_wf (fst (mark_worker_unreachable (c_worker_id c) ?d1))"
    using store_wf_apply_op [OF d1, of "OpUnreachable (c_worker_id c)"] by simp
  moreover have "store_wf (fst (revert_query_to_pending (c_query_id c) ?d1))"
    using store_wf_apply_op [OF d1, of "OpRevert (c_query_id c)"] by simp
  ultimately show ?thesis
    using d1 by (simp add: dispatch_defs split: outcome.split)
qed

lemma turn_claim_wf:
  assumes "store_wf d"
  shows "store_wf (fst (turn_claim settings w query_id n d))"
  using store_wf_apply_op [OF assms, of "OpClaimNext (wd_utc w n) (wd_now w n) (worker_stale_sec settings)"]
    store_wf_apply_op [OF assms, of "OpClaimById (wd_utc w n) (wd_now w n) (the query_id)
      (worker_stale_sec settings)"]
  by (auto simp: turn_claim_def split: prod.split sum.split)

lemma claim_none_same:
  assumes "store_wf d" "p \<in> set (queries d)" "q_status p = ''pending''"
    and "in_transaction d (claim_query now p cutoff d) = (d', Inr None)"
  shows "d' = d"
proof (cases "claim_query now p cutoff d")
  case (Inl e)
  with assms(4) show ?thesis by (simp add: in_transaction_def)
next
  case (Inr r)
  then have r: "claim_query now p cutoff d = Inr (d', None)"
    using assms(4) by (cases r) (simp add: in_transaction_def)
  from claim_query_Inr [OF r] show ?thesis
  proof
    assume "\<exists>w. worker_for_query cutoff (q_cpus p) (q_memory p) (q_disk_space p) d = Some w \<and>
       d' = d\<lparr>queries := sql_update (\<lambda>q. q_id q = q_id p) (assigned_row now (w_id w)) (queries d),
              channel := channel d @ [json_dumps (notify_payload (q_id p) ''running'' None None)]\<rparr> \<and>
       None = claimed_join (q_id p) d'"
    then obtain w where w: "worker_for_query cutoff (q_cpus p) (q_memory p) (q_disk_space p) d = Some w"
      and d': "d' = d\<lparr>queries := sql_update (\<lambda>q. q_id q = q_id p) (assigned_row now (w_id w)) (queries d),
              channel := channel d @ [json_dumps (notify_payload (q_id p) ''running'' None None)]\<rparr>"
      and none: "claimed_join (q_id p) d' = None"
      by auto
    have "assigns now cutoff d p w d'"
      unfolding assigns_def d' using assms(2,3) worker_for_query_fits [OF w] by simp
    from claimed_join_assigned [OF assms(1) this] none show ?thesis by simp
  qed simp
qed

lemma turn_claim_none:
  assumes "store_wf d" and "turn_claim settings w query_id n d = (d', Inr None)"
  shows "d' = d"
proof -
  have pending: "b = d" if "claim_pending_query utc now stale d = (b, Inr None)" for utc now stale b
    using that claim_none_same [OF assms(1)]
    by (cases rule: claim_pending_cases [of d utc now stale]) auto
  have by_id: "b = d" if "claim_query_by_id utc now k stale d = (b, Inr None)" for utc now k stale b
    using that claim_none_same [OF assms(1)]
    by (cases rule: claim_by_id_cases [of d k utc now stale]) auto
  show ?thesis
    using assms(2) pending by_id unfolding turn_claim_def
    by (auto split: prod.splits sum.splits if_splits)
qed

interpretation batch: work_queue "turn_claim settings w query_id" "dispatch_query w"
  "\<lambda>d. fair_world w \<and> store_wf d" for settings w query_id
  by unfold_locales (auto simp: turn_claim_wf dispatch_wf turn_claim_none)

lemma iteration_wf:
  assumes "store_wf d" and "fair_world w"
  shows "store_wf (scheduler_iteration settings utc w d)"
proof -
  have "store_wf (fst (sweep_stale_workers utc (worker_stale_sec settings) d))"
    using store_wf_apply_op [OF assms(1), of "OpSweep utc (worker_stale_sec settings)"] by simp
  then show ?thesis
    using batch.loop_inv [of w] assms(2)
    by (auto simp: scheduler_iteration_def schedule_pending_queries_def split: prod.split sum.split)
qed

section \<open>Properties\<close>

definition sample_settings :: coordinator_settings where
  "sample_settings = default_coordinator_settings"

definition sample_world :: "nat \<Rightarrow> world" where
  "sample_world status = \<lparr>wd_utc = (\<lambda>_. 20), wd_now = (\<lambda>_. 20),
     wd_answer = (\<lambda>_ _ _. Reply status ()), wd_meanwhile = (\<lambda>_. [])\<rparr>"

lemma sample_world_fair: "fair_world (sample_world s)"
  by (simp add: fair_world_def sample_world_def)

text \<open>The scheduler keeps the store in order. Whatever the workers answer and whatever the other
  tasks do to the store while requests are on their way and between the rounds, the scheduler's loop
  keeps the store's invariant.\<close>

theorem scheduler_keeps_store:
  assumes "store_wf d"
    and "\<forall>r\<in>set rounds. fair_world (rd_world r) \<and> (\<forall>op\<in>set (rd_others r). valid_op op)"
  shows "store_wf (scheduler_loop settings rounds d)"
  using assms
proof (induction rounds arbitrary: d)
  case Nil
  then show ?case by simp
next
  case (Cons r rs)
  then have "store_wf (run_ops (rd_others r) d)"
    by (intro run_ops_wf) simp_all
  with Cons iteration_wf show ?case by simp
qed

theorem scheduler_keeps_store_witness:
  "store_wf (scheduler_loop sample_settings
     [\<lparr>rd_stopped = False, rd_others = [], rd_utc = 0, rd_world = sample_world 503\<rparr>,
      \<lparr>rd_stopped = True, rd_others = [OpSweep 5 30], rd_utc = 0, rd_world = sample_world 202\<rparr>] busy_db)"
  by (rule scheduler_keeps_store [OF busy_db_wf]) (simp add: sample_world_fair)

text \<open>C30. A batch is bounded and works until nothing can be placed. When a batch returns, it has handed
  on at most \<^verbatim>\<open>max_batch\<close> queries, and if fewer, then at the end the next claim finds nothing: no
  query is pending, or no worker fits the oldest pending one.\<close>

theorem batch_exhausts:
  assumes "store_wf d" and "130 \<le> payload_limit d'" and "fair_world w" and "0 \<le> max_batch"
    and "schedule_pending_queries settings w None max_batch d = (d', Inr n)"
  shows "int n \<le> max_batch \<and> (int n < max_batch \<longrightarrow>
    (case fetchrow (order_by q_created_at (filter (\<lambda>q. q_status q = ''pending'') (queries d'))) of
         None \<Rightarrow> True
       | Some p \<Rightarrow> \<forall>v\<in>set (workers d').
           \<not> worker_fits (wd_utc w n - worker_stale_sec settings * second)
               (q_cpus p) (q_memory p) (q_disk_space p) d' v))"
proof -
  have run: "batch_loop (turn_claim settings w None) (dispatch_query w) max_batch 0 d = (d', Inr n)"
    using assms(5) by (simp add: schedule_pending_queries_def)
  have "store_wf d'"
    using batch.loop_inv [of w d settings None max_batch 0] assms(1,3) run by simp
  have none: "claim_pending_query (wd_utc w n) (wd_now w n) (worker_stale_sec settings) d' = (d', Inr None)"
    if "int n < max_batch"
    using batch.loop_exhausts [OF _ run that] assms(1,3)
    by (auto simp: turn_claim_def split: prod.splits sum.splits)
  have wf: "store_wf d'" by fact
  show ?thesis
  proof (intro conjI impI)
    show "int n \<le> max_batch"
      using batch_loop_bound [OF run] assms(4) by simp
    assume "int n < max_batch"
    then have "snd (claim_pending_query (wd_utc w n) (wd_now w n) (worker_stale_sec settings) d') = Inr None"
      using none by simp
    then show "case fetchrow (order_by q_created_at (filter (\<lambda>q. q_status q = ''pending'') (queries d'))) of
         None \<Rightarrow> True
       | Some p \<Rightarrow> \<forall>v\<in>set (workers d').
           \<not> worker_fits (wd_utc w n - worker_stale_sec settings * second)
               (q_cpus p) (q_memory p) (q_disk_space p) d' v"
      using claim_finds_nothing [OF wf assms(2)] by blast
  qed
qed

lemma blocked_batch:
  assumes "store_wf d" and "130 \<le> payload_limit d"
    and "fetchrow (order_by q_created_at (filter (\<lambda>q. q_status q = ''pending'') (queries d))) = Some p"
    and "\<forall>v\<in>set (workers d). \<not> worker_fits (wd_utc w 0 - worker_stale_sec settings * second)
               (q_cpus p) (q_memory p) (q_disk_space p) d v"
  shows "schedule_pending_queries settings w None max_batch d = (d, Inr 0)"
proof -
  have "snd (claim_pending_query (wd_utc w 0) (wd_now w 0) (worker_stale_sec settings) d) = Inr None"
    unfolding claim_finds_nothing [OF assms(1,2)] assms(3) option.case by (rule assms(4))
  then obtain d' where "claim_pending_query (wd_utc w 0) (wd_now w 0) (worker_stale_sec settings) d = (d', Inr None)"
    by (cases "claim_pending_query (wd_utc w 0) (wd_now w 0) (worker_stale_sec settings) d") simp
  then have c: "turn_claim settings w None 0 d = (d', Inr None)"
    by (simp add: turn_claim_def)
  with turn_claim_none [OF assms(1) c] show ?thesis
    by (simp add: schedule_pending_queries_def batch_loop.simps)
qed

text \<open>The oldest query blocks the others. If no worker fits the oldest pending query, a batch hands
  on nothing and changes nothing, however many younger queries would fit a worker.\<close>

theorem oldest_query_blocks:
  assumes "store_wf d" and "130 \<le> payload_limit d"
    and "fetchrow (order_by q_created_at (filter (\<lambda>q. q_status q = ''pending'') (queries d))) = Some p"
    and "\<forall>v\<in>set (workers d). \<not> worker_fits (wd_utc w 0 - worker_stale_sec settings * second)
               (q_cpus p) (q_memory p) (q_disk_space p) d v"
  shows "schedule_pending_queries settings w None max_batch d = (d, Inr 0)"
  using assms by (rule blocked_batch)

text \<open>A worker with four cpus, an old query that asks for five and a younger one that asks for one.\<close>

definition blocked_db :: database where
  "blocked_db = sample_db [sample_worker 7 2 0] [sample_query 100 1 (Some 5), sample_query 101 2 (Some 1)]"

lemma blocked_db_facts:
  "store_wf blocked_db" "130 \<le> payload_limit blocked_db"
  "fetchrow (order_by q_created_at (filter (\<lambda>q. q_status q = ''pending'') (queries blocked_db))) =
    Some (sample_query 100 1 (Some 5))"
  "workers blocked_db = [sample_worker 7 2 0]"
  by (simp_all add: blocked_db_def store_wf_def pk_def order_by_def)

lemma blocked_db_fits:
  "worker_fits c (Some 5) None None blocked_db (sample_worker 7 2 0) = False"
  "worker_fits 0 (Some 1) None None blocked_db (sample_worker 7 2 0)"
  by (simp_all add: worker_fits_def fits_in_def load_sum_def load_rows_def load_queries_def blocked_db_def)

theorem oldest_query_blocks_witness:
  "schedule_pending_queries sample_settings (sample_world 202) None 10 blocked_db = (blocked_db, Inr 0) \<and>
   q_status (sample_query 101 2 (Some 1)) = ''pending'' \<and>
   worker_fits 0 (Some 1) None None blocked_db (sample_worker 7 2 0)"
proof -
  have "schedule_pending_queries sample_settings (sample_world 202) None 10 blocked_db = (blocked_db, Inr 0)"
    by (rule oldest_query_blocks [OF blocked_db_facts(1-3)]) (simp add: blocked_db_facts(4) blocked_db_fits)
  then show ?thesis by (simp add: blocked_db_fits)
qed

theorem batch_exhausts_witness:
  "\<not> worker_fits (20 - 30 * second) (Some 5) None None blocked_db (hd (workers blocked_db))"
proof -
  have "schedule_pending_queries sample_settings (sample_world 202) None 10 blocked_db = (blocked_db, Inr 0)"
    by (rule blocked_batch [OF blocked_db_facts(1-3)]) (simp add: blocked_db_facts(4) blocked_db_fits)
  from batch_exhausts [OF blocked_db_facts(1,2) sample_world_fair _ this]
  have "\<forall>v\<in>set (workers blocked_db). \<not> worker_fits (20 - 30 * second) (Some 5) None None blocked_db v"
    by (simp add: blocked_db_facts(3) sample_settings_def default_coordinator_settings_def
        sample_world_def)
  then show ?thesis by (simp add: blocked_db_def)
qed

lemma dispatch_failure:
  assumes "store_wf d" and "fair_world w" and "130 \<le> payload_limit d"
    and "answer = wd_answer w n (rstrip_chars ''/'' (c_endpoint c) @ ''/query'') (dispatch_payload c)"
    and "d1 = run_ops (wd_meanwhile w n) d" and "worker_of (c_worker_id c) d1 = Some v"
    and "w_status v = ''running'' \<or> w_status v = ''shutting_down''"
    and "query_of (c_query_id c) d1 = Some q" and "q_status q = ''running''"
    and "q_worker_id q = Some (c_worker_id c)"
  shows "(\<forall>e. answer = HttpError e \<or> answer = Reply 502 () \<or> answer = Reply 503 () \<longrightarrow>
      (let (d', r) = dispatch_query w n c d in r = Inr False \<and>
        worker_of (c_worker_id c) d' = Some (v\<lparr>w_status := ''unreachable''\<rparr>) \<and>
        (\<forall>i p. query_of i d1 = Some p \<and> q_status p = ''running'' \<and> q_worker_id p = Some (c_worker_id c) \<longrightarrow>
           query_of i d' = Some (lost_row p)))) \<and>
    (\<forall>status. answer = Reply status () \<and> status \<noteq> 202 \<and> status \<noteq> 502 \<and> status \<noteq> 503 \<longrightarrow>
      (let (d', r) = dispatch_query w n c d in r = Inr False \<and>
        query_of (c_query_id c) d' = Some (requeued_row q) \<and> workers d' = workers d1 \<and>
        (\<forall>i. i \<noteq> c_query_id c \<longrightarrow> query_of i d' = query_of i d1)))"
proof -
  have wf: "store_wf d1"
    unfolding assms(5) by (rule run_ops_wf [OF assms(1)]) (use assms(2) in \<open>simp add: fair_world_def\<close>)
  have lim: "130 \<le> payload_limit d1"
  proof -
    have "payload_limit (run_ops ops b) = payload_limit b" for ops b
      by (induction ops arbitrary: b) simp_all
    with assms(3,5) show ?thesis by simp
  qed
  note eff = unreachable_effect [OF store_wf_pk(2) [OF wf] lim assms(6,7)]
  have lost: "let (d', r) = then_false (mark_worker_unreachable (c_worker_id c) d1) in r = Inr False \<and>
        worker_of (c_worker_id c) d' = Some (v\<lparr>w_status := ''unreachable''\<rparr>) \<and>
        (\<forall>i p. query_of i d1 = Some p \<and> q_status p = ''running'' \<and> q_worker_id p = Some (c_worker_id c) \<longrightarrow>
           query_of i d' = Some (lost_row p))"
  proof -
    have "worker_of (c_worker_id c) (fst (mark_worker_unreachable (c_worker_id c) d1)) =
        map_option (\<lambda>w. if w_id w = c_worker_id c \<and> w_status w \<in> {''running'', ''shutting_down''}
          then w\<lparr>w_status := ''unreachable''\<rparr> else w) (worker_of (c_worker_id c) d1)"
      unfolding eff(2) by (rule row_of_update) simp
    moreover have "w_id v = c_worker_id c"
      using row_of_Some [OF assms(6)] by simp
    ultimately have v': "worker_of (c_worker_id c) (fst (mark_worker_unreachable (c_worker_id c) d1)) =
        Some (v\<lparr>w_status := ''unreachable''\<rparr>)"
      using assms(6,7) by auto
    have q': "query_of i (fst (mark_worker_unreachable (c_worker_id c) d1)) =
        map_option (\<lambda>q. if q_worker_id q = Some (c_worker_id c) \<and> q_status q = ''running''
          then lost_row q else q) (query_of i d1)" for i
      unfolding eff(3) by (rule row_of_update) simp
    have "then_false (mark_worker_unreachable (c_worker_id c) d1) =
        (fst (mark_worker_unreachable (c_worker_id c) d1), Inr False)"
      using eff(1) by (cases "mark_worker_unreachable (c_worker_id c) d1") (simp add: then_false_def)
    then show ?thesis
      using v' q' by simp
  qed
  have refused: "let (d', r) = then_false (revert_query_to_pending (c_query_id c) d1) in r = Inr False \<and>
        query_of (c_query_id c) d' = Some (requeued_row q) \<and> workers d' = workers d1 \<and>
        (\<forall>i. i \<noteq> c_query_id c \<longrightarrow> query_of i d' = query_of i d1)"
  proof -
    let ?k = "c_query_id c"
    note pk = store_wf_pk(1) [OF wf]
    have q: "q \<in> set (queries d1)" "q_id q = ?k"
      using assms(8) row_of_iff [OF pk] by auto
    have upd: "query_of i (fst (revert_query_to_pending ?k d1)) =
        map_option (\<lambda>q. if q_id q = ?k \<and> q_status q = ''running'' then requeued_row q else q) (query_of i d1)" for i
      unfolding queries_revert by (rule row_of_update) simp
    have other: "query_of i (fst (revert_query_to_pending ?k d1)) = query_of i d1" if "i \<noteq> ?k" for i
      using upd [of i] that row_of_Some [of q_id i "queries d1"] by (cases "query_of i d1") auto
    have "affected_one ''UPDATE'' (count_where (\<lambda>q. q_id q = ?k \<and> q_status q = ''running'') (queries d1))"
      unfolding affected_one_key [OF pk] using q assms(9) by blast
    then have "snd (revert_query_to_pending ?k d1) = Inr ()"
      using lim by (simp add: revert_query_to_pending_def Let_def notify_fixed_succeeds)
    then have "then_false (revert_query_to_pending ?k d1) = (fst (revert_query_to_pending ?k d1), Inr False)"
      by (cases "revert_query_to_pending ?k d1") (simp add: then_false_def)
    then show ?thesis
      using upd [of ?k] other assms(8,9) q(2) frame_finish(7) by simp
  qed
  show ?thesis
    using lost refused unfolding dispatch_query_def after_dispatch_def Let_def assms(4,5) [symmetric]
    by auto
qed

definition sample_claim :: claimed_row where
  "sample_claim = \<lparr>c_query_id = 100, c_query = ''SELECT 1'', c_cpus = Some 1,
      c_memory = None, c_disk_space = None, c_worker_id = 7, c_endpoint = ''http://w:8001/''\<rparr>"

text \<open>A failed dispatch gives the query back. When the worker cannot be reached or answers 502 or
  503, and at that moment its row says running or shutting down, then afterwards it is unreachable
  and every query that was running on it, the dispatched one included, is pending on no worker with
  the error text. Any other answer but 202 puts just the dispatched query back, if it still runs.\<close>

theorem failed_dispatch_requeues:
  assumes "store_wf d" and "fair_world w" and "130 \<le> payload_limit d"
    and "answer = wd_answer w n (rstrip_chars ''/'' (c_endpoint c) @ ''/query'') (dispatch_payload c)"
    and "d1 = run_ops (wd_meanwhile w n) d" and "worker_of (c_worker_id c) d1 = Some v"
    and "w_status v = ''running'' \<or> w_status v = ''shutting_down''"
    and "query_of (c_query_id c) d1 = Some q" and "q_status q = ''running''"
    and "q_worker_id q = Some (c_worker_id c)"
  shows "(\<forall>e. answer = HttpError e \<or> answer = Reply 502 () \<or> answer = Reply 503 () \<longrightarrow>
      (let (d', r) = dispatch_query w n c d in r = Inr False \<and>
        worker_of (c_worker_id c) d' = Some (v\<lparr>w_status := ''unreachable''\<rparr>) \<and>
        (\<forall>i p. query_of i d1 = Some p \<and> q_status p = ''running'' \<and> q_worker_id p = Some (c_worker_id c) \<longrightarrow>
           query_of i d' = Some (lost_row p)))) \<and>
    (\<forall>status. answer = Reply status () \<and> status \<noteq> 202 \<and> status \<noteq> 502 \<and> status \<noteq> 503 \<longrightarrow>
      (let (d', r) = dispatch_query w n c d in r = Inr False \<and>
        query_of (c_query_id c) d' = Some (requeued_row q) \<and> workers d' = workers d1 \<and>
        (\<forall>i. i \<noteq> c_query_id c \<longrightarrow> query_of i d' = query_of i d1)))"
  using assms by (rule dispatch_failure)

theorem failed_dispatch_requeues_witness:
  "let (d', r) = dispatch_query (sample_world 503) 0 sample_claim busy_db in
    r = Inr False \<and> query_of 100 d' = Some (lost_row (assigned_row 2 7 (sample_query 100 1 (Some 1))))"
proof -
  have k: "c_worker_id sample_claim = 7" "c_query_id sample_claim = 100"
    by (simp_all add: sample_claim_def)
  have w: "worker_of (c_worker_id sample_claim) busy_db = Some (sample_worker 7 2 0)"
    and q: "query_of (c_query_id sample_claim) busy_db =
      Some (assigned_row 2 7 (sample_query 100 1 (Some 1)))"
    and lim: "130 \<le> payload_limit busy_db"
    by (simp_all add: busy_db_def row_of_Cons k)
  have d1: "busy_db = run_ops (wd_meanwhile (sample_world 503) 0) busy_db"
    by (simp add: sample_world_def)
  have a: "Reply 503 () = wd_answer (sample_world 503) 0
      (rstrip_chars ''/'' (c_endpoint sample_claim) @ ''/query'') (dispatch_payload sample_claim)"
    by (simp add: sample_world_def)
  have st: "w_status (sample_worker 7 2 0) = ''running'' \<or> w_status (sample_worker 7 2 0) = ''shutting_down''"
      "q_status (assigned_row 2 7 (sample_query 100 1 (Some 1))) = ''running''"
      "q_worker_id (assigned_row 2 7 (sample_query 100 1 (Some 1))) = Some (c_worker_id sample_claim)"
    by (simp_all add: k)
  from failed_dispatch_requeues [OF busy_db_wf sample_world_fair lim a d1 w st(1) q st(2,3),
      THEN conjunct1, rule_format, of "[]"] q st(2,3)
  show ?thesis
    unfolding k by (auto simp: case_prod_beta Let_def)
qed

end
