(* ===== verification/Coordinator_Routes.thy ===== *)
theory Coordinator_Routes
  imports Models Session_Auth Init_Scripts Event_Hub Scheduler
begin

text \<open>
  \<^verbatim>\<open>ducklauncher/coordinator/routes.py\<close>: one definition per handler. A handler gets the values the
  surroundings supply (clocks, fresh ids, answers of workers, what other tasks commit to the store
  while it waits), the request with the user the middleware attached, the parameters and the
  database; it returns the database, the background tasks it started and its response or error.
\<close>

section \<open>Responses\<close>

definition query_response_of :: "query_row \<Rightarrow> query_response" where
  "query_response_of row =
     \<lparr>qr_query_id = q_id row, qr_worker_id = q_worker_id row, qr_user_id = q_user_id row,
      qr_status = q_status row, qr_query = q_query row, qr_error = q_error row,
      qr_cpus = q_cpus row, qr_memory = q_memory row, qr_disk_space = q_disk_space row,
      qr_created_at = q_created_at row, qr_started_at = q_started_at row,
      qr_completed_at = q_completed_at row, qr_result_row_count = q_result_row_count row\<rparr>"

definition sheet_response_of :: "sheet_row \<Rightarrow> sheet_response" where
  "sheet_response_of row =
     \<lparr>shr_sheet_id = sh_id row, shr_name = sh_name row, shr_sql = sh_sql row,
      shr_created_at = sh_created_at row, shr_updated_at = sh_updated_at row\<rparr>"

definition worker_response_of :: "worker_row \<times> nat \<Rightarrow> worker_response" where
  "worker_response_of = (\<lambda>(row, running).
     \<lparr>wr_worker_id = w_id row, wr_endpoint = w_endpoint row, wr_status = w_status row,
      wr_cpus = w_cpus row, wr_memory = w_memory row, wr_disk_space = w_disk_space row,
      wr_max_concurrent_queries = w_max_concurrent_queries row, wr_running_queries = int running,
      wr_memory_used_mb = w_memory_used_mb row, wr_cpu_usage = w_cpu_usage row,
      wr_started_at = w_started_at row, wr_last_heartbeat_at = w_last_heartbeat_at row\<rparr>)"

section \<open>Background tasks\<close>

datatype bg_task = BgDispatch claimed_row | BgSchedule "uuid option" int

type_synonym 'a handled = "database \<times> bg_task list \<times> (app_error + 'a http_response)"

definition trigger_schedule :: "uuid option \<Rightarrow> bg_task" where
  "trigger_schedule query_id = BgSchedule query_id 10"

definition assert_query_access :: "query_row \<Rightarrow> user_row \<Rightarrow> app_error + unit" where
  "assert_query_access row user =
     (case q_user_id row of
        None \<Rightarrow> Inr ()
      | Some owner \<Rightarrow>
          if owner \<noteq> u_id user then Inl (http_exception 403 ''Not allowed to access this query'')
          else Inr ())"

definition fail :: "database \<Rightarrow> nat \<Rightarrow> string \<Rightarrow> 'a handled" where
  "fail d st msg = (d, [], Inl (http_exception st msg))"

definition reply :: "database \<Rightarrow> bg_task list \<Rightarrow> nat \<Rightarrow> 'a \<Rightarrow> 'a handled" where
  "reply d tasks st b = (d, tasks, Inr ((ok_response b)\<lparr>rs_status := st\<rparr>))"

text \<open>The beginning of the handlers of one query: the user, the row and the access to it.\<close>

definition accessible_query :: "http_request \<Rightarrow> uuid \<Rightarrow> database \<Rightarrow> app_error + query_row" where
  "accessible_query request query_id d =
     (case get_current_user request of
        Inl e \<Rightarrow> Inl e
      | Inr user \<Rightarrow>
          (case get_query query_id d of
             None \<Rightarrow> Inl (http_exception 404 ''Query not found'')
           | Some row \<Rightarrow>
               (case assert_query_access row user of Inl e \<Rightarrow> Inl e | Inr _ \<Rightarrow> Inr row)))"

section \<open>Workers\<close>

definition register_worker_route ::
  "uuid \<Rightarrow> timestamp \<Rightarrow> environment \<Rightarrow> file_system \<Rightarrow> coordinator_settings \<Rightarrow> register_body \<Rightarrow> database
    \<Rightarrow> (uuid \<times> string list) handled" where
  "register_worker_route fresh now env fs settings body d =
     (let (d1, worker_id) = register_worker fresh now (rb_worker_id body) (rb_endpoint body)
            (rb_cpus body) (rb_memory body) (rb_disk_space body) (rb_max_concurrent_queries body) d
      in case load_init_scripts env fs (init_scripts_path settings) of
           Inl e \<Rightarrow> (d1, [], Inl (PyExc e))
         | Inr scripts \<Rightarrow> reply d1 [] 200 (worker_id, scripts))"

definition ready_worker_route :: "timestamp \<Rightarrow> uuid \<Rightarrow> database \<Rightarrow> string handled" where
  "ready_worker_route now worker_id d =
     (let (d1, updated) = ready_worker now worker_id d
      in if \<not> updated then fail d1 404 ''Worker not found or not initializing''
         else reply d1 [trigger_schedule None] 200 ''ok'')"

definition list_workers_route :: "database \<Rightarrow> worker_response list handled" where
  "list_workers_route d = reply d [] 200 (map worker_response_of (list_workers d))"

text \<open>The catalog of a running worker: \<open>answer\<close> is the worker's answer to the request for a URL, and
  \<open>validate\<close> the parsing of its body by the response model.\<close>

definition get_catalog_route ::
  "(string \<Rightarrow> 'b outcome) \<Rightarrow> ('b \<Rightarrow> app_error + catalog_response) \<Rightarrow> database \<Rightarrow> catalog_response handled" where
  "get_catalog_route answer validate d =
     (case get_running_worker d of
        None \<Rightarrow> reply d [] 200 \<lparr>cr_databases = []\<rparr>
      | Some (worker_id, w_end) \<Rightarrow>
          (case raise_for_status (answer (rstrip_chars ''/'' w_end @ ''/catalog'')) of
             HttpError _ \<Rightarrow> reply d [] 200 \<lparr>cr_databases = []\<rparr>
           | Raises \<Rightarrow> (d, [], Inl OtherExc)
           | Reply _ b \<Rightarrow> (case validate b of Inl e \<Rightarrow> (d, [], Inl e) | Inr c \<Rightarrow> reply d [] 200 c)))"

definition heartbeat_worker_route ::
  "timestamp \<Rightarrow> uuid \<Rightarrow> heartbeat_body \<Rightarrow> database \<Rightarrow> string handled" where
  "heartbeat_worker_route now worker_id body d =
     (let (d1, updated) = heartbeat_worker now worker_id (hb_cpus body) (hb_memory body)
            (hb_disk_space body) (hb_status body) (hb_memory_used_mb body) (hb_cpu_usage body) d
      in if \<not> updated then fail d1 404 ''Worker not found'' else reply d1 [] 200 ''ok'')"

definition shutdown_worker_route :: "timestamp \<Rightarrow> uuid \<Rightarrow> database \<Rightarrow> string handled" where
  "shutdown_worker_route now worker_id d =
     (let (d1, updated) = shutdown_worker now worker_id d
      in if \<not> updated then fail d1 404 ''Worker not found or not running''
         else reply d1 [] 200 ''shutting_down'')"

section \<open>Queries\<close>

definition list_my_queries_route ::
  "http_request \<Rightarrow> int \<Rightarrow> int \<Rightarrow> database \<Rightarrow> query_response list handled" where
  "list_my_queries_route request n off d =
     (case require_user request of
        Inl e \<Rightarrow> (d, [], Inl e)
      | Inr user \<Rightarrow>
          (case list_queries_for_user (u_id user) n off d of
             Inl e \<Rightarrow> (d, [], Inl (SqlExc e))
           | Inr rows \<Rightarrow> reply d [] 200 (map query_response_of rows)))"

text \<open>\<open>others\<close> is what the other tasks commit between the claim and the reading of the row.\<close>

definition submit_query_route ::
  "uuid \<Rightarrow> timestamp \<Rightarrow> timestamp \<Rightarrow> store_op list \<Rightarrow> coordinator_settings \<Rightarrow> http_request \<Rightarrow>
   submit_body \<Rightarrow> database \<Rightarrow> query_response handled" where
  "submit_query_route fresh utc now others settings request body d =
     (case get_current_user request of
        Inl e \<Rightarrow> (d, [], Inl e)
      | Inr user \<Rightarrow>
          (case create_query fresh now (sb_query body) (sb_cpus body) (sb_memory body)
                  (sb_disk_space body) (Some (u_id user)) d of
             (d1, Inl e) \<Rightarrow> (d1, [], Inl (SqlExc e))
           | (d1, Inr query_id) \<Rightarrow>
               (case claim_query_by_id utc now query_id (worker_stale_sec settings) d1 of
                  (d2, Inl e) \<Rightarrow> (d2, [], Inl (SqlExc e))
                | (d2, Inr claimed) \<Rightarrow>
                    (let tasks = (case claimed of None \<Rightarrow> [] | Some c \<Rightarrow> [BgDispatch c]);
                         d3 = run_ops others d2
                     in case get_query query_id d3 of
                          None \<Rightarrow> (d3, tasks, Inl (http_exception 500 ''Failed to create query''))
                        | Some row \<Rightarrow> reply d3 tasks 201 (query_response_of row)))))"

definition get_query_route :: "http_request \<Rightarrow> uuid \<Rightarrow> database \<Rightarrow> query_response handled" where
  "get_query_route request query_id d =
     (case accessible_query request query_id d of
        Inl e \<Rightarrow> (d, [], Inl e)
      | Inr row \<Rightarrow> reply d [] 200 (query_response_of row))"

text \<open>The response of the events endpoint is the stream of the row; \<open>turns\<close> is what its loop meets.\<close>

definition query_events_route ::
  "turn list \<Rightarrow> http_request \<Rightarrow> uuid \<Rightarrow> database \<Rightarrow> (string list \<times> bool) handled" where
  "query_events_route turns request query_id d =
     (case accessible_query request query_id d of
        Inl e \<Rightarrow> (d, [], Inl e)
      | Inr row \<Rightarrow> reply d [] 200 (event_stream row turns))"

definition get_worker_endpoint :: "uuid option \<Rightarrow> database \<Rightarrow> (uuid \<times> string) option" where
  "get_worker_endpoint worker_id d =
     (case worker_id of
        None \<Rightarrow> None
      | Some k \<Rightarrow> map_option (\<lambda>w. (w_id w, w_endpoint w))
                    (fetchrow (filter (\<lambda>w. w_id w = k) (workers d))))"

definition get_query_result_route ::
  "(string \<Rightarrow> int \<Rightarrow> int \<Rightarrow> 'b outcome) \<Rightarrow> ('b \<Rightarrow> app_error + 'c) \<Rightarrow> http_request \<Rightarrow> uuid \<Rightarrow> int \<Rightarrow> int \<Rightarrow>
   database \<Rightarrow> 'c handled" where
  "get_query_result_route answer validate request query_id off n d =
     (case accessible_query request query_id d of
        Inl e \<Rightarrow> (d, [], Inl e)
      | Inr row \<Rightarrow>
          if q_status row \<noteq> ''completed'' then fail d 409 ''Query is not completed''
          else if q_result_row_count row = None then fail d 404 ''Query has no result data''
          else (case get_worker_endpoint (q_worker_id row) d of
                  None \<Rightarrow> fail d 502 ''Worker not available''
                | Some (worker_id, w_end) \<Rightarrow>
                    (case raise_for_status
                            (answer (rstrip_chars ''/'' w_end @ ''/results/'' @ str_uuid query_id) off n) of
                       HttpError msg \<Rightarrow> fail d 502 (''Failed to fetch result from worker: '' @ msg)
                     | Raises \<Rightarrow> (d, [], Inl OtherExc)
                     | Reply _ b \<Rightarrow>
                         (case validate b of Inl e \<Rightarrow> (d, [], Inl e) | Inr page \<Rightarrow> reply d [] 200 page))))"

definition complete_query_route ::
  "timestamp \<Rightarrow> uuid \<Rightarrow> complete_body \<Rightarrow> database \<Rightarrow> string handled" where
  "complete_query_route now query_id body d =
     (case complete_query now query_id (cb_status body) (cb_error body) (cb_result_row_count body) d of
        (d1, Inl e) \<Rightarrow> (d1, [], Inl (SqlExc e))
      | (d1, Inr updated) \<Rightarrow>
          if \<not> updated then fail d1 404 ''Query not found or not active''
          else reply d1 [trigger_schedule None] 200 (cb_status body))"

section \<open>Cancellation\<close>

text \<open>What surrounds a cancellation: the server's clock at the marking, the worker's answer to the
  request, and what the other tasks commit before the marking, after it, during the request, and
  before each reading of the row in the polling loop.\<close>

record cancel_world =
  cw_now :: timestamp
  cw_answer :: "string \<Rightarrow> json_obj \<Rightarrow> unit outcome"
  cw_before_mark :: "store_op list"
  cw_after_mark :: "store_op list"
  cw_during_request :: "store_op list"
  cw_before_poll :: "nat \<Rightarrow> store_op list"

text \<open>The row that is read back at the end; the code takes it for granted.\<close>

definition reply_row :: "uuid \<Rightarrow> database \<Rightarrow> query_response handled" where
  "reply_row query_id d =
     (case get_query query_id d of
        None \<Rightarrow> (d, [], Inl OtherExc)
      | Some row \<Rightarrow> reply d [] 200 (query_response_of row))"

text \<open>The loop of twenty readings: the state after it, and the cancelled row if one was read.\<close>

fun poll_cancelled ::
  "cancel_world \<Rightarrow> uuid \<Rightarrow> nat \<Rightarrow> nat \<Rightarrow> database \<Rightarrow> database \<times> query_row option" where
  "poll_cancelled w query_id i 0 d = (d, None)"
| "poll_cancelled w query_id i (Suc left) d =
     (let d1 = run_ops (cw_before_poll w i) d
      in case get_query query_id d1 of
           Some updated \<Rightarrow>
             if q_status updated = ''cancelled'' then (d1, Some updated)
             else poll_cancelled w query_id (i + 1) left d1
         | None \<Rightarrow> poll_cancelled w query_id (i + 1) left d1)"

text \<open>Marking the query cancelled and what the branch does with the outcome.\<close>

definition mark_then ::
  "cancel_world \<Rightarrow> uuid \<Rightarrow> string \<Rightarrow> (query_row option \<Rightarrow> database \<Rightarrow> query_response handled) \<Rightarrow> database
    \<Rightarrow> query_response handled" where
  "mark_then w query_id error k d =
     (case mark_query_cancelled (cw_now w) query_id (Some error) (run_ops (cw_before_mark w) d) of
        (d1, Inl e) \<Rightarrow> (d1, [], Inl (SqlExc e))
      | (d1, Inr cancelled) \<Rightarrow> k cancelled (run_ops (cw_after_mark w) d1))"

definition cancel_pending :: "cancel_world \<Rightarrow> uuid \<Rightarrow> database \<Rightarrow> query_response handled" where
  "cancel_pending w query_id d =
     mark_then w query_id ''Cancelled before dispatch''
       (\<lambda>cancelled d1. if cancelled = None then fail d1 409 ''Query could not be cancelled''
                        else reply_row query_id d1) d"

definition cancel_without_worker :: "cancel_world \<Rightarrow> uuid \<Rightarrow> database \<Rightarrow> query_response handled" where
  "cancel_without_worker w query_id d =
     mark_then w query_id ''Worker unavailable'' (\<lambda>_ d1. reply_row query_id d1) d"

definition cancel_after_request :: "cancel_world \<Rightarrow> uuid \<Rightarrow> database \<Rightarrow> query_response handled" where
  "cancel_after_request w query_id d =
     (case poll_cancelled w query_id 0 20 d of
        (d1, Some updated) \<Rightarrow> reply d1 [] 200 (query_response_of updated)
      | (d1, None) \<Rightarrow>
          mark_then w query_id ''Cancelled by request''
            (\<lambda>cancelled d2.
               if cancelled = None then
                 (case get_query query_id d2 of
                    Some updated \<Rightarrow>
                      if q_status updated = ''cancelled'' then reply d2 [] 200 (query_response_of updated)
                      else fail d2 409 ''Query could not be cancelled''
                  | None \<Rightarrow> fail d2 409 ''Query could not be cancelled'')
               else reply_row query_id d2) d1)"

definition cancel_query_route ::
  "cancel_world \<Rightarrow> http_request \<Rightarrow> uuid \<Rightarrow> database \<Rightarrow> query_response handled" where
  "cancel_query_route w request query_id d =
     (case accessible_query request query_id d of
        Inl e \<Rightarrow> (d, [], Inl e)
      | Inr row \<Rightarrow>
          if q_status row \<in> {''completed'', ''failed'', ''cancelled''}
          then reply d [] 200 (query_response_of row)
          else if q_status row = ''pending'' then cancel_pending w query_id d
          else (case get_worker_endpoint (q_worker_id row) d of
                  None \<Rightarrow> cancel_without_worker w query_id d
                | Some (worker_id, w_end) \<Rightarrow>
                    (let answer = raise_for_status
                           (cw_answer w (rstrip_chars ''/'' w_end @ ''/query/cancel'')
                             [(''query_id'', JStr (str_uuid query_id))]);
                         d1 = run_ops (cw_during_request w) d
                     in case answer of
                          HttpError msg \<Rightarrow> fail d1 502 (''Failed to cancel on worker: '' @ msg)
                        | Raises \<Rightarrow> (d1, [], Inl OtherExc)
                        | Reply _ _ \<Rightarrow> cancel_after_request w query_id d1)))"

text \<open>\<^verbatim>\<open>GET /\<close>.\<close>

definition read_root :: "database \<Rightarrow> json_obj handled" where
  "read_root d = reply d [] 200 [(''message'', JStr ''DuckLauncher coordinator'')]"

section \<open>Sheets\<close>

definition list_sheets_route :: "http_request \<Rightarrow> database \<Rightarrow> sheet_response list handled" where
  "list_sheets_route request d =
     (case require_user request of
        Inl e \<Rightarrow> (d, [], Inl e)
      | Inr user \<Rightarrow> reply d [] 200 (map sheet_response_of (list_sheets (u_id user) d)))"

definition create_sheet_route ::
  "uuid \<Rightarrow> timestamp \<Rightarrow> http_request \<Rightarrow> create_sheet_body \<Rightarrow> database \<Rightarrow> sheet_response handled" where
  "create_sheet_route fresh now request body d =
     (case require_user request of
        Inl e \<Rightarrow> (d, [], Inl e)
      | Inr user \<Rightarrow>
          (case create_sheet fresh now (u_id user) (csb_name body) (csb_sql body) d of
             (d1, Inl e) \<Rightarrow> (d1, [], Inl (SqlExc e))
           | (d1, Inr row) \<Rightarrow> reply d1 [] 201 (sheet_response_of row)))"

definition update_sheet_route ::
  "timestamp \<Rightarrow> http_request \<Rightarrow> uuid \<Rightarrow> update_sheet_body \<Rightarrow> database \<Rightarrow> sheet_response handled" where
  "update_sheet_route now request sheet_id body d =
     (case require_user request of
        Inl e \<Rightarrow> (d, [], Inl e)
      | Inr user \<Rightarrow>
          (case update_sheet now sheet_id (u_id user) (usb_name body) (usb_sql body) d of
             (d1, None) \<Rightarrow> fail d1 404 ''Sheet not found''
           | (d1, Some row) \<Rightarrow> reply d1 [] 200 (sheet_response_of row)))"

definition delete_sheet_route :: "http_request \<Rightarrow> uuid \<Rightarrow> database \<Rightarrow> string handled" where
  "delete_sheet_route request sheet_id d =
     (case require_user request of
        Inl e \<Rightarrow> (d, [], Inl e)
      | Inr user \<Rightarrow>
          (let (d1, deleted) = delete_sheet sheet_id (u_id user) d
           in if \<not> deleted then fail d1 404 ''Sheet not found'' else reply d1 [] 200 ''deleted''))"

text \<open>\<^verbatim>\<open>_get_first_worker\<close>: a running worker, or else one that was in use.\<close>

definition get_first_worker :: "database \<Rightarrow> (uuid \<times> string) option" where
  "get_first_worker d =
     (case get_running_worker d of
        Some w \<Rightarrow> Some w
      | None \<Rightarrow> map_option (\<lambda>w. (w_id w, w_endpoint w))
          (fetchrow (order_by (\<lambda>w. - w_last_heartbeat_at w)
            (filter (\<lambda>w. w_status w \<in> {''running'', ''shutting_down'', ''unreachable''}) (workers d)))))"

section \<open>Access\<close>

lemma get_query_of: "get_query k d = query_of k d"
  by (simp add: get_query_def row_of_def)

lemma accessible_query_Inr:
  "accessible_query request k d = Inr row \<Longrightarrow> query_of k d = Some row"
  by (auto simp: accessible_query_def get_query_of split: sum.splits option.splits)


definition request_of :: "user_row \<Rightarrow> http_request" where
  "request_of u = (sample_request None)\<lparr>req_user := Some u\<rparr>"


section \<open>Cancellation ends\<close>

lemma query_ok_terminal:
  "query_ok q \<Longrightarrow> q_status q \<noteq> ''pending'' \<Longrightarrow> q_status q \<noteq> ''running'' \<Longrightarrow> terminal (q_status q)"
  by (elim query_ok_cases) auto

lemma store_wf_query_ok: "store_wf d \<Longrightarrow> query_of k d = Some q \<Longrightarrow> query_ok q"
  using row_of_Some by (fastforce simp: store_wf_def)

lemma run_ops_keeps_row:
  assumes "store_wf d" "\<forall>op\<in>set ops. valid_op op" "query_of k d = Some q"
  shows "\<exists>q'. query_of k (run_ops ops d) = Some q'"
  using assms
proof (induction ops arbitrary: d q)
  case Nil
  then show ?case by simp
next
  case (Cons op ops)
  then obtain q' where "query_of k (apply_op op d) = Some q'"
    using apply_op_row [OF Cons.prems(1) _ Cons.prems(3), of op] by auto
  with Cons show ?case
    using store_wf_apply_op [OF Cons.prems(1), of op] by simp
qed

lemma run_ops_keeps_final:
  assumes "store_wf d" "\<forall>op\<in>set ops. valid_op op" "query_of k d = Some q" "terminal (q_status q)"
  shows "query_of k (run_ops ops d) = Some q"
  using finished.run_fact [of d ops k q] assms by (simp add: run_ops_def)

lemma mark_cancelled_final:
  assumes "store_wf d" and "query_of k d = Some q"
  shows "\<exists>q'. query_of k (fst (mark_query_cancelled now k e d)) = Some q' \<and> terminal (q_status q')"
    and "store_wf (fst (mark_query_cancelled now k e d))"
proof -
  have "q_id q = k" using row_of_Some [OF assms(2)] by simp
  have "query_of k (fst (mark_query_cancelled now k e d)) = map_option
      (\<lambda>q. if q_id q = k \<and> q_status q \<in> {''pending'', ''running''} then cancelled_row now e q else q)
      (query_of k d)"
    unfolding queries_cancelled by (rule row_of_update) simp
  with assms(2) \<open>q_id q = k\<close> query_ok_terminal [OF store_wf_query_ok [OF assms]]
  show "\<exists>q'. query_of k (fst (mark_query_cancelled now k e d)) = Some q' \<and> terminal (q_status q')"
    by auto
  show "store_wf (fst (mark_query_cancelled now k e d))"
    using store_wf_apply_op [OF assms(1), of "OpCancel now k e"] by simp
qed

definition fair_cancel :: "cancel_world \<Rightarrow> bool" where
  "fair_cancel w \<longleftrightarrow>
     (\<forall>op \<in> set (cw_before_mark w) \<union> set (cw_after_mark w) \<union> set (cw_during_request w).
        valid_op op) \<and> (\<forall>i. \<forall>op\<in>set (cw_before_poll w i). valid_op op)"

text \<open>The answer of a cancellation: the row as it is in the database at the end, with a final status.\<close>

definition final_answer :: "uuid \<Rightarrow> query_response handled \<Rightarrow> bool" where
  "final_answer k h \<longleftrightarrow> (case h of
     (d', tasks, Inl e) \<Rightarrow> True
   | (d', tasks, Inr response) \<Rightarrow> (\<exists>q. query_of k d' = Some q \<and> terminal (q_status q) \<and>
       rs_body response = Body (query_response_of q) \<and> rs_status response = 200))"

lemma final_answer_fail [simp]: "final_answer k (fail d st msg)" "final_answer k (d, ts, Inl e)"
  by (simp_all add: final_answer_def fail_def)

lemma final_answer_reply:
  "query_of k d = Some q \<Longrightarrow> terminal (q_status q) \<Longrightarrow>
    final_answer k (reply d ts 200 (query_response_of q))"
  by (simp add: final_answer_def reply_def ok_response_def)

lemma final_answer_reply_row:
  "query_of k d = Some q \<Longrightarrow> terminal (q_status q) \<Longrightarrow> final_answer k (reply_row k d)"
  by (simp add: reply_row_def get_query_of final_answer_reply)

text \<open>After a marking of an existing query the row is final, whatever the others did around it.\<close>

lemma mark_then_final:
  assumes wf: "store_wf d" and q: "query_of k d = Some q" and fair: "fair_cancel w"
    and cont: "\<And>r d1 q1. query_of k d1 = Some q1 \<Longrightarrow> terminal (q_status q1) \<Longrightarrow> final_answer k (f r d1)"
  shows "final_answer k (mark_then w k e f d)"
proof -
  let ?d1 = "run_ops (cw_before_mark w) d"
  let ?m = "mark_query_cancelled (cw_now w) k (Some e) ?d1"
  have v: "\<forall>op\<in>set (cw_before_mark w). valid_op op" "\<forall>op\<in>set (cw_after_mark w). valid_op op"
    using fair by (auto simp: fair_cancel_def)
  have wf1: "store_wf ?d1" by (rule run_ops_wf [OF wf v(1)])
  obtain q1 where q1: "query_of k ?d1 = Some q1"
    using run_ops_keeps_row [OF wf v(1) q] by blast
  obtain q2 where q2: "query_of k (fst ?m) = Some q2" "terminal (q_status q2)"
    using mark_cancelled_final(1) [OF wf1 q1] by blast
  have "query_of k (run_ops (cw_after_mark w) (fst ?m)) = Some q2"
    by (rule run_ops_keeps_final [OF mark_cancelled_final(2) [OF wf1 q1] v(2) q2])
  from cont [OF this q2(2)] show ?thesis
    by (auto simp: mark_then_def split: prod.split sum.split)
qed

lemma poll_cancelled_result:
  assumes "store_wf d" "fair_cancel w" "query_of k d = Some q"
  shows "store_wf (fst (poll_cancelled w k i m d)) \<and>
    (\<exists>q'. query_of k (fst (poll_cancelled w k i m d)) = Some q') \<and>
    (\<forall>u. snd (poll_cancelled w k i m d) = Some u \<longrightarrow>
      query_of k (fst (poll_cancelled w k i m d)) = Some u \<and> q_status u = ''cancelled'')"
  using assms
proof (induction m arbitrary: i d q)
  case 0
  then show ?case by simp
next
  case (Suc m)
  let ?d1 = "run_ops (cw_before_poll w i) d"
  have v: "\<forall>op\<in>set (cw_before_poll w i). valid_op op"
    using Suc.prems(2) by (simp add: fair_cancel_def)
  obtain q1 where q1: "query_of k ?d1 = Some q1"
    using run_ops_keeps_row [OF Suc.prems(1) v Suc.prems(3)] by blast
  have wf1: "store_wf ?d1" by (rule run_ops_wf [OF Suc.prems(1) v])
  show ?case
  proof (cases "q_status q1 = ''cancelled''")
    case True
    then show ?thesis using q1 wf1 by (simp add: get_query_of Let_def)
  next
    case False
    with Suc.IH [OF wf1 Suc.prems(2) q1] q1 show ?thesis
      by (simp add: get_query_of Let_def)
  qed
qed

lemma cancel_after_request_final:
  assumes "store_wf d" and "fair_cancel w" and "query_of k d = Some q"
  shows "final_answer k (cancel_after_request w k d)"
proof (cases "poll_cancelled w k 0 20 d")
  case (Pair d2 u)
  note poll = poll_cancelled_result [OF assms, of 0 20, unfolded Pair]
  show ?thesis
  proof (cases u)
    case (Some r)
    with Pair poll show ?thesis
      by (simp add: cancel_after_request_def final_answer_reply)
  next
    case None
    obtain q2 where "query_of k d2 = Some q2" using poll by auto
    moreover have "store_wf d2" using poll by simp
    ultimately have "final_answer k (mark_then w k e (\<lambda>cancelled d2. if cancelled = None then
             (case get_query k d2 of
                Some updated \<Rightarrow>
                  if q_status updated = ''cancelled'' then reply d2 [] 200 (query_response_of updated)
                  else fail d2 409 ''Query could not be cancelled''
              | None \<Rightarrow> fail d2 409 ''Query could not be cancelled'')
           else reply_row k d2) d2)" for e
      by (intro mark_then_final [OF _ _ assms(2)])
         (auto simp: final_answer_reply_row get_query_of final_answer_reply)
    with Pair None show ?thesis
      by (simp add: cancel_after_request_def)
  qed
qed

text \<open>C27. A cancellation that answers has ended the query. Whatever the worker answers and the other
  tasks do meanwhile, a cancellation that returns a response returns the row as it is in the
  database, and its status is final; otherwise it returns an error.\<close>

theorem cancel_answers_finished:
  assumes "store_wf d" and "fair_cancel w"
    and "cancel_query_route w request k d = (d', tasks, Inr response)"
  shows "\<exists>q. query_of k d' = Some q \<and> terminal (q_status q) \<and>
    rs_body response = Body (query_response_of q) \<and> rs_status response = 200"
proof -
  have "final_answer k (cancel_query_route w request k d)"
  proof (cases "accessible_query request k d")
    case (Inl e)
    then show ?thesis by (simp add: cancel_query_route_def)
  next
    case (Inr row)
    then have row: "query_of k d = Some row" by (rule accessible_query_Inr)
    have pending: "final_answer k (cancel_pending w k d)"
      unfolding cancel_pending_def
      by (rule mark_then_final [OF assms(1) row assms(2)]) (simp add: final_answer_reply_row)
    have no_worker: "final_answer k (cancel_without_worker w k d)"
      unfolding cancel_without_worker_def
      by (rule mark_then_final [OF assms(1) row assms(2)]) (simp add: final_answer_reply_row)
    have v: "\<forall>op\<in>set (cw_during_request w). valid_op op"
      using assms(2) by (auto simp: fair_cancel_def)
    obtain q1 where "query_of k (run_ops (cw_during_request w) d) = Some q1"
      using run_ops_keeps_row [OF assms(1) v row] by blast
    with run_ops_wf [OF assms(1) v] assms(2)
    have after: "final_answer k (cancel_after_request w k (run_ops (cw_during_request w) d))"
      by (rule cancel_after_request_final)
    have final: "terminal (q_status row)" if "q_status row \<in> {''completed'', ''failed'', ''cancelled''}"
      using that by (simp add: terminal_def)
    show ?thesis
      using pending no_worker after final final_answer_reply [OF row]
      unfolding cancel_query_route_def Inr Let_def
      by (simp split: option.split outcome.split)
  qed
  with assms(3) show ?thesis
    by (simp add: final_answer_def)
qed

definition quiet_cancel :: cancel_world where
  "quiet_cancel = \<lparr>cw_now = 9, cw_answer = (\<lambda>_ _. Reply 200 ()), cw_before_mark = [],
     cw_after_mark = [], cw_during_request = [], cw_before_poll = (\<lambda>_. [])\<rparr>"

theorem cancel_answers_finished_witness:
  "\<exists>d' tasks response q.
     cancel_query_route quiet_cancel (request_of (sample_user 1 ''alice'')) 100 idle_db =
       (d', tasks, Inr response) \<and>
     query_of 100 d' = Some q \<and> terminal (q_status q)"
proof -
  let ?q = "sample_query 100 1 (Some 1)"
  let ?r = "cancelled_row 9 (Some ''Cancelled before dispatch'') ?q"
  have fair: "fair_cancel quiet_cancel"
    by (simp add: fair_cancel_def quiet_cancel_def)
  have len: "length (json_dumps (notify_payload 100 ''cancelled'' (Some ''Cancelled before dispatch'') None)) < 8000"
    by (simp add: notify_payload_def json_dumps_def dump_str_uuid)
       (simp add: dump_string_def escape_char_def code_def)
  have mark: "\<exists>d1. mark_query_cancelled 9 100 (Some ''Cancelled before dispatch'') idle_db = (d1, Inr (Some ?r)) \<and>
      query_of 100 d1 = Some ?r"
    using len by (simp add: mark_query_cancelled_def Let_def returning_def idle_db_def
        notify_query_status_def sql_update_def row_of_Cons cancelled_row_def)
  have "accessible_query (request_of (sample_user 1 ''alice'')) 100 idle_db = Inr ?q"
    by (simp add: accessible_query_def get_current_user_def request_of_def get_query_of
        assert_query_access_def idle_db_def row_of_Cons)
  then obtain d' response where r: "cancel_query_route quiet_cancel
      (request_of (sample_user 1 ''alice'')) 100 idle_db = (d', [], Inr response)"
    using mark by (auto simp: cancel_query_route_def cancel_pending_def mark_then_def quiet_cancel_def
        reply_row_def get_query_of reply_def)
  from cancel_answers_finished [OF idle_db_wf fair r] r show ?thesis
    by blast
qed

section \<open>Submission\<close>

definition submitted_row :: "uuid \<Rightarrow> timestamp \<Rightarrow> submit_body \<Rightarrow> user_row \<Rightarrow> query_row" where
  "submitted_row fresh now body user =
     \<lparr>q_id = fresh, q_worker_id = None, q_user_id = Some (u_id user), q_status = ''pending'',
      q_query = sb_query body, q_error = None, q_cpus = sb_cpus body, q_memory = sb_memory body,
      q_disk_space = sb_disk_space body, q_created_at = now, q_started_at = None,
      q_completed_at = None, q_result_row_count = None\<rparr>"

lemma submitted_row_simps [simp]:
  "q_id (submitted_row fresh now body user) = fresh" "q_status (submitted_row fresh now body user) = ''pending''"
  "q_user_id (submitted_row fresh now body user) = Some (u_id user)"
  "q_query (submitted_row fresh now body user) = sb_query body"
  "q_cpus (submitted_row fresh now body user) = sb_cpus body"
  "q_memory (submitted_row fresh now body user) = sb_memory body"
  "q_disk_space (submitted_row fresh now body user) = sb_disk_space body"
  by (simp_all add: submitted_row_def)

lemma create_submitted:
  assumes "u_id user \<in> u_id ` set (users d)" and "fresh \<notin> q_id ` set (queries d)"
  shows "create_query fresh now (sb_query body) (sb_cpus body) (sb_memory body) (sb_disk_space body)
      (Some (u_id user)) d = (d\<lparr>queries := queries d @ [submitted_row fresh now body user]\<rparr>, Inr fresh)"
  using assms by (simp add: create_query_def sql_insert_def Let_def submitted_row_def)

text \<open>C28. A submission is stored and, if a worker fits, dispatched. On a well-formed store that accepts the
  fixed notifications, and with nobody interfering, submitting answers 201 with the new row, owned
  by the user. If some worker fits, the row is running on a fitting worker and exactly one task is
  started, which dispatches this query to that worker; otherwise the row is pending and no task is
  started.\<close>

theorem submit_stores_and_dispatches:
  assumes "store_wf d" and "130 \<le> payload_limit d" and "req_user request = Some user"
    and "u_id user \<in> u_id ` set (users d)" and "fresh \<notin> q_id ` set (queries d)"
  shows "\<exists>d' tasks row. submit_query_route fresh utc now [] settings request body d =
      reply d' tasks 201 (query_response_of row) \<and>
    query_of fresh d' = Some row \<and> q_user_id row = Some (u_id user) \<and> q_query row = sb_query body \<and>
    (if \<exists>v\<in>set (workers d). worker_fits (utc - worker_stale_sec settings * second)
          (sb_cpus body) (sb_memory body) (sb_disk_space body) d v
     then \<exists>c v. tasks = [BgDispatch c] \<and> c_query_id c = fresh \<and> c_query c = sb_query body \<and>
        v \<in> set (workers d) \<and> c_worker_id c = w_id v \<and> c_endpoint c = w_endpoint v \<and>
        worker_fits (utc - worker_stale_sec settings * second)
          (sb_cpus body) (sb_memory body) (sb_disk_space body) d v \<and>
        q_status row = ''running'' \<and> q_worker_id row = Some (w_id v)
     else tasks = [] \<and> q_status row = ''pending'')"
proof -
  let ?cut = "utc - worker_stale_sec settings * second" and ?p = "submitted_row fresh now body user"
  let ?d1 = "d\<lparr>queries := queries d @ [?p]\<rparr>"
  note create = create_submitted [OF assms(4,5), of now body]
  have wf1: "store_wf ?d1"
    using store_wf_create [OF assms(1), of fresh now "sb_query body" "sb_cpus body" "sb_memory body"
        "sb_disk_space body" "Some (u_id user)"] create by simp
  have in1: "?p \<in> set (queries ?d1)" "q_status ?p = ''pending''" and lim1: "130 \<le> payload_limit ?d1"
    using assms(2) by simp_all
  have none: "query_of fresh d = None"
    using assms(5) by (simp add: row_of_None)
  have fits: "worker_fits c a b e ?d1 v = worker_fits c a b e d v" for c a b e v
    by (simp add: worker_fits_def load_sum_def load_queries_def load_rows_def)
  have submit: "submit_query_route fresh utc now [] settings request body d =
      (case claim_query_by_id utc now fresh (worker_stale_sec settings) ?d1 of
         (d2, Inl e) \<Rightarrow> (d2, [], Inl (SqlExc e))
       | (d2, Inr claimed) \<Rightarrow>
           (let tasks = (case claimed of None \<Rightarrow> [] | Some c \<Rightarrow> [BgDispatch c])
            in case query_of fresh d2 of
                 None \<Rightarrow> (d2, tasks, Inl (http_exception 500 ''Failed to create query''))
               | Some row \<Rightarrow> reply d2 tasks 201 (query_response_of row)))"
    using assms(3) by (simp add: submit_query_route_def get_current_user_def create get_query_of
        Let_def split: sum.split prod.split)
  show ?thesis
  proof (cases rule: claim_by_id_result [OF wf1 lim1 in1, where utc = utc and now = now
        and stale = "worker_stale_sec settings"])
    case (1 v d2)
    let ?c = "\<lparr>c_query_id = fresh, c_query = sb_query body, c_cpus = sb_cpus body, c_memory = sb_memory body,
      c_disk_space = sb_disk_space body, c_worker_id = w_id v, c_endpoint = w_endpoint v\<rparr>"
    from 1 show ?thesis
      unfolding submit
      by (intro exI [of _ d2] exI [of _ "[BgDispatch ?c]"] exI [of _ "assigned_row now (w_id v) ?p"])
         (auto simp: fits)
  next
    case 2
    then show ?thesis
      unfolding submit
      by (intro exI [of _ ?d1] exI [of _ "[]"] exI [of _ ?p])
         (auto simp: fits none row_of_append row_of_Cons)
  qed
qed

theorem submit_stores_and_dispatches_witness:
  "\<exists>d' tasks row. submit_query_route 200 20 20 [] sample_settings (request_of (sample_user 1 ''alice''))
      \<lparr>sb_query = ''SELECT 2'', sb_cpus = None, sb_memory = None, sb_disk_space = None\<rparr>
      (idle_db\<lparr>users := [sample_user 1 ''alice'']\<rparr>) = reply d' tasks 201 (query_response_of row) \<and>
    q_query row = ''SELECT 2''"
proof -
  let ?d = "idle_db\<lparr>users := [sample_user 1 ''alice'']\<rparr>"
  have wf: "store_wf ?d"
    using idle_db_wf by (simp add: store_wf_def idle_db_def)
  have r: "req_user (request_of (sample_user 1 ''alice'')) = Some (sample_user 1 ''alice'')"
    by (simp add: request_of_def)
  have "130 \<le> payload_limit ?d" "u_id (sample_user 1 ''alice'') \<in> u_id ` set (users ?d)"
      "200 \<notin> q_id ` set (queries ?d)"
    by (simp_all add: idle_db_def)
  from submit_stores_and_dispatches [OF wf this(1) r this(2,3), of 20 20 sample_settings
      "\<lparr>sb_query = ''SELECT 2'', sb_cpus = None, sb_memory = None, sb_disk_space = None\<rparr>"]
  show ?thesis by auto
qed

end
