(* ===== verification/Duck_Executor.thy ===== *)
theory Duck_Executor
  imports Settings "HOL-Library.AList"
begin

text \<open>
  \<^verbatim>\<open>ducklauncher/worker/duckdb.py\<close>: the executor of a worker, with its pool of connections, the map of
  active queries, the execution and cancellation of a query, and its shutdown. DuckDB itself and
  the file system of the worker are a record of functions on a state the model does not look into.
  A method is written twice where it matters: as a whole, and as the sequence of its steps between
  two of which other threads can run. \<open>execute_is_its_steps\<close> connects the two; the theory
  \<open>Executor_Pool\<close> interleaves the steps of many threads.
\<close>

section \<open>The library\<close>

text \<open>A connection object is named by a number. \<open>DuckError\<close> is \<^verbatim>\<open>duckdb.Error\<close> without its subclass
  \<^verbatim>\<open>InterruptException\<close>, \<open>OtherError\<close> an exception that is neither; both with their text.\<close>

type_synonym conn = nat

datatype duck_error = InterruptException string | DuckError string | OtherError string

fun error_text :: "duck_error \<Rightarrow> string" where
  "error_text (InterruptException s) = s"
| "error_text (DuckError s) = s"
| "error_text (OtherError s) = s"

datatype duck_value = DNull | DInt int | DText string | DOther string

record duck_relation =
  description :: "string list"
  fetchall :: "duck_value list list"

record 'w duckdb =
  en_connect :: "string \<Rightarrow> conn \<Rightarrow> 'w \<Rightarrow> 'w \<times> duck_error option"
  en_execute :: "conn \<Rightarrow> string \<Rightarrow> duck_value list \<Rightarrow> 'w \<Rightarrow> 'w \<times> (duck_error + duck_relation)"
  en_interrupt :: "conn \<Rightarrow> 'w \<Rightarrow> 'w"
  en_close :: "conn \<Rightarrow> 'w \<Rightarrow> 'w \<times> duck_error option"
  en_mkdir :: "string \<Rightarrow> 'w \<Rightarrow> 'w"
  en_exists :: "string \<Rightarrow> 'w \<Rightarrow> bool"
  en_unlink :: "string \<Rightarrow> 'w \<Rightarrow> 'w \<times> duck_error option"

section \<open>The state of the executor\<close>

text \<open>\<^verbatim>\<open>_available\<close> is a queue of bounded size, \<^verbatim>\<open>_active\<close> a dictionary in insertion order. The locks
  are what makes the steps below atomic. \<open>x_next\<close> names the next connection object.\<close>

record 'w executor =
  x_database_path :: string
  x_pool_size :: int
  x_result_dir :: posix_path
  x_admin :: conn
  x_available :: "conn list"
  x_active :: "(uuid \<times> conn) list"
  x_next :: conn
  x_world :: 'w

text \<open>A call blocks for ever (on a queue), raises or returns.\<close>

datatype 'a call = Blocks | Throws duck_error | Returns 'a

definition connect :: "'w duckdb \<Rightarrow> 'w executor \<Rightarrow> 'w executor \<times> (duck_error + conn)" where
  "connect dl x =
     (case en_connect dl (x_database_path x) (x_next x) (x_world x) of
        (w, Some e) \<Rightarrow> (x\<lparr>x_world := w\<rparr>, Inl e)
      | (w, None) \<Rightarrow> (x\<lparr>x_world := w, x_next := x_next x + 1\<rparr>, Inr (x_next x)))"

text \<open>\<^verbatim>\<open>queue.Queue.put\<close>: a size of zero or less is no bound.\<close>

definition put :: "conn \<Rightarrow> 'w executor \<Rightarrow> 'w executor option" where
  "put c x =
     (if 0 < x_pool_size x \<and> x_pool_size x \<le> int (length (x_available x)) then None
      else Some (x\<lparr>x_available := x_available x @ [c]\<rparr>))"

definition init_executor ::
  "'w duckdb \<Rightarrow> string \<Rightarrow> int \<Rightarrow> posix_path \<Rightarrow> 'w \<Rightarrow> duck_error + 'w executor" where
  "init_executor dl database_path pool_size directory w =
     (case en_connect dl database_path 0 (en_mkdir dl (str_path directory) w) of
        (w1, Some e) \<Rightarrow> Inl e
      | (w1, None) \<Rightarrow>
          Inr \<lparr>x_database_path = database_path, x_pool_size = pool_size, x_result_dir = directory,
               x_admin = 0, x_available = [], x_active = [], x_next = 1, x_world = w1\<rparr>)"

fun warm_turns :: "'w duckdb \<Rightarrow> nat \<Rightarrow> 'w executor \<Rightarrow> 'w executor \<times> unit call" where
  "warm_turns dl 0 x = (x, Returns ())"
| "warm_turns dl (Suc n) x =
     (case connect dl x of
        (x1, Inl e) \<Rightarrow> (x1, Throws e)
      | (x1, Inr c) \<Rightarrow> (case put c x1 of None \<Rightarrow> (x1, Blocks) | Some x2 \<Rightarrow> warm_turns dl n x2))"

definition warm_pool :: "'w duckdb \<Rightarrow> 'w executor \<Rightarrow> 'w executor \<times> unit call" where
  "warm_pool dl x = warm_turns dl (nat (x_pool_size x)) x"

fun run_init_scripts ::
  "'w duckdb \<Rightarrow> string list \<Rightarrow> 'w executor \<Rightarrow> 'w executor \<times> (duck_error + unit)" where
  "run_init_scripts dl [] x = (x, Inr ())"
| "run_init_scripts dl (script # scripts) x =
     (case en_execute dl (x_admin x) script [] (x_world x) of
        (w, Inl e) \<Rightarrow> (x\<lparr>x_world := w\<rparr>, Inl e)
      | (w, Inr _) \<Rightarrow> run_init_scripts dl scripts (x\<lparr>x_world := w\<rparr>))"

definition result_path :: "'w executor \<Rightarrow> uuid \<Rightarrow> posix_path" where
  "result_path x query_id = path_div (x_result_dir x) (str_uuid query_id @ ''.parquet'')"

section \<open>Which queries have a result\<close>

definition RESULT_KEYWORDS :: "string list" where
  "RESULT_KEYWORDS = [''with'', ''select'', ''describe'', ''show'', ''explain'', ''values'']"

text \<open>The regular expression: white space, one of the words in any case, the end of a word.\<close>

definition result_query :: "string \<Rightarrow> bool" where
  "result_query s =
     (let t = dropWhile is_space s
      in list_ex (\<lambda>k. startswith (lower t) k \<and>
           (drop (length k) t = [] \<or> \<not> is_word (hd (drop (length k) t)))) RESULT_KEYWORDS)"

definition returns_results :: "string \<Rightarrow> bool" where
  "returns_results query =
     (let stripped = strip (rstrip_chars '';'' (strip query))
      in if contains stripped '';'' then False else result_query stripped)"

section \<open>Executing a query\<close>

datatype exec_error = QueryCancelledError string | ExecFailed duck_error

type_synonym exec_result = "exec_error + duck_value option"

definition acquire :: "'w executor \<Rightarrow> ('w executor \<times> conn) option" where
  "acquire x =
     (case x_available x of [] \<Rightarrow> None | c # cs \<Rightarrow> Some (x\<lparr>x_available := cs\<rparr>, c))"

definition set_active :: "uuid \<Rightarrow> conn \<Rightarrow> 'w executor \<Rightarrow> 'w executor" where
  "set_active query_id c x = x\<lparr>x_active := AList.update query_id c (x_active x)\<rparr>"

definition pop_active :: "uuid \<Rightarrow> 'w executor \<Rightarrow> 'w executor" where
  "pop_active query_id x = x\<lparr>x_active := AList.delete query_id (x_active x)\<rparr>"

text \<open>\<^verbatim>\<open>_release\<close>: a discarded connection is closed, whatever that raises, and replaced; then the
  connection is put into the queue.\<close>

definition renew ::
  "'w duckdb \<Rightarrow> conn \<Rightarrow> bool \<Rightarrow> 'w executor \<Rightarrow> 'w executor \<times> (duck_error + conn)" where
  "renew dl c discard x =
     (if discard then connect dl (x\<lparr>x_world := fst (en_close dl c (x_world x))\<rparr>) else (x, Inr c))"

definition release :: "'w duckdb \<Rightarrow> conn \<Rightarrow> bool \<Rightarrow> 'w executor \<Rightarrow> 'w executor \<times> unit call" where
  "release dl c discard x =
     (case renew dl c discard x of
        (x1, Inl e) \<Rightarrow> (x1, Throws e)
      | (x1, Inr c') \<Rightarrow> (case put c' x1 of None \<Rightarrow> (x1, Blocks) | Some x2 \<Rightarrow> (x2, Returns ())))"

text \<open>The statements. \<^verbatim>\<open>fetchone()[0]\<close> of no row is an exception of Python, \<^verbatim>\<open>None\<close> being no
  sequence.\<close>

definition copy_sql :: "string \<Rightarrow> string \<Rightarrow> string" where
  "copy_sql query path =
     ''COPY ('' @ query @ '') TO '' @ [CHR 0x27] @ path @ [CHR 0x27] @ '' (FORMAT PARQUET)''"

definition COUNT_SQL :: string where
  "COUNT_SQL = ''SELECT count(*) FROM read_parquet(?)''"

fun first_value :: "duck_relation \<Rightarrow> duck_error + duck_value" where
  "first_value r =
     (case fetchall r of
        (v # _) # _ \<Rightarrow> Inr v
      | [] # _ \<Rightarrow> Inl (OtherError ''tuple index out of range'')
      | [] \<Rightarrow> Inl (OtherError ([CHR 0x27] @ ''NoneType'' @ [CHR 0x27] @ '' object is not subscriptable'')))"

definition remove_result ::
  "'w duckdb \<Rightarrow> uuid \<Rightarrow> 'w executor \<Rightarrow> 'w executor \<times> duck_error option" where
  "remove_result dl query_id x =
     (let path = str_path (result_path x query_id)
      in if en_exists dl path (x_world x)
         then (case en_unlink dl path (x_world x) of (w, e) \<Rightarrow> (x\<lparr>x_world := w\<rparr>, e))
         else (x, None))"

text \<open>The body of the \<^verbatim>\<open>try\<close>, in its two library calls.\<close>

definition first_statement ::
  "'w duckdb \<Rightarrow> conn \<Rightarrow> uuid \<Rightarrow> string \<Rightarrow> 'w executor \<Rightarrow> 'w executor \<times> (duck_error + unit)" where
  "first_statement dl c query_id query x =
     (case en_execute dl c
             (if returns_results query then copy_sql query (str_path (result_path x query_id)) else query)
             [] (x_world x) of
        (w, r) \<Rightarrow> (x\<lparr>x_world := w\<rparr>, map_sum id (\<lambda>_. ()) r))"

definition count_rows ::
  "'w duckdb \<Rightarrow> conn \<Rightarrow> uuid \<Rightarrow> 'w executor \<Rightarrow> 'w executor \<times> (duck_error + duck_value option)" where
  "count_rows dl c query_id x =
     (case en_execute dl c COUNT_SQL [DText (str_path (result_path x query_id))] (x_world x) of
        (w, Inl e) \<Rightarrow> (x\<lparr>x_world := w\<rparr>, Inl e)
      | (w, Inr r) \<Rightarrow> (x\<lparr>x_world := w\<rparr>, map_sum id Some (first_value r)))"

text \<open>The handlers: whether the connection is discarded, and the exception that leaves.\<close>

fun on_error ::
  "'w duckdb \<Rightarrow> uuid \<Rightarrow> duck_error \<Rightarrow> 'w executor \<Rightarrow> 'w executor \<times> bool \<times> exec_result" where
  "on_error dl query_id (InterruptException s) x =
     (case remove_result dl query_id x of
        (x1, None) \<Rightarrow> (x1, True, Inl (QueryCancelledError ''Query was cancelled''))
      | (x1, Some e) \<Rightarrow> (x1, True, Inl (ExecFailed e)))"
| "on_error dl query_id e x =
     (case remove_result dl query_id x of
        (x1, None) \<Rightarrow> (x1, False, Inl (ExecFailed e))
      | (x1, Some e') \<Rightarrow> (x1, False, Inl (ExecFailed e')))"

definition try_body ::
  "'w duckdb \<Rightarrow> conn \<Rightarrow> uuid \<Rightarrow> string \<Rightarrow> 'w executor \<Rightarrow> 'w executor \<times> bool \<times> exec_result" where
  "try_body dl c query_id query x =
     (case first_statement dl c query_id query x of
        (x1, Inl e) \<Rightarrow> on_error dl query_id e x1
      | (x1, Inr _) \<Rightarrow>
          if returns_results query
          then (case count_rows dl c query_id x1 of
                  (x2, Inl e) \<Rightarrow> on_error dl query_id e x2
                | (x2, Inr n) \<Rightarrow> (x2, False, Inr n))
          else (x1, False, Inr None))"

text \<open>An exception in the \<^verbatim>\<open>finally\<close> replaces the result.\<close>

definition finally_result :: "unit call \<Rightarrow> exec_result \<Rightarrow> exec_result call" where
  "finally_result r res =
     (case r of Blocks \<Rightarrow> Blocks | Throws e \<Rightarrow> Returns (Inl (ExecFailed e)) | Returns _ \<Rightarrow> Returns res)"

definition execute ::
  "'w duckdb \<Rightarrow> uuid \<Rightarrow> string \<Rightarrow> 'w executor \<Rightarrow> 'w executor \<times> exec_result call" where
  "execute dl query_id query x =
     (case acquire x of
        None \<Rightarrow> (x, Blocks)
      | Some (x1, c) \<Rightarrow>
          (case try_body dl c query_id query (set_active query_id c x1) of
             (x2, discard, res) \<Rightarrow>
               (case release dl c discard (pop_active query_id x2) of
                  (x3, r) \<Rightarrow> (x3, finally_result r res))))"

section \<open>Cancelling and closing\<close>

definition active_conn :: "uuid \<Rightarrow> 'w executor \<Rightarrow> conn option" where
  "active_conn query_id x = map_of (x_active x) query_id"

definition interrupt :: "'w duckdb \<Rightarrow> conn \<Rightarrow> 'w executor \<Rightarrow> 'w executor" where
  "interrupt dl c x = x\<lparr>x_world := en_interrupt dl c (x_world x)\<rparr>"

definition cancel :: "'w duckdb \<Rightarrow> uuid \<Rightarrow> 'w executor \<Rightarrow> 'w executor \<times> bool" where
  "cancel dl query_id x =
     (case active_conn query_id x of
        None \<Rightarrow> (x, False)
      | Some c \<Rightarrow> (interrupt dl c x, True))"

definition cancel_all :: "'w duckdb \<Rightarrow> 'w executor \<Rightarrow> 'w executor \<times> uuid list" where
  "cancel_all dl x =
     (let query_ids = map fst (x_active x)
      in (foldl (\<lambda>y query_id. fst (cancel dl query_id y)) x query_ids, query_ids))"

definition active_count :: "'w executor \<Rightarrow> nat" where
  "active_count x = length (x_active x)"

definition close_executor :: "'w duckdb \<Rightarrow> 'w executor \<Rightarrow> 'w executor \<times> duck_error option" where
  "close_executor dl x =
     (let quietly = foldl (\<lambda>w c. fst (en_close dl c w));
          w1 = quietly (x_world x) (map snd (x_active x));
          w2 = quietly w1 (x_available x)
      in case en_close dl (x_admin x) w2 of
           (w3, e) \<Rightarrow> (x\<lparr>x_active := [], x_available := [], x_world := w3\<rparr>, e))"

end
