(* ===== verification/Executor_Pool.thy ===== *)
theory Executor_Pool
  imports Duck_Executor Machine "HOL-Library.Multiset"
begin

text \<open>
  The executor with many threads. Each call of \<^verbatim>\<open>execute\<close> and \<^verbatim>\<open>cancel\<close> runs in a thread of its own,
  and other threads run between any two of its steps: a step is one section under a lock, one
  operation of the queue or one call of the library. The step relation starts threads, lets one of
  them take its next step, or changes the library's state in any way (other connections, the
  administration connection, other processes). Its invariant accounts for every connection of
  the pool; from it follow that no connection is lost or shared, that a thread is only ever held up
  by threads that can go on, and what a cancellation can hit.
\<close>

section \<open>Threads\<close>

datatype thread =
    Waiting uuid string
  | Entering uuid string conn
  | Executing uuid string conn
  | Counting uuid conn
  | Failing uuid conn duck_error
  | Leaving uuid conn bool exec_result
  | Releasing conn bool exec_result
  | Putting conn exec_result
  | Returned exec_result
  | Cancelling uuid
  | Interrupting conn
  | CancelReturned bool

text \<open>The next step of a thread; nothing when it waits for the queue or has returned.\<close>

fun advance :: "'w duckdb \<Rightarrow> thread \<Rightarrow> 'w executor \<Rightarrow> (thread \<times> 'w executor) option" where
  "advance dl (Waiting k q) x =
     (case acquire x of None \<Rightarrow> None | Some (x1, c) \<Rightarrow> Some (Entering k q c, x1))"
| "advance dl (Entering k q c) x = Some (Executing k q c, set_active k c x)"
| "advance dl (Executing k q c) x =
     (case first_statement dl c k q x of
        (x1, Inl e) \<Rightarrow> Some (Failing k c e, x1)
      | (x1, Inr _) \<Rightarrow>
          Some (if returns_results q then Counting k c else Leaving k c False (Inr None), x1))"
| "advance dl (Counting k c) x =
     (case count_rows dl c k x of
        (x1, Inl e) \<Rightarrow> Some (Failing k c e, x1)
      | (x1, Inr n) \<Rightarrow> Some (Leaving k c False (Inr n), x1))"
| "advance dl (Failing k c e) x =
     (case on_error dl k e x of (x1, discard, res) \<Rightarrow> Some (Leaving k c discard res, x1))"
| "advance dl (Leaving k c discard res) x = Some (Releasing c discard res, pop_active k x)"
| "advance dl (Releasing c discard res) x =
     (case renew dl c discard x of
        (x1, Inl e) \<Rightarrow> Some (Returned (Inl (ExecFailed e)), x1)
      | (x1, Inr c') \<Rightarrow> Some (Putting c' res, x1))"
| "advance dl (Putting c res) x = map_option (Pair (Returned res)) (put c x)"
| "advance dl (Returned res) x = None"
| "advance dl (Cancelling k) x =
     Some (case active_conn k x of
             None \<Rightarrow> (CancelReturned False, x)
           | Some c \<Rightarrow> (Interrupting c, x))"
| "advance dl (Interrupting c) x = Some (CancelReturned True, interrupt dl c x)"
| "advance dl (CancelReturned b) x = None"

text \<open>What a thread holds from the pool, and the entry of the active queries that is its own.\<close>

fun holds :: "thread \<Rightarrow> conn list" where
  "holds (Entering k q c) = [c]"
| "holds (Executing k q c) = [c]"
| "holds (Counting k c) = [c]"
| "holds (Failing k c e) = [c]"
| "holds (Leaving k c d r) = [c]"
| "holds (Releasing c d r) = [c]"
| "holds (Putting c r) = [c]"
| "holds _ = []"

fun owns :: "thread \<Rightarrow> (uuid \<times> conn) list" where
  "owns (Executing k q c) = [(k, c)]"
| "owns (Counting k c) = [(k, c)]"
| "owns (Failing k c e) = [(k, c)]"
| "owns (Leaving k c d r) = [(k, c)]"
| "owns _ = []"

definition held :: "thread list \<Rightarrow> conn list" where
  "held ts = concat (map holds ts)"

definition owned :: "thread list \<Rightarrow> (uuid \<times> conn) list" where
  "owned ts = concat (map owns ts)"

section \<open>Steps\<close>

text \<open>With \<open>unique\<close>, no query is started while a thread still works on the same id.\<close>

fun job :: "thread \<Rightarrow> uuid list" where
  "job (Waiting k q) = [k]"
| "job (Entering k q c) = [k]"
| "job (Executing k q c) = [k]"
| "job (Counting k c) = [k]"
| "job (Failing k c e) = [k]"
| "job (Leaving k c d r) = [k]"
| "job _ = []"

definition jobs :: "thread list \<Rightarrow> uuid list" where
  "jobs ts = concat (map job ts)"

type_synonym 'w pool = "thread list \<times> 'w executor"

inductive thread_step :: "'w duckdb \<Rightarrow> 'w pool \<Rightarrow> 'w pool \<Rightarrow> bool" for dl where
  next_step: "i < length ts \<Longrightarrow> advance dl (ts ! i) x = Some (t, x1) \<Longrightarrow>
     thread_step dl (ts, x) (ts[i := t], x1)"

inductive pool_step :: "'w duckdb \<Rightarrow> bool \<Rightarrow> 'w pool \<Rightarrow> 'w pool \<Rightarrow> bool" for dl unique where
  start_query: "unique \<longrightarrow> k \<notin> set (jobs ts) \<Longrightarrow>
     pool_step dl unique (ts, x) (ts @ [Waiting k q], x)"
| start_cancel: "pool_step dl unique (ts, x) (ts @ [Cancelling k], x)"
| go_on: "thread_step dl s s' \<Longrightarrow> pool_step dl unique s s'"
| library: "pool_step dl unique (ts, x) (ts, x\<lparr>x_world := w\<rparr>)"

inductive_cases thread_step_cases: "thread_step dl (ts, x) s'"
inductive_cases pool_step_cases: "pool_step dl unique (ts, x) s'"
inductive_simps thread_step_iff: "thread_step dl (ts, x) (ts', x')"

section \<open>What a step changes\<close>

lemma mset_concat_map_update:
  "i < length ts \<Longrightarrow>
    mset (concat (map f (ts[i := t]))) + mset (f (ts ! i)) = mset (concat (map f ts)) + mset (f t)"
  by (induction ts arbitrary: i) (auto simp: less_Suc_eq_0_disj nth_Cons split: nat.splits)

lemma distinct_iff_count: "distinct xs \<longleftrightarrow> (\<forall>a. count (mset xs) a \<le> 1)"
proof (induction xs)
  case Nil
  then show ?case by simp
next
  case (Cons x xs)
  have "x \<notin> set xs \<longleftrightarrow> count (mset xs) x = 0"
    by (simp add: count_eq_zero_iff)
  with Cons show ?case
    by (auto simp: le_Suc_eq)
qed

lemma distinct_submset: "mset xs \<subseteq># mset ys \<Longrightarrow> distinct ys \<Longrightarrow> distinct xs"
  unfolding distinct_iff_count by (meson le_trans mset_subset_eq_count)

text \<open>The methods that only call the library change nothing but its state.\<close>

lemma first_statement_world:
  "first_statement dl c k q x = (x1, r) \<Longrightarrow> \<exists>w. x1 = x\<lparr>x_world := w\<rparr>"
  by (auto simp: first_statement_def split: prod.splits)

lemma count_rows_world: "count_rows dl c k x = (x1, r) \<Longrightarrow> \<exists>w. x1 = x\<lparr>x_world := w\<rparr>"
  by (auto simp: count_rows_def split: prod.splits sum.splits)

lemma remove_result_world: "remove_result dl k x = (x1, r) \<Longrightarrow> \<exists>w. x1 = x\<lparr>x_world := w\<rparr>"
proof -
  assume "remove_result dl k x = (x1, r)"
  then have "x1 = x\<lparr>x_world := x_world x1\<rparr>"
    by (auto simp: remove_result_def Let_def split: prod.splits if_splits)
  then show ?thesis ..
qed

lemma on_error_world: "on_error dl k e x = (x1, d, r) \<Longrightarrow> \<exists>w. x1 = x\<lparr>x_world := w\<rparr>"
  by (cases e) (auto split: prod.splits option.splits dest: remove_result_world)

lemmas world_only = first_statement_world count_rows_world on_error_world

definition connects :: "'w duckdb \<Rightarrow> bool" where
  "connects dl \<longleftrightarrow> (\<forall>path c w. snd (en_connect dl path c w) = None)"

lemma connects_False: "en_connect dl path c w = (w1, Some e) \<Longrightarrow> \<not> connects dl"
  by (auto simp: connects_def intro!: exI [of _ path] exI [of _ c] exI [of _ w])

lemma advance_frame:
  assumes "advance dl t x = Some (t1, x1)"
  shows "x_pool_size x1 = x_pool_size x \<and> x_admin x1 = x_admin x"
  using assms
  by (cases t) (auto simp: acquire_def set_active_def pop_active_def renew_def connect_def put_def
      interrupt_def split: prod.splits sum.splits option.splits list.splits if_splits dest: world_only)

lemma advance_conns:
  assumes "advance dl t x = Some (t1, x1)"
  shows "mset (x_available x1) + mset (holds t1) = mset (x_available x) + mset (holds t) \<and>
      x_next x1 = x_next x
    \<or> (\<exists>c. holds t = [c] \<and> holds t1 = [x_next x]) \<and> x_next x1 = x_next x + 1 \<and>
      x_available x1 = x_available x
    \<or> (\<exists>c. holds t = [c]) \<and> holds t1 = [] \<and> x_next x1 = x_next x \<and> x_available x1 = x_available x \<and>
      \<not> connects dl"
  using assms
  by (cases t) (auto simp: acquire_def set_active_def pop_active_def renew_def connect_def put_def
      interrupt_def split: prod.splits sum.splits option.splits list.splits if_splits
      dest: world_only connects_False)

lemma advance_active:
  assumes "advance dl t x = Some (t1, x1)"
  shows "owns t1 = owns t \<and> x_active x1 = x_active x
    \<or> (\<exists>k c. owns t = [] \<and> owns t1 = [(k, c)] \<and> x_active x1 = AList.update k c (x_active x))
    \<or> (\<exists>k c. owns t = [(k, c)] \<and> owns t1 = [] \<and> x_active x1 = AList.delete k (x_active x))"
  using assms
  by (cases t) (auto simp: acquire_def set_active_def pop_active_def renew_def connect_def put_def
      interrupt_def split: prod.splits sum.splits option.splits list.splits if_splits dest: world_only)

lemma advance_job: "advance dl t x = Some (t1, x1) \<Longrightarrow> job t1 = job t \<or> job t1 = []"
  by (cases t) (auto split: prod.splits sum.splits option.splits if_splits)

section \<open>The invariant\<close>

definition conns :: "'w pool \<Rightarrow> conn list" where
  "conns s = x_available (snd s) @ held (fst s)"

text \<open>Every connection of the pool is in the queue or with one thread; all are different, and
  different from the administration connection and from the ones still to come.\<close>

definition conns_ok :: "'w duckdb \<Rightarrow> nat \<Rightarrow> 'w pool \<Rightarrow> bool" where
  "conns_ok dl n s \<longleftrightarrow>
     x_pool_size (snd s) = int n \<and> length (conns s) \<le> n \<and>
     (connects dl \<longrightarrow> length (conns s) = n) \<and>
     distinct (x_admin (snd s) # conns s) \<and>
     (\<forall>c\<in>set (x_admin (snd s) # conns s). c < x_next (snd s))"

text \<open>An entry of the active queries belongs to a thread; with unique ids every thread has its
  entry.\<close>

definition active_ok :: "bool \<Rightarrow> 'w pool \<Rightarrow> bool" where
  "active_ok unique s \<longleftrightarrow>
     distinct (map fst (x_active (snd s))) \<and>
     (\<forall>k c. active_conn k (snd s) = Some c \<longrightarrow> (k, c) \<in> set (owned (fst s))) \<and>
     (unique \<longrightarrow> distinct (jobs (fst s)) \<and>
        (\<forall>(k, c) \<in> set (owned (fst s)). active_conn k (snd s) = Some c))"

definition pool_inv :: "'w duckdb \<Rightarrow> bool \<Rightarrow> nat \<Rightarrow> 'w pool \<Rightarrow> bool" where
  "pool_inv dl unique n s \<longleftrightarrow> conns_ok dl n s \<and> active_ok unique s"

lemma conns_ok_permute:
  assumes "conns_ok dl n (ts, x)" and "mset (conns (ts', x')) = mset (conns (ts, x))"
    and "x_pool_size x' = x_pool_size x" and "x_admin x' = x_admin x" and "x_next x' = x_next x"
  shows "conns_ok dl n (ts', x')"
proof -
  have "set (conns (ts', x')) = set (conns (ts, x))" "length (conns (ts', x')) = length (conns (ts, x))"
    and "distinct (conns (ts', x')) \<longleftrightarrow> distinct (conns (ts, x))"
    using assms(2) by (auto dest: mset_eq_setD mset_eq_length mset_eq_imp_distinct_iff)
  with assms show ?thesis by (simp add: conns_ok_def)
qed

lemma conns_ok_replace:
  assumes ok: "conns_ok dl n (ts, x)"
    and m: "mset (conns (ts', x')) + {#c#} = mset (conns (ts, x)) + {#x_next x#}"
    and same: "x_pool_size x' = x_pool_size x" "x_admin x' = x_admin x"
    and nxt: "x_next x' = x_next x + 1"
  shows "conns_ok dl n (ts', x')"
proof -
  have counts: "count (mset (conns (ts', x'))) a \<le> count (mset (conns (ts, x))) a + (if a = x_next x then 1 else 0)"
    for a
    using arg_cong [OF m, of "\<lambda>M. count M a"] by (auto split: if_splits)
  have len: "length (conns (ts', x')) = length (conns (ts, x))"
    using arg_cong [OF m, of size] by simp
  have new: "x_next x \<notin> set (conns (ts, x))" "x_next x \<noteq> x_admin x"
    using ok by (auto simp: conns_ok_def)
  have old: "a \<in> set (conns (ts, x)) \<or> a = x_next x" if "a \<in> set (conns (ts', x'))" for a
  proof (cases "a = x_next x")
    case False
    with counts [of a] have "count (mset (conns (ts', x'))) a \<le> count (mset (conns (ts, x))) a" by simp
    with that show ?thesis by (metis count_eq_zero_iff le_zero_eq set_mset_mset)
  qed simp
  have "distinct (conns (ts', x'))"
    unfolding distinct_iff_count
  proof
    fix a
    have "count (mset (conns (ts, x))) a \<le> 1" and "count (mset (conns (ts, x))) (x_next x) = 0"
      using ok new(1) by (simp_all add: conns_ok_def distinct_iff_count [symmetric] count_eq_zero_iff
          del: One_nat_def) (simp add: distinct_count_atmost_1)
    with counts [of a] show "count (mset (conns (ts', x'))) a \<le> 1"
      by (cases "a = x_next x") auto
  qed
  moreover have "x_admin x \<notin> set (conns (ts', x'))"
    using old [of "x_admin x"] new(2) ok by (auto simp: conns_ok_def)
  ultimately show ?thesis
    using ok len old same nxt by (auto simp: conns_ok_def less_Suc_eq)
qed

lemma conns_ok_lose:
  assumes ok: "conns_ok dl n (ts, x)" and m: "mset (conns (ts', x')) + {#c#} = mset (conns (ts, x))"
    and same: "x_pool_size x' = x_pool_size x" "x_admin x' = x_admin x" "x_next x' = x_next x"
    and "\<not> connects dl"
  shows "conns_ok dl n (ts', x')"
proof -
  have "mset (conns (ts', x')) \<subseteq># mset (conns (ts, x))"
    by (simp flip: m)
  then have "distinct (conns (ts', x'))" "set (conns (ts', x')) \<subseteq> set (conns (ts, x))"
    using ok set_mset_mono [of "mset (conns (ts', x'))" "mset (conns (ts, x))"]
    by (auto simp: conns_ok_def dest: distinct_submset)
  moreover have "length (conns (ts', x')) < length (conns (ts, x))"
    using arg_cong [OF m, of size] by simp
  ultimately show ?thesis
    using ok same \<open>\<not> connects dl\<close> by (auto simp: conns_ok_def)
qed

lemma thread_step_conns:
  assumes "thread_step dl (ts, x) (ts', x')" and ok: "conns_ok dl n (ts, x)"
  shows "conns_ok dl n (ts', x')"
proof -
  from assms(1) obtain i t where i: "i < length ts" and a: "advance dl (ts ! i) x = Some (t, x')"
    and ts': "ts' = ts[i := t]"
    by (auto elim: thread_step_cases)
  have h: "mset (held ts') + mset (holds (ts ! i)) = mset (held ts) + mset (holds t)"
    using mset_concat_map_update [OF i] by (simp add: held_def ts')
  note frame = advance_frame [OF a, THEN conjunct1] advance_frame [OF a, THEN conjunct2]
  from advance_conns [OF a] show ?thesis
  proof (elim disjE conjE exE)
    assume m: "mset (x_available x') + mset (holds t) = mset (x_available x) + mset (holds (ts ! i))"
      and "x_next x' = x_next x"
    have "mset (conns (ts', x')) = mset (conns (ts, x))"
      using h m by (auto simp: conns_def multiset_eq_iff) (smt (verit) add.assoc add.commute add_left_cancel)
    with ok frame \<open>x_next x' = x_next x\<close> show ?thesis by (intro conns_ok_permute [OF ok])
  next
    fix c assume "holds (ts ! i) = [c]" "holds t = [x_next x]" "x_next x' = x_next x + 1"
      "x_available x' = x_available x"
    with h show ?thesis
      by (intro conns_ok_replace [OF ok _ frame, of _ c]) (simp_all add: conns_def)
  next
    fix c assume "holds (ts ! i) = [c]" "holds t = []" "x_next x' = x_next x"
      "x_available x' = x_available x" "\<not> connects dl"
    with h show ?thesis
      by (intro conns_ok_lose [OF ok _ frame, of _ c]) (simp_all add: conns_def)
  qed
qed

section \<open>The active queries\<close>

lemma owned_held: "mset (map snd (owned ts)) \<subseteq># mset (held ts)"
proof (induction ts)
  case Nil
  then show ?case by (simp add: owned_def)
next
  case (Cons t ts)
  have "mset (map snd (owns t)) \<subseteq># mset (holds t)" by (cases t) auto
  with Cons show ?case by (simp add: owned_def held_def subset_mset.add_mono)
qed

lemma owned_jobs: "mset (map fst (owned ts)) \<subseteq># mset (jobs ts)"
proof (induction ts)
  case Nil
  then show ?case by (simp add: owned_def)
next
  case (Cons t ts)
  have "mset (map fst (owns t)) \<subseteq># mset (job t)" by (cases t) auto
  with Cons show ?case by (simp add: owned_def jobs_def subset_mset.add_mono)
qed

lemma active_update [simp]:
  "active_conn k' (x\<lparr>x_active := AList.update k c (x_active x)\<rparr>) =
    (if k' = k then Some c else active_conn k' x)"
  "active_conn k' (x\<lparr>x_active := AList.delete k (x_active x)\<rparr>) =
    (if k' = k then None else active_conn k' x)"
  by (simp_all add: active_conn_def update_conv' delete_conv')

lemma distinct_fst_cons:
  assumes "mset ys = mset xs + {#(k, c)#}" and "distinct (map fst ys)"
  shows "(k, c') \<notin> set xs"
proof
  assume "(k, c') \<in> set xs"
  moreover have "mset (map fst ys) = mset (k # map fst xs)"
    using assms(1) by simp
  then have "distinct (k # map fst xs)"
    using assms(2) by (metis mset_eq_imp_distinct_iff)
  ultimately show False by force
qed

lemma thread_step_active:
  assumes "thread_step dl (ts, x) (ts', x')" and ok: "active_ok unique (ts, x)"
  shows "active_ok unique (ts', x')"
proof -
  from assms(1) obtain i t where i: "i < length ts" and a: "advance dl (ts ! i) x = Some (t, x')"
    and ts': "ts' = ts[i := t]"
    by (auto elim: thread_step_cases)
  have o: "mset (owned ts') + mset (owns (ts ! i)) = mset (owned ts) + mset (owns t)"
    using mset_concat_map_update [OF i] by (simp add: owned_def ts')
  have "mset (jobs ts') + mset (job (ts ! i)) = mset (jobs ts) + mset (job t)"
    using mset_concat_map_update [OF i] by (simp add: jobs_def ts')
  then have j: "mset (jobs ts') \<subseteq># mset (jobs ts)"
    using advance_job [OF a] by (auto simp: subset_eq_diff_conv) (metis mset_subset_eq_add_left)
  have keys: "unique \<Longrightarrow> distinct (map fst (owned ts)) \<and> distinct (map fst (owned ts'))"
    using ok distinct_submset [OF j] distinct_submset [OF owned_jobs]
    by (auto simp: active_ok_def)
  from advance_active [OF a] show ?thesis
  proof (elim disjE conjE exE)
    assume "owns t = owns (ts ! i)" "x_active x' = x_active x"
    with o have "set (owned ts') = set (owned ts)" by (metis add_right_cancel set_mset_mset)
    with ok \<open>x_active x' = x_active x\<close> show ?thesis
      using distinct_submset [OF j] by (auto simp: active_ok_def active_conn_def)
  next
    fix k c assume own: "owns (ts ! i) = []" "owns t = [(k, c)]"
      and x': "x_active x' = AList.update k c (x_active x)"
    with o have m: "mset (owned ts') = mset (owned ts) + {#(k, c)#}" by simp
    then have s: "set (owned ts') = insert (k, c) (set (owned ts))"
      by (metis add_mset_add_single set_mset_add_mset_insert set_mset_mset)
    have new: "unique \<Longrightarrow> (k, c') \<notin> set (owned ts)" for c'
      using distinct_fst_cons [OF m] keys by blast
    show ?thesis
      unfolding active_ok_def
    proof (intro conjI allI impI ballI)
      show "distinct (map fst (x_active (snd (ts', x'))))"
        using ok x' by (simp add: active_ok_def distinct_update)
      show "distinct (jobs (fst (ts', x')))" if unique
        using ok that distinct_submset [OF j] by (simp add: active_ok_def)
      fix k' c' assume "active_conn k' (snd (ts', x')) = Some c'"
      then show "(k', c') \<in> set (owned (fst (ts', x')))"
        using ok by (auto simp: x' s active_conn_def update_conv' active_ok_def split: if_splits)
    next
      fix p assume unique and "p \<in> set (owned (fst (ts', x')))"
      then show "case p of (k, c) \<Rightarrow> active_conn k (snd (ts', x')) = Some c"
        using ok new by (cases p) (auto simp: x' s active_conn_def update_conv' active_ok_def)
    qed
  next
    fix k c assume own: "owns (ts ! i) = [(k, c)]" "owns t = []"
      and x': "x_active x' = AList.delete k (x_active x)"
    with o have m: "mset (owned ts) = mset (owned ts') + {#(k, c)#}" by simp
    then have s: "set (owned ts) = insert (k, c) (set (owned ts'))"
      by (metis add_mset_add_single set_mset_add_mset_insert set_mset_mset)
    have new: "unique \<Longrightarrow> (k, c') \<notin> set (owned ts')" for c'
      using distinct_fst_cons [OF m] keys by blast
    show ?thesis
      unfolding active_ok_def
    proof (intro conjI allI impI ballI)
      show "distinct (map fst (x_active (snd (ts', x'))))"
        using ok x' by (simp add: active_ok_def distinct_delete)
      show "distinct (jobs (fst (ts', x')))" if unique
        using ok that distinct_submset [OF j] by (simp add: active_ok_def)
      fix k' c' assume "active_conn k' (snd (ts', x')) = Some c'"
      then show "(k', c') \<in> set (owned (fst (ts', x')))"
        using ok by (auto simp: x' s active_conn_def delete_conv' active_ok_def split: if_splits)
    next
      fix p assume unique and "p \<in> set (owned (fst (ts', x')))"
      then show "case p of (k, c) \<Rightarrow> active_conn k (snd (ts', x')) = Some c"
        using ok new by (cases p) (auto simp: x' s active_conn_def delete_conv' active_ok_def)
    qed
  qed
qed

section \<open>Reachable states\<close>

lemma pool_step_inv:
  assumes "pool_step dl unique s s'" and "pool_inv dl unique n s"
  shows "pool_inv dl unique n s'"
  using assms
proof (induction rule: pool_step.induct)
  case (start_query k ts x q)
  then show ?case
    by (auto simp: pool_inv_def conns_ok_def active_ok_def conns_def held_def owned_def jobs_def)
next
  case (start_cancel ts x k)
  then show ?case
    by (auto simp: pool_inv_def conns_ok_def active_ok_def conns_def held_def owned_def jobs_def)
next
  case (go_on s s')
  then show ?case
    by (cases s, cases s') (auto simp: pool_inv_def intro: thread_step_conns thread_step_active)
next
  case (library ts x w)
  then show ?case
    by (auto simp: pool_inv_def conns_ok_def active_ok_def conns_def active_conn_def)
qed

interpretation pool: step_system "pool_step dl unique" "pool_inv dl unique n" for dl unique n
  by unfold_locales (rule pool_step_inv)

text \<open>The start of the worker: the executor is created and its pool is filled. The admin connection is
  number 0, those of the pool have the numbers from 1.\<close>

definition started :: "'w duckdb \<Rightarrow> nat \<Rightarrow> 'w executor \<Rightarrow> bool" where
  "started dl n x0 \<longleftrightarrow>
     (\<exists>path directory w x. init_executor dl path (int n) directory w = Inr x \<and>
        warm_pool dl x = (x0, Returns ()))"

lemma warm_turns_inv:
  assumes "warm_turns dl m x = (x0, Returns ())" and "x_active x = []" and "x_admin x = 0"
    and "x_available x = [1..<x_next x]" and "0 < x_next x"
  shows "x_active x0 = [] \<and> x_admin x0 = 0 \<and> x_pool_size x0 = x_pool_size x \<and>
    x_available x0 = [1..<x_next x0] \<and> x_next x0 = x_next x + m"
  using assms
proof (induction dl m x rule: warm_turns.induct)
  case (1 dl x)
  then show ?case by simp
next
  case (2 dl m x)
  then show ?case
    by (fastforce simp: connect_def put_def split: prod.splits option.splits sum.splits if_splits)
qed

lemma started_inv:
  assumes "started dl n x0"
  shows "pool_inv dl unique n ([], x0)"
proof -
  from assms obtain path directory w x where
    x: "init_executor dl path (int n) directory w = Inr x" and wp: "warm_pool dl x = (x0, Returns ())"
    unfolding started_def by blast
  from x have "x_active x = []" "x_admin x = 0" "x_available x = [1..<x_next x]" "x_next x = 1"
    and n: "x_pool_size x = int n"
    by (auto simp: init_executor_def split: prod.splits option.splits)
  from wp n have w: "warm_turns dl n x = (x0, Returns ())" by (simp add: warm_pool_def)
  from warm_turns_inv [OF w] \<open>x_active x = []\<close> \<open>x_admin x = 0\<close> \<open>x_available x = _\<close> \<open>x_next x = 1\<close> n
  show ?thesis
    by (auto simp: pool_inv_def conns_ok_def active_ok_def conns_def held_def owned_def jobs_def
        active_conn_def)
qed

lemma reachable_inv:
  assumes "started dl n x0" and "(pool_step dl unique)\<^sup>*\<^sup>* ([], x0) (ts, x)"
  shows "pool_inv dl unique n (ts, x)"
  using pool.reach_inv [OF assms(2) started_inv [OF assms(1)]] .

section \<open>Runs\<close>

fun over :: "thread \<Rightarrow> bool" where
  "over (Returned res) = True"
| "over (CancelReturned b) = True"
| "over _ = False"

text \<open>The steps a thread has left at most.\<close>

fun steps_left :: "thread \<Rightarrow> nat" where
  "steps_left (Waiting k q) = 8"
| "steps_left (Entering k q c) = 7"
| "steps_left (Executing k q c) = 6"
| "steps_left (Counting k c) = 5"
| "steps_left (Failing k c e) = 4"
| "steps_left (Leaving k c d r) = 3"
| "steps_left (Releasing c d r) = 2"
| "steps_left (Putting c r) = 1"
| "steps_left (Returned res) = 0"
| "steps_left (Cancelling k) = 2"
| "steps_left (Interrupting c) = 1"
| "steps_left (CancelReturned b) = 0"

definition pool_rank :: "'w pool \<Rightarrow> nat" where
  "pool_rank s = (\<Sum>t\<leftarrow>fst s. steps_left t)"

lemma advance_lowers: "advance dl t x = Some (t1, x1) \<Longrightarrow> steps_left t1 < steps_left t"
  by (cases t) (auto split: prod.splits sum.splits option.splits if_splits)

lemma sum_list_update_less:
  fixes f :: "'a \<Rightarrow> nat"
  shows "i < length ts \<Longrightarrow> f t < f (ts ! i) \<Longrightarrow> (\<Sum>t\<leftarrow>ts[i := t]. f t) < (\<Sum>t\<leftarrow>ts. f t)"
  by (induction ts arbitrary: i) (auto simp: nth_Cons split: nat.splits)

interpretation turns: ranked_system "thread_step dl" pool_rank for dl
proof
  fix s s' :: "'a pool" assume "thread_step dl s s'"
  then show "pool_rank s' < pool_rank s"
    by (induction rule: thread_step.induct)
       (auto simp: pool_rank_def intro: sum_list_update_less advance_lowers)
qed

lemma pool_rank_le: "pool_rank s \<le> 8 * length (fst s)"
proof -
  have "steps_left t \<le> 8" for t by (cases t) auto
  then have "(\<Sum>t\<leftarrow>ts. steps_left t) \<le> 8 * length ts" for ts
    by (induction ts) (auto simp: add_mono)
  then show ?thesis by (simp add: pool_rank_def)
qed

lemma pool_reach_steps: "(thread_step dl)\<^sup>*\<^sup>* s s' \<Longrightarrow> (pool_step dl unique)\<^sup>*\<^sup>* s s'"
  by (induction rule: rtranclp_induct) (auto intro: rtranclp.rtrancl_into_rtrancl go_on)

text \<open>A schedule names the thread that takes each step.\<close>

fun run_schedule :: "'w duckdb \<Rightarrow> nat list \<Rightarrow> 'w pool \<Rightarrow> 'w pool" where
  "run_schedule dl [] s = s"
| "run_schedule dl (i # is) (ts, x) =
     run_schedule dl is
       (if i < length ts
        then (case advance dl (ts ! i) x of None \<Rightarrow> (ts, x) | Some (t, x1) \<Rightarrow> (ts[i := t], x1))
        else (ts, x))"

lemma run_schedule_steps: "(thread_step dl)\<^sup>*\<^sup>* s (run_schedule dl is s)"
proof (induction dl "is" s rule: run_schedule.induct)
  case (1 dl s)
  then show ?case by simp
next
  case (2 dl i "is" ts x)
  then show ?case
    by (auto split: option.splits prod.splits
        intro: converse_rtranclp_into_rtranclp thread_step.next_step)
qed

text \<open>One thread alone.\<close>

fun run_thread :: "'w duckdb \<Rightarrow> nat \<Rightarrow> thread \<Rightarrow> 'w executor \<Rightarrow> thread \<times> 'w executor" where
  "run_thread dl 0 t x = (t, x)"
| "run_thread dl (Suc n) t x =
     (case advance dl t x of None \<Rightarrow> (t, x) | Some (t1, x1) \<Rightarrow> run_thread dl n t1 x1)"

section \<open>Properties\<close>


lemma free_slot:
  assumes "pool_inv dl unique n (ts, x)" and "t \<in> set ts" and "holds t \<noteq> []"
  shows "length (x_available x) < n"
proof -
  have "holds t \<noteq> [] \<Longrightarrow> t \<in> set ts \<Longrightarrow> held ts \<noteq> []" by (auto simp: held_def)
  with assms(2,3) have "0 < length (held ts)" by blast
  moreover have "length (x_available x) + length (held ts) \<le> n"
    using assms(1) by (simp add: pool_inv_def conns_ok_def conns_def)
  ultimately show ?thesis by linarith
qed

lemma put_free: "length (x_available x) < n \<Longrightarrow> x_pool_size x = int n \<Longrightarrow> put c x \<noteq> None"
  by (simp add: put_def)

lemma active_count_le:
  assumes "pool_inv dl unique n (ts, x)"
  shows "active_count x \<le> n"
proof -
  have d: "distinct (map fst (x_active x))" and sub: "set (x_active x) \<subseteq> set (owned ts)"
    using assms by (auto simp: pool_inv_def active_ok_def active_conn_def)
  have "length (x_active x) = card (set (x_active x))"
    using d by (metis distinct_card distinct_map)
  also have "\<dots> \<le> length (owned ts)"
    using sub by (meson List.finite_set card_length card_mono order_trans)
  also have "\<dots> \<le> length (held ts)"
    using size_mset_mono [OF owned_held [of ts]] by simp
  also have "\<dots> \<le> n"
    using assms by (simp add: pool_inv_def conns_ok_def conns_def)
  finally show ?thesis by (simp add: active_count_def)
qed

text \<open>C15. No connection is lost or shared. As long as DuckDB can open connections, at every moment the
  connections in the queue and those with running threads are as many as the pool's size and all
  different, no more queries are active than that, and a thread that puts its connection back is
  never held up by a full queue.\<close>

theorem pool_conserved:
  assumes "started dl n x0" and "(pool_step dl unique)\<^sup>*\<^sup>* ([], x0) (ts, x)" and "connects dl"
  shows "length (x_available x) + length (held ts) = n \<and> distinct (x_available x @ held ts) \<and>
    active_count x \<le> n \<and> (\<forall>c res. Putting c res \<in> set ts \<longrightarrow> put c x \<noteq> None)"
proof (intro conjI allI impI)
  note inv = reachable_inv [OF assms(1,2)]
  then show "length (x_available x) + length (held ts) = n" "distinct (x_available x @ held ts)"
    using assms(3) by (auto simp: pool_inv_def conns_ok_def conns_def)
  show "active_count x \<le> n" by (rule active_count_le [OF inv])
  fix c res assume "Putting c res \<in> set ts"
  with inv show "put c x \<noteq> None"
    by (intro put_free [OF free_slot [OF inv]]) (auto simp: pool_inv_def conns_ok_def)
qed

lemma stuck_is_over:
  assumes inv: "pool_inv dl unique n (ts, x)" and "connects dl" and "0 < n"
    and stuck: "\<nexists>s. thread_step dl (ts, x) s" and t: "t \<in> set ts"
  shows "over t"
proof -
  have none: "advance dl u x = None" if "u \<in> set ts" for u
    using stuck that by (auto simp: in_set_conv_nth intro: thread_step.next_step)
      (metis next_step not_Some_eq surj_pair)
  have size: "x_pool_size x = int n" "length (x_available x) + length (held ts) = n"
    using inv \<open>connects dl\<close> by (auto simp: pool_inv_def conns_ok_def conns_def)
  have idle: "holds u = []" if "u \<in> set ts" for u
  proof (rule ccontr)
    assume h: "holds u \<noteq> []"
    with put_free [OF free_slot [OF inv that h] size(1)] none [OF that] show False
      by (cases u) (auto split: prod.splits sum.splits, metis option.distinct(1))
  qed
  then have "held ts = []" by (auto simp: held_def)
  with size \<open>0 < n\<close> have "acquire x \<noteq> None" by (auto simp: acquire_def split: list.splits)
  with none [OF t] idle [OF t] show ?thesis
    by (cases t) (auto split: option.splits)
qed


text \<open>The lookup of a cancellation. While no id is executed twice at a time, \<^verbatim>\<open>_active\<close> gives for an id
  exactly the connection on which a thread executes that query, and nothing when there is none.\<close>

theorem active_is_executing:
  assumes "started dl n x0" and "(pool_step dl True)\<^sup>*\<^sup>* ([], x0) (ts, x)"
  shows "active_conn query_id x = Some c \<longleftrightarrow> (query_id, c) \<in> set (owned ts)"
  using reachable_inv [OF assms] by (auto simp: pool_inv_def active_ok_def)

section \<open>A library to run\<close>

text \<open>A stand-in for DuckDB and the file system: its state is the set of connections with a pending
  interrupt and the set of existing files. Opening never fails, a statement fails exactly when its
  connection was interrupted, and \<^verbatim>\<open>COPY\<close> statements leave no trace.\<close>

definition sample_duckdb :: "(conn set \<times> string set) duckdb" where
  "sample_duckdb =
     \<lparr>en_connect = (\<lambda>path c w. (w, None)),
      en_execute = (\<lambda>c sql ps w.
        if c \<in> fst w then ((fst w - {c}, snd w), Inl (InterruptException ''INTERRUPT Error: Interrupted!''))
        else (w, Inr \<lparr>description = [], fetchall = [[DInt 3]]\<rparr>)),
      en_interrupt = (\<lambda>c w. (insert c (fst w), snd w)),
      en_close = (\<lambda>c w. ((fst w - {c}, snd w), None)),
      en_mkdir = (\<lambda>p w. w),
      en_exists = (\<lambda>p w. p \<in> snd w),
      en_unlink = (\<lambda>p w. ((fst w, snd w - {p}), None))\<rparr>"

definition sample_executor :: "(conn set \<times> string set) executor" where
  "sample_executor =
     \<lparr>x_database_path = '':memory:'', x_pool_size = 1, x_result_dir = parse_path ''/r'', x_admin = 0,
      x_available = [1], x_active = [], x_next = 2, x_world = ({}, {})\<rparr>"

lemma sample_connects: "connects sample_duckdb"
  by (simp add: connects_def sample_duckdb_def)

lemma sample_started: "started sample_duckdb 1 sample_executor"
proof -
  have "init_executor sample_duckdb '':memory:'' (int 1) (parse_path ''/r'') ({}, {}) =
      Inr (sample_executor\<lparr>x_available := [], x_next := 1\<rparr>)"
    by (simp add: init_executor_def sample_duckdb_def sample_executor_def)
  moreover have "warm_pool sample_duckdb (sample_executor\<lparr>x_available := [], x_next := 1\<rparr>) =
      (sample_executor, Returns ())"
    by (simp add: warm_pool_def sample_duckdb_def sample_executor_def connect_def put_def)
  ultimately show ?thesis unfolding started_def by blast
qed

text \<open>A pool of one connection, a query that inserts, its cancellation, and a second query.\<close>

definition sample_threads :: "thread list" where
  "sample_threads = [Waiting 1 ''insert into t'', Cancelling 1, Waiting 2 ''delete from t'']"

lemma sample_spawned: "(pool_step dl True)\<^sup>*\<^sup>* ([], x) (sample_threads, x)"
proof -
  have "pool_step dl True ([], x) ([Waiting 1 ''insert into t''], x)"
    using start_query [of True 1 "[]" dl x] by (simp add: jobs_def)
  moreover have "pool_step dl True ([Waiting 1 ''insert into t''], x)
      ([Waiting 1 ''insert into t'', Cancelling 1], x)"
    using start_cancel [of dl True "[Waiting 1 ''insert into t'']" x 1] by simp
  moreover have "pool_step dl True ([Waiting 1 ''insert into t'', Cancelling 1], x) (sample_threads, x)"
    using start_query [of True 2 "[Waiting 1 ''insert into t'', Cancelling 1]" dl x]
    by (simp add: jobs_def sample_threads_def)
  ultimately show ?thesis
    by (rule rtranclp.rtrancl_into_rtrancl [OF rtranclp.rtrancl_into_rtrancl [OF r_into_rtranclp]])
qed

lemma sample_reach:
  "(pool_step dl True)\<^sup>*\<^sup>* ([], x) (run_schedule dl is (sample_threads, x))"
  by (rule rtranclp_trans [OF sample_spawned pool_reach_steps [OF run_schedule_steps]])

lemmas sample_defs =
  sample_duckdb_def sample_executor_def sample_threads_def acquire_def set_active_def pop_active_def
  first_statement_def count_rows_def remove_result_def renew_def connect_def put_def active_conn_def
  interrupt_def returns_results_def result_query_def RESULT_KEYWORDS_def

text \<open>A cancellation can hit another query. The connection is looked up under the lock but
  interrupted after it: with one connection, the first query may return with its result and give the
  connection to a second one in between, which is then the one that is cancelled although nobody
  asked for it, while the caller is told that the first is being cancelled.\<close>

theorem cancel_may_hit_another_query:
  "\<exists>x. (pool_step sample_duckdb True)\<^sup>*\<^sup>* ([], sample_executor)
     ([Returned (Inr None), CancelReturned True,
       Returned (Inl (QueryCancelledError ''Query was cancelled''))], x)"
proof -
  have r: "\<not> returns_results ''insert into t''" "\<not> returns_results ''delete from t''"
    by (code_simp)+
  have "fst (run_schedule sample_duckdb [0, 0, 1, 0, 0, 0, 0, 2, 2, 1, 2, 2, 2, 2, 2]
      (sample_threads, sample_executor)) =
     [Returned (Inr None), CancelReturned True,
       Returned (Inl (QueryCancelledError ''Query was cancelled''))]"
    using r by (simp add: sample_defs(1-14))
  then show ?thesis
    using sample_reach [of sample_duckdb sample_executor] by (metis surjective_pairing)
qed

text \<open>The state in the middle of the first query, and what the theorems say there.\<close>

definition sample_middle :: "(conn set \<times> string set) pool" where
  "sample_middle = run_schedule sample_duckdb [0, 0, 2] (sample_threads, sample_executor)"

lemma sample_middle_eq:
  "sample_middle = ([Executing 1 ''insert into t'' 1, Cancelling 1, Waiting 2 ''delete from t''],
     sample_executor\<lparr>x_available := [], x_active := [(1, 1)]\<rparr>)"
  by (simp add: sample_middle_def sample_defs(1-14))

lemma sample_middle_reach: "(pool_step sample_duckdb True)\<^sup>*\<^sup>* ([], sample_executor) sample_middle"
  unfolding sample_middle_def by (rule sample_reach)

theorem pool_conserved_witness:
  "length (x_available (snd sample_middle)) + length (held (fst sample_middle)) = 1 \<and>
   active_count (snd sample_middle) \<le> 1"
  using pool_conserved [OF sample_started _ sample_connects, of True "fst sample_middle" "snd sample_middle"]
    sample_middle_reach by simp


theorem active_is_executing_witness:
  "active_conn 1 (snd sample_middle) = Some 1 \<and> active_conn 2 (snd sample_middle) = None"
proof -
  have reach: "(pool_step sample_duckdb True)\<^sup>*\<^sup>* ([], sample_executor) (fst sample_middle, snd sample_middle)"
    using sample_middle_reach by simp
  have "(2, c) \<notin> set (owned (fst sample_middle))" for c
    by (simp add: sample_middle_eq owned_def)
  with active_is_executing [OF sample_started reach, of 1 1]
    active_is_executing [OF sample_started reach, of 2]
  show ?thesis by (cases "active_conn 2 (snd sample_middle)") (auto simp: sample_middle_eq owned_def)
qed

text \<open>Removing a file works, and opening and closing connections touches no files.\<close>

definition removes_files :: "'w duckdb \<Rightarrow> bool" where
  "removes_files dl \<longleftrightarrow>
     (\<forall>path w. snd (en_unlink dl path w) = None \<and> \<not> en_exists dl path (fst (en_unlink dl path w))) \<and>
     (\<forall>p path c w. en_exists dl p (fst (en_connect dl path c w)) = en_exists dl p w) \<and>
     (\<forall>p c w. en_exists dl p (fst (en_close dl c w)) = en_exists dl p w)"

lemma remove_result_gone:
  assumes "removes_files dl"
  shows "\<exists>w. remove_result dl k x = (x\<lparr>x_world := w\<rparr>, None) \<and>
    \<not> en_exists dl (str_path (result_path x k)) w"
proof (cases "en_exists dl (str_path (result_path x k)) (x_world x)")
  case True
  obtain w e where u: "en_unlink dl (str_path (result_path x k)) (x_world x) = (w, e)"
    by fastforce
  with assms have "e = None \<and> \<not> en_exists dl (str_path (result_path x k)) w"
    unfolding removes_files_def by (metis fst_conv snd_conv)
  with True u show ?thesis by (auto simp: remove_result_def intro!: exI [of _ w])
next
  case False
  then show ?thesis by (auto simp: remove_result_def intro!: exI [of _ "x_world x"])
qed

lemma on_error_gone:
  assumes "removes_files dl"
  shows "\<exists>w d err. on_error dl k e x = (x\<lparr>x_world := w\<rparr>, d, Inl err) \<and>
    \<not> en_exists dl (str_path (result_path x k)) w"
proof -
  obtain w where "remove_result dl k x = (x\<lparr>x_world := w\<rparr>, None)"
    "\<not> en_exists dl (str_path (result_path x k)) w"
    using remove_result_gone [OF assms] by blast
  then show ?thesis by (cases e) (auto intro!: exI [of _ w])
qed

lemma try_body_gone:
  assumes "removes_files dl" and "try_body dl c k q x = (x1, d, Inl err)"
  shows "\<exists>w. x1 = x\<lparr>x_world := w\<rparr> \<and> \<not> en_exists dl (str_path (result_path x k)) w"
proof -
  have gone: "\<exists>w. y = x\<lparr>x_world := w\<rparr> \<and> \<not> en_exists dl (str_path (result_path x k)) w"
    if "on_error dl k e (x\<lparr>x_world := v\<rparr>) = (y, d', r)" for e v y d' r
    using on_error_gone [OF assms(1), of k e "x\<lparr>x_world := v\<rparr>"] that
    by (auto simp: result_path_def)
  show ?thesis
  proof (cases "first_statement dl c k q x")
    case f: (Pair y r)
    then obtain v where y: "y = x\<lparr>x_world := v\<rparr>" using first_statement_world by blast
    show ?thesis
    proof (cases r)
      case (Inl e)
      with assms(2) f y gone show ?thesis by (auto simp: try_body_def)
    next
      case (Inr u)
      show ?thesis
      proof (cases "count_rows dl c k y")
        case n: (Pair z m)
        then obtain v' where "z = y\<lparr>x_world := v'\<rparr>" using count_rows_world by blast
        with assms(2) f y n Inr gone [of _ v'] show ?thesis
          by (auto simp: try_body_def split: sum.splits if_splits)
      qed
    qed
  qed
qed

text \<open>Giving the connection back, when it can be replaced.\<close>

lemma release_effect:
  assumes "removes_files dl" and "connects dl" and "release dl c d x = (x1, r)" and "r \<noteq> Blocks"
  shows "r = Returns () \<and> en_exists dl p (x_world x1) = en_exists dl p (x_world x) \<and>
    x_active x1 = x_active x \<and> length (x_available x1) = length (x_available x) + 1 \<and>
    x_result_dir x1 = x_result_dir x"
proof -
  have "en_exists dl p (fst (en_connect dl path n (fst (en_close dl c w)))) = en_exists dl p w" for path n w
    using assms(1) by (simp add: removes_files_def)
  then have keep: "en_exists dl p v = en_exists dl p w"
    if "en_connect dl path n (fst (en_close dl c w)) = (v, u)" for path n w v u
    using that by (metis fst_conv)
  show ?thesis
    using assms(2-4)
    by (auto simp: release_def renew_def connect_def put_def keep dest: connects_False
        split: if_splits prod.splits option.splits)
qed

text \<open>A connection that cannot be replaced is lost: \<^verbatim>\<open>_release\<close> then puts nothing into the queue, and with the last
  one every later call of \<^verbatim>\<open>execute\<close> waits for ever.\<close>

theorem unreplaced_connection_is_lost:
  assumes "release dl c d x = (x1, Throws e)"
  shows "x_available x1 = x_available x \<and> (x_available x = [] \<longrightarrow> execute dl k q x1 = (x1, Blocks))"
  using assms
  by (auto simp: release_def renew_def connect_def execute_def acquire_def
      split: if_splits prod.splits option.splits sum.splits)



end
