(* ===== verification/Duck_Results.thy ===== *)
theory Duck_Results
  imports Duck_Executor Models Sql_Quote "HOL-Library.Multiset"
begin

text \<open>
  \<^verbatim>\<open>ducklauncher/worker/duckdb.py\<close>, what a worker reads: pages of a stored result and the catalog of its
  databases. The theorems say that quoted column names read back, that the pages of a result put
  together are the result, and that the catalog holds every column of the information schema once.
\<close>

section \<open>Pages of a result\<close>

definition quote_identifier :: "string \<Rightarrow> string" where
  "quote_identifier name = [CHR 0x22] @ replace [CHR 0x22] [CHR 0x22, CHR 0x22] name @ [CHR 0x22]"

definition quoted_columns :: "string list \<Rightarrow> string" where
  "quoted_columns columns = join '', '' (map quote_identifier columns)"

definition PREVIEW_SQL :: string where
  "PREVIEW_SQL = ''SELECT * FROM read_parquet(?) LIMIT 0''"

text \<open>The statement over the quoted columns, with its line breaks and indentation.\<close>

definition line :: "nat \<Rightarrow> string \<Rightarrow> string" where
  "line n s = CHR 0x0A # replicate n CHR '' '' @ s"

definition page_sql :: "string \<Rightarrow> string" where
  "page_sql quoted =
     line 20 (''SELECT '' @ quoted) @ line 20 ''FROM ('' @ line 24 ''SELECT'' @
     line 28 (quoted @ '','') @
     line 28 ''row_number() OVER (ORDER BY (SELECT 1)) AS __ducklauncher_row__'' @
     line 24 ''FROM read_parquet(?)'' @ line 20 '')'' @ line 20 ''ORDER BY __ducklauncher_row__'' @
     line 20 ''LIMIT ? OFFSET ?'' @ line 20 []"

record result_page =
  pg_total_rows :: duck_value
  pg_columns :: "string list"
  pg_rows :: "duck_value list list"

datatype page_error = FileNotFound string | PageValueError string | PageError duck_error

text \<open>\<^verbatim>\<open>_fetch_scalar\<close>: a query without rows is a \<^verbatim>\<open>ValueError\<close> of its own; an exception of the library is
  passed on.\<close>

definition fetch_scalar ::
  "'w duckdb \<Rightarrow> string \<Rightarrow> duck_value list \<Rightarrow> 'w executor
    \<Rightarrow> 'w executor \<times> (page_error + duck_value)" where
  "fetch_scalar dl sql params x =
     (case en_execute dl (x_admin x) sql params (x_world x) of
        (w, Inl e) \<Rightarrow> (x\<lparr>x_world := w\<rparr>, Inl (PageError e))
      | (w, Inr r) \<Rightarrow> (x\<lparr>x_world := w\<rparr>,
          (case fetchall r of
             [] \<Rightarrow> Inl (PageValueError ''Query returned no rows'')
           | [] # _ \<Rightarrow> Inl (PageError (OtherError ''tuple index out of range''))
           | (v # _) # _ \<Rightarrow> Inr v)))"

text \<open>\<^verbatim>\<open>duckdb.Error\<close> and its subclasses become a \<^verbatim>\<open>ValueError\<close>; the others are passed on.\<close>

fun as_value_error :: "uuid \<Rightarrow> page_error \<Rightarrow> page_error" where
  "as_value_error query_id (PageError (OtherError s)) = PageError (OtherError s)"
| "as_value_error query_id (PageError e) =
     PageValueError (''Failed to read result file for query '' @ str_uuid query_id @ '': '' @ error_text e)"
| "as_value_error query_id e = e"

definition read_page ::
  "'w duckdb \<Rightarrow> string \<Rightarrow> int \<Rightarrow> int \<Rightarrow> 'w executor \<Rightarrow> 'w executor \<times> (page_error + result_page)" where
  "read_page dl path off n x =
     (case fetch_scalar dl COUNT_SQL [DText path] x of
        (x1, Inl e) \<Rightarrow> (x1, Inl e)
      | (x1, Inr total_rows) \<Rightarrow>
          (case en_execute dl (x_admin x1) PREVIEW_SQL [DText path] (x_world x1) of
             (w, Inl e) \<Rightarrow> (x1\<lparr>x_world := w\<rparr>, Inl (PageError e))
           | (w, Inr preview) \<Rightarrow>
               (let columns = description preview
                in case en_execute dl (x_admin x1) (page_sql (quoted_columns columns))
                          [DText path, DInt n, DInt off] w of
                     (w2, Inl e) \<Rightarrow> (x1\<lparr>x_world := w2\<rparr>, Inl (PageError e))
                   | (w2, Inr rows) \<Rightarrow>
                       (x1\<lparr>x_world := w2\<rparr>, Inr \<lparr>pg_total_rows = total_rows, pg_columns = columns,
                          pg_rows = fetchall rows\<rparr>))))"

definition read_result_page ::
  "'w duckdb \<Rightarrow> uuid \<Rightarrow> int \<Rightarrow> int \<Rightarrow> 'w executor \<Rightarrow> 'w executor \<times> (page_error + result_page)" where
  "read_result_page dl query_id off n x =
     (let path = str_path (result_path x query_id)
      in if \<not> en_exists dl path (x_world x)
         then (x, Inl (FileNotFound (''No result file for query '' @ str_uuid query_id)))
         else (case read_page dl path off n x of
                 (x1, Inl e) \<Rightarrow> (x1, Inl (as_value_error query_id e))
               | (x1, Inr page) \<Rightarrow> (x1, Inr page)))"

section \<open>The catalog\<close>

text \<open>A row of \<^verbatim>\<open>information_schema.columns\<close> as selected.\<close>

record catalog_row =
  cr_database :: string
  cr_schema :: string
  cr_table :: string
  cr_column :: string
  cr_type :: string
  cr_ordinal :: int

text \<open>The dictionaries the loop fills: the columns by database, schema and table, and the order in which
  names first occur.\<close>

type_synonym column_entry = "string \<times> string \<times> int"

record grouping =
  g_databases :: "string \<Rightarrow> (string \<Rightarrow> (string \<Rightarrow> column_entry list option) option) option"
  g_database_order :: "string list"
  g_schema_order :: "string \<Rightarrow> string list option"
  g_table_order :: "string \<times> string \<Rightarrow> string list option"

definition empty_grouping :: grouping where
  "empty_grouping = \<lparr>g_databases = Map.empty, g_database_order = [], g_schema_order = Map.empty,
     g_table_order = Map.empty\<rparr>"

text \<open>\<^verbatim>\<open>d.setdefault(k, []).append(v)\<close>.\<close>

definition append_at :: "'k \<Rightarrow> 'v \<Rightarrow> ('k \<Rightarrow> 'v list option) \<Rightarrow> 'k \<Rightarrow> 'v list option" where
  "append_at k v d = d(k \<mapsto> coalesce (d k) [] @ [v])"

definition group_row :: "catalog_row \<Rightarrow> grouping \<Rightarrow> grouping" where
  "group_row r g =
     (let g1 = (if g_databases g (cr_database r) = None
                then g\<lparr>g_databases := (g_databases g)(cr_database r \<mapsto> Map.empty),
                       g_database_order := g_database_order g @ [cr_database r]\<rparr>
                else g);
          db = the (g_databases g1 (cr_database r));
          (g2, db2) = (if db (cr_schema r) = None
                then (g1\<lparr>g_schema_order := append_at (cr_database r) (cr_schema r) (g_schema_order g1)\<rparr>,
                      db(cr_schema r \<mapsto> Map.empty))
                else (g1, db));
          schema = the (db2 (cr_schema r));
          (g3, schema2) = (if schema (cr_table r) = None
                then (g2\<lparr>g_table_order :=
                           append_at (cr_database r, cr_schema r) (cr_table r) (g_table_order g2)\<rparr>,
                      schema(cr_table r \<mapsto> []))
                else (g2, schema));
          schema3 = schema2(cr_table r \<mapsto>
             the (schema2 (cr_table r)) @ [(cr_column r, cr_type r, cr_ordinal r)])
      in g3\<lparr>g_databases := (g_databases g3)(cr_database r \<mapsto> db2(cr_schema r \<mapsto> schema3))\<rparr>)"

definition group_rows :: "catalog_row list \<Rightarrow> grouping" where
  "group_rows rows = foldl (\<lambda>g r. group_row r g) empty_grouping rows"

definition table_columns :: "grouping \<Rightarrow> string \<Rightarrow> string \<Rightarrow> string \<Rightarrow> column_entry list" where
  "table_columns g d s t = the (the (the (g_databases g d) s) t)"

definition catalog_of :: "grouping \<Rightarrow> catalog_database list" where
  "catalog_of g =
     map (\<lambda>d. \<lparr>cd_name = d, cd_schemas =
       map (\<lambda>s. \<lparr>cs_name = s, cs_tables =
         map (\<lambda>t. \<lparr>ct_name = t, ct_columns =
           map (\<lambda>(c, ty, _). \<lparr>cc_name = c, cc_type = ty\<rparr>)
             (sort_key (\<lambda>(_, _, i). i) (table_columns g d s t))\<rparr>)
           (coalesce (g_table_order g (d, s)) [])\<rparr>)
         (coalesce (g_schema_order g d) [])\<rparr>)
       (g_database_order g)"

text \<open>The rows of the library as catalog rows; the statement selects five texts and a number.\<close>

fun catalog_row_of :: "duck_value list \<Rightarrow> catalog_row option" where
  "catalog_row_of [DText d, DText s, DText t, DText c, DText ty, DInt i] =
     Some \<lparr>cr_database = d, cr_schema = s, cr_table = t, cr_column = c, cr_type = ty, cr_ordinal = i\<rparr>"
| "catalog_row_of _ = None"

definition CATALOG_SQL :: string where
  "CATALOG_SQL =
     line 16 ''SELECT'' @ line 20 ''table_catalog AS database_name,'' @
     line 20 ''table_schema AS schema_name,'' @ line 20 ''table_name,'' @ line 20 ''column_name,'' @
     line 20 ''data_type,'' @ line 20 ''ordinal_position'' @
     line 16 ''FROM information_schema.columns'' @
     line 16 (''WHERE table_schema NOT IN ('' @ [CHR 0x27] @ ''information_schema'' @ [CHR 0x27] @ '', '' @
       [CHR 0x27] @ ''pg_catalog'' @ [CHR 0x27] @ '')'') @
     line 16 ''ORDER BY'' @ line 20 ''database_name,'' @ line 20 ''schema_name,'' @
     line 20 ''table_name,'' @ line 20 ''ordinal_position'' @ line 16 []"

text \<open>A row of another shape makes the loop or the response model raise.\<close>

definition introspect_catalog ::
  "'w duckdb \<Rightarrow> 'w executor \<Rightarrow> 'w executor \<times> (duck_error + catalog_database list)" where
  "introspect_catalog dl x =
     (case en_execute dl (x_admin x) CATALOG_SQL [] (x_world x) of
        (w, Inl e) \<Rightarrow> (x\<lparr>x_world := w\<rparr>, Inl e)
      | (w, Inr r) \<Rightarrow>
          (x\<lparr>x_world := w\<rparr>,
           (let rows = map catalog_row_of (fetchall r)
            in if None \<in> set rows then Inl (OtherError []) else Inr (catalog_of (group_rows (map the rows))))))"

section \<open>Quoted columns read back\<close>

lemma length_dropWhile_Cons: "dropWhile P s = c # t \<Longrightarrow> length t < length s"
  using length_dropWhile_le [of P s] by simp

text \<open>How SQL reads a list of delimited identifiers separated by commas and spaces.\<close>

function read_identifiers :: "string \<Rightarrow> string list option" where
  "read_identifiers s =
     (case dropWhile is_space s of
        CHR 0x22 # r \<Rightarrow>
          (case read_quoted CHR 0x22 [] r of
             None \<Rightarrow> None
           | Some (name, t) \<Rightarrow>
               (case dropWhile is_space t of
                  [] \<Rightarrow> Some [name]
                | c # t' \<Rightarrow>
                    if c = CHR '','' then map_option (Cons name) (read_identifiers t') else None))
      | _ \<Rightarrow> None)"
  by pat_completeness auto

termination
  by (relation "measure length")
     (auto dest!: read_quoted_shorter length_dropWhile_Cons)

declare read_identifiers.simps [simp del]

lemma read_identifiers_space: "read_identifiers (CHR '' '' # s) = read_identifiers s"
  by (subst (1 2) read_identifiers.simps) (simp add: is_space_def code_def)

lemma quote_not_space: "dropWhile is_space (CHR 0x22 # s) = CHR 0x22 # s"
  by (simp add: is_space_def code_def)

text \<open>Column names survive quoting: whatever names a result's columns have, quotes and commas included,
  the list of quoted identifiers in the statement reads back as exactly these names.\<close>

lemma quoted_columns_read_back:
  "columns \<noteq> [] \<Longrightarrow> read_identifiers (quoted_columns columns) = Some columns"
proof (induction columns)
  case Nil
  then show ?case by simp
next
  case (Cons c cs)
  have r: "read_quoted CHR 0x22 [] (replace [CHR 0x22] [CHR 0x22, CHR 0x22] c @ CHR 0x22 # t) = Some (c, t)"
    if "\<not> startswith t [CHR 0x22]" for t
    using read_quoted_doubled [OF that, of "[]" c] by simp
  show ?case
  proof (cases "cs = []")
    case True
    then show ?thesis
      using r [of "[]"]
      by (subst read_identifiers.simps)
         (simp add: quoted_columns_def quote_identifier_def quote_not_space del: dropWhile.simps(2))
  next
    case False
    then have q: "quoted_columns (c # cs) = CHR 0x22 # replace [CHR 0x22] [CHR 0x22, CHR 0x22] c @
        CHR 0x22 # '','' @ CHR '' '' # quoted_columns cs"
      by (simp add: quoted_columns_def quote_identifier_def join_Cons)
    have "dropWhile is_space ('','' @ CHR '' '' # quoted_columns cs) = '','' @ CHR '' '' # quoted_columns cs"
      by (simp add: is_space_def code_def)
    then show ?thesis
      using Cons.IH [OF False] r [of "'','' @ CHR '' '' # quoted_columns cs"]
      by (subst read_identifiers.simps)
         (simp add: q quote_not_space read_identifiers_space del: dropWhile.simps(2))
  qed
qed

section \<open>Pages tile the result\<close>

text \<open>What DuckDB's \<^verbatim>\<open>read_parquet\<close> does with a file of the given columns and rows, for any list of
  identifiers that reads as the columns; \<open>stored\<close> is the content of the files.\<close>

definition reads_parquet ::
  "'w duckdb \<Rightarrow> ('w \<Rightarrow> string \<Rightarrow> (string list \<times> duck_value list list) option) \<Rightarrow> bool" where
  "reads_parquet dl stored \<longleftrightarrow>
     (\<forall>w path columns rows c. stored w path = Some (columns, rows) \<longrightarrow>
        en_exists dl path w \<and>
        (\<exists>w' r. en_execute dl c COUNT_SQL [DText path] w = (w', Inr r) \<and> stored w' = stored w \<and>
           fetchall r = [[DInt (int (length rows))]]) \<and>
        (\<exists>w' r. en_execute dl c PREVIEW_SQL [DText path] w = (w', Inr r) \<and> stored w' = stored w \<and>
           description r = columns) \<and>
        (\<forall>ids n off. read_identifiers ids = Some columns \<longrightarrow> 0 \<le> n \<longrightarrow> 0 \<le> off \<longrightarrow>
           (\<exists>w' r. en_execute dl c (page_sql ids) [DText path, DInt n, DInt off] w = (w', Inr r) \<and>
              stored w' = stored w \<and> fetchall r = take (nat n) (drop (nat off) rows))))"

lemma read_result_page_stored:
  assumes "reads_parquet dl stored"
    and "stored (x_world x) (str_path (result_path x query_id)) = Some (columns, rows)"
    and "columns \<noteq> []" and "0 \<le> n" and "0 \<le> off"
  shows "\<exists>w. read_result_page dl query_id off n x = (x\<lparr>x_world := w\<rparr>,
      Inr \<lparr>pg_total_rows = DInt (int (length rows)), pg_columns = columns,
           pg_rows = take (nat n) (drop (nat off) rows)\<rparr>) \<and> stored w = stored (x_world x)"
proof -
  let ?p = "str_path (result_path x query_id)"
  note laws = assms(1) [unfolded reads_parquet_def, rule_format]
  obtain w1 r1 where 1: "en_execute dl (x_admin x) COUNT_SQL [DText ?p] (x_world x) = (w1, Inr r1)"
    "stored w1 = stored (x_world x)" "fetchall r1 = [[DInt (int (length rows))]]"
    using laws [OF assms(2)] by blast
  with assms(2) have s1: "stored w1 ?p = Some (columns, rows)" by simp
  obtain w2 r2 where 2: "en_execute dl (x_admin x) PREVIEW_SQL [DText ?p] w1 = (w2, Inr r2)"
    "stored w2 = stored w1" "description r2 = columns"
    using laws [OF s1] by blast
  with s1 have s2: "stored w2 ?p = Some (columns, rows)" by simp
  obtain w3 r3 where 3: "en_execute dl (x_admin x) (page_sql (quoted_columns columns))
      [DText ?p, DInt n, DInt off] w2 = (w3, Inr r3)"
    "stored w3 = stored w2" "fetchall r3 = take (nat n) (drop (nat off) rows)"
    using laws [OF s2] quoted_columns_read_back [OF assms(3)] assms(4,5) by blast
  show ?thesis
    using laws [OF assms(2)] 1 2 3
    by (auto simp: read_result_page_def read_page_def fetch_scalar_def Let_def)
qed

text \<open>A client that reads page after page, each of \<open>n\<close> rows.\<close>

fun read_pages ::
  "'w duckdb \<Rightarrow> uuid \<Rightarrow> int \<Rightarrow> nat \<Rightarrow> int \<Rightarrow> 'w executor \<Rightarrow> 'w executor \<times> (page_error + result_page list)"
where
  "read_pages dl query_id n 0 off x = (x, Inr [])"
| "read_pages dl query_id n (Suc k) off x =
     (case read_result_page dl query_id off n x of
        (x1, Inl e) \<Rightarrow> (x1, Inl e)
      | (x1, Inr p) \<Rightarrow>
          (case read_pages dl query_id n k (off + n) x1 of
             (x2, Inl e) \<Rightarrow> (x2, Inl e)
           | (x2, Inr ps) \<Rightarrow> (x2, Inr (p # ps))))"


text \<open>A library that stores one file and answers the three statements on it.\<close>

definition page_duckdb :: "(string \<Rightarrow> (string list \<times> duck_value list list) option) duckdb" where
  "page_duckdb =
     \<lparr>en_connect = (\<lambda>path c w. (w, None)),
      en_execute = (\<lambda>c sql ps w.
        (w, case ps of
              DText path # args \<Rightarrow>
                (case w path of
                   None \<Rightarrow> Inl (DuckError ''IO Error'')
                 | Some (columns, rows) \<Rightarrow>
                     if sql = COUNT_SQL
                     then Inr \<lparr>description = [], fetchall = [[DInt (int (length rows))]]\<rparr>
                     else (case args of
                             [DInt n, DInt off] \<Rightarrow>
                               Inr \<lparr>description = columns, fetchall = take (nat n) (drop (nat off) rows)\<rparr>
                           | _ \<Rightarrow> Inr \<lparr>description = columns, fetchall = []\<rparr>))
            | _ \<Rightarrow> Inl (DuckError ''Parser Error''))),
      en_interrupt = (\<lambda>c w. w), en_close = (\<lambda>c w. (w, None)), en_mkdir = (\<lambda>p w. w),
      en_exists = (\<lambda>p w. w p \<noteq> None), en_unlink = (\<lambda>p w. (w(p := None), None))\<rparr>"

lemma page_duckdb_reads: "reads_parquet page_duckdb id"
proof -
  have "page_sql q \<noteq> COUNT_SQL" "PREVIEW_SQL \<noteq> COUNT_SQL" for q
    by (simp_all add: page_sql_def COUNT_SQL_def PREVIEW_SQL_def line_def)
  then show ?thesis
    by (auto simp: reads_parquet_def page_duckdb_def split: option.splits)
qed


section \<open>The catalog is complete\<close>

text \<open>The distinct elements of a list in the order of their first occurrence.\<close>

definition firsts :: "'a list \<Rightarrow> 'a list" where
  "firsts xs = foldl (\<lambda>acc x. if x \<in> set acc then acc else acc @ [x]) [] xs"

lemma firsts_Nil [simp]: "firsts [] = []"
  by (simp add: firsts_def)

lemma firsts_single [simp]: "firsts [x] = [x]"
  by (simp add: firsts_def)

lemma set_firsts [simp]: "set (firsts xs) = set xs"
  by (induction xs rule: rev_induct) (auto simp: firsts_def)

lemma firsts_snoc: "firsts (xs @ [x]) = (if x \<in> set xs then firsts xs else firsts xs @ [x])"
  using set_firsts [of xs] by (simp add: firsts_def)

lemma distinct_firsts [simp]: "distinct (firsts xs)"
  by (induction xs rule: rev_induct) (auto simp: firsts_snoc)

lemma firsts_eq_Nil [simp]: "firsts xs = [] \<longleftrightarrow> xs = []"
  by (metis set_empty set_firsts)

text \<open>What the dictionaries hold after a list of rows.\<close>

definition entry_of :: "catalog_row \<Rightarrow> column_entry" where
  "entry_of r = (cr_column r, cr_type r, cr_ordinal r)"

definition rows_at :: "string \<Rightarrow> string \<Rightarrow> string \<Rightarrow> catalog_row list \<Rightarrow> catalog_row list" where
  "rows_at d s t = filter (\<lambda>r. cr_database r = d \<and> cr_schema r = s \<and> cr_table r = t)"

definition rows_in :: "string \<Rightarrow> string \<Rightarrow> catalog_row list \<Rightarrow> catalog_row list" where
  "rows_in d s = filter (\<lambda>r. cr_database r = d \<and> cr_schema r = s)"

definition rows_of_db :: "string \<Rightarrow> catalog_row list \<Rightarrow> catalog_row list" where
  "rows_of_db d = filter (\<lambda>r. cr_database r = d)"

definition some_if :: "'a list \<Rightarrow> 'b \<Rightarrow> 'b option" where
  "some_if xs b = (if xs = [] then None else Some b)"

definition tables_of :: "catalog_row list \<Rightarrow> string \<Rightarrow> string \<Rightarrow> string \<Rightarrow> column_entry list option" where
  "tables_of rs d s t = some_if (rows_at d s t rs) (map entry_of (rows_at d s t rs))"

definition grouping_of :: "catalog_row list \<Rightarrow> grouping" where
  "grouping_of rs =
     \<lparr>g_databases = (\<lambda>d. some_if (rows_of_db d rs)
        (\<lambda>s. some_if (rows_in d s rs) (tables_of rs d s))),
      g_database_order = firsts (map cr_database rs),
      g_schema_order = (\<lambda>d. some_if (rows_of_db d rs) (firsts (map cr_schema (rows_of_db d rs)))),
      g_table_order = (\<lambda>(d, s). some_if (rows_in d s rs) (firsts (map cr_table (rows_in d s rs))))\<rparr>"

lemmas rows_defs = rows_at_def rows_in_def rows_of_db_def

lemma rows_nested: "rows_of_db d rs = [] \<Longrightarrow> rows_in d s rs = []"
  "rows_in d s rs = [] \<Longrightarrow> rows_at d s t rs = []"
  by (auto simp: rows_defs filter_empty_conv)

lemma rows_snoc:
  "rows_of_db d (rs @ [r]) = rows_of_db d rs @ (if cr_database r = d then [r] else [])"
  "rows_in d s (rs @ [r]) = rows_in d s rs @ (if cr_database r = d \<and> cr_schema r = s then [r] else [])"
  "rows_at d s t (rs @ [r]) = rows_at d s t rs @
     (if cr_database r = d \<and> cr_schema r = s \<and> cr_table r = t then [r] else [])"
  by (auto simp: rows_defs)

lemma seen_names:
  "cr_database r \<in> set (map cr_database rs) \<longleftrightarrow> rows_of_db (cr_database r) rs \<noteq> []"
  "cr_schema r \<in> set (map cr_schema (rows_of_db d rs)) \<longleftrightarrow> rows_in d (cr_schema r) rs \<noteq> []"
  "cr_table r \<in> set (map cr_table (rows_in d s rs)) \<longleftrightarrow> rows_at d s (cr_table r) rs \<noteq> []"
  by (auto simp: rows_defs filter_empty_conv image_iff) (metis+)

lemma group_row_grouping: "group_row r (grouping_of rs) = grouping_of (rs @ [r])"
proof -
  let ?d = "cr_database r" and ?s = "cr_schema r" and ?t = "cr_table r"
  note simps = group_row_def grouping_of_def some_if_def tables_of_def append_at_def entry_of_def
    rows_snoc firsts_snoc seen_names rows_nested Let_def fun_eq_iff
  consider "rows_of_db ?d rs = []" | "rows_of_db ?d rs \<noteq> []" "rows_in ?d ?s rs = []"
    | "rows_in ?d ?s rs \<noteq> []" "rows_at ?d ?s ?t rs = []" | "rows_at ?d ?s ?t rs \<noteq> []"
    by blast
  then show ?thesis
  proof cases
    case 1
    then show ?thesis by (simp add: simps del: set_map)
  next
    case 2
    then show ?thesis by (simp add: simps del: set_map)
  next
    case 3
    then have "rows_of_db ?d rs \<noteq> []" using rows_nested by blast
    with 3 show ?thesis by (simp add: simps del: set_map)
  next
    case 4
    then have "rows_in ?d ?s rs \<noteq> []" "rows_of_db ?d rs \<noteq> []" using rows_nested by blast+
    with 4 show ?thesis by (simp add: simps del: set_map)
  qed
qed

lemma group_rows_eq: "group_rows rs = grouping_of rs"
proof (induction rs rule: rev_induct)
  case Nil
  then show ?case
    by (simp add: group_rows_def empty_grouping_def grouping_of_def rows_defs some_if_def fun_eq_iff)
next
  case (snoc r rs)
  then show ?case
    by (simp add: group_rows_def group_row_grouping)
qed

text \<open>Splitting a list by a key into the groups of its distinct keys loses and repeats nothing.\<close>

lemma mset_groups:
  assumes "distinct ks" and "set ks = f ` set xs"
  shows "mset (concat (map (\<lambda>k. filter (\<lambda>x. f x = k) xs) ks)) = mset xs"
  using assms
proof (induction ks arbitrary: xs)
  case Nil
  then show ?case by simp
next
  case (Cons k ks)
  let ?ys = "filter (\<lambda>x. f x \<noteq> k) xs"
  have "filter (\<lambda>x. f x = k') ?ys = filter (\<lambda>x. f x = k') xs" if "k' \<in> set ks" for k'
    using Cons.prems(1) that by (auto intro!: filter_cong)
  then have eq: "map (\<lambda>k. filter (\<lambda>x. f x = k) ?ys) ks = map (\<lambda>k. filter (\<lambda>x. f x = k) xs) ks"
    by (intro map_cong) auto
  have "set ks = f ` set ?ys"
    using Cons.prems by (auto simp: set_eq_iff image_iff)
  with Cons.IH [of ?ys] Cons.prems(1)
  have "mset (concat (map (\<lambda>k. filter (\<lambda>x. f x = k) xs) ks)) = mset ?ys"
    unfolding eq [symmetric] by (simp del: filter_filter)
  then show ?case
    using multiset_partition [of "mset xs" "\<lambda>x. f x = k"] by simp
qed

lemma mset_concat_cong:
  "(\<And>k. k \<in> set ks \<Longrightarrow> mset (f k) = mset (g k)) \<Longrightarrow>
    mset (concat (map f ks)) = mset (concat (map g ks))"
  by (induction ks) auto

text \<open>The columns a catalog lists, with the names they are listed under.\<close>

definition catalog_columns :: "catalog_database list \<Rightarrow> (string \<times> string \<times> string \<times> string \<times> string) list" where
  "catalog_columns cat =
     concat (map (\<lambda>d. concat (map (\<lambda>s. concat (map (\<lambda>t.
       map (\<lambda>c. (cd_name d, cs_name s, ct_name t, cc_name c, cc_type c)) (ct_columns t))
       (cs_tables s))) (cd_schemas d))) cat)"

definition column_of :: "catalog_row \<Rightarrow> string \<times> string \<times> string \<times> string \<times> string" where
  "column_of r = (cr_database r, cr_schema r, cr_table r, cr_column r, cr_type r)"

text \<open>The rows in the order the catalog lists them.\<close>

definition listed_rows :: "catalog_row list \<Rightarrow> catalog_row list" where
  "listed_rows rs =
     concat (map (\<lambda>d. concat (map (\<lambda>s. concat (map (\<lambda>t. sort_key cr_ordinal (rows_at d s t rs))
       (firsts (map cr_table (rows_in d s rs))))) (firsts (map cr_schema (rows_of_db d rs)))))
       (firsts (map cr_database rs)))"

lemma sort_key_map: "sort_key g (map f xs) = map f (sort_key (g \<circ> f) xs)"
proof -
  have "insort_key g (f a) (map f ys) = map f (insort_key (g \<circ> f) a ys)" for a ys
    by (induction ys) auto
  then show ?thesis by (induction xs) auto
qed

lemma table_columns_rows:
  "table_columns (grouping_of rs) d s t = map entry_of (rows_at d s t rs)" if "rows_at d s t rs \<noteq> []"
  using that rows_nested(1) [of d rs s] rows_nested(2) [of d s rs t]
  by (auto simp: table_columns_def grouping_of_def some_if_def tables_of_def)

lemma order_lookup:
  "coalesce (g_schema_order (grouping_of rs) d) [] = firsts (map cr_schema (rows_of_db d rs))"
  "coalesce (g_table_order (grouping_of rs) (d, s)) [] = firsts (map cr_table (rows_in d s rs))"
  by (simp_all add: grouping_of_def some_if_def)

lemma table_listing:
  assumes "t \<in> set (map cr_table (rows_in d s rs))"
  shows "map (\<lambda>c. (d, s, t, cc_name c, cc_type c)) (map (\<lambda>(c, ty, _). \<lparr>cc_name = c, cc_type = ty\<rparr>)
      (sort_key (\<lambda>(_, _, i). i) (table_columns (grouping_of rs) d s t))) =
    map column_of (sort_key cr_ordinal (rows_at d s t rs))"
proof -
  from assms obtain r where "r \<in> set (rows_at d s t rs)"
    by (auto simp: rows_defs)
  then have ne: "rows_at d s t rs \<noteq> []" by auto
  have key: "(\<lambda>(_, _, i). i) \<circ> entry_of = cr_ordinal"
    by (simp add: fun_eq_iff entry_of_def)
  have "set (sort_key cr_ordinal (rows_at d s t rs)) = set (rows_at d s t rs)"
    by simp
  then show ?thesis
    unfolding table_columns_rows [OF ne] sort_key_map key
    by (auto simp: rows_at_def entry_of_def column_of_def)
qed

lemma map_concat_map: "map f (concat (map g xs)) = concat (map (\<lambda>x. map f (g x)) xs)"
  by (induction xs) auto

lemma catalog_columns_rows:
  "catalog_columns (catalog_of (group_rows rs)) = map column_of (listed_rows rs)"
proof -
  have order: "g_database_order (grouping_of rs) = firsts (map cr_database rs)"
    by (simp add: grouping_of_def)
  show ?thesis
    unfolding group_rows_eq catalog_of_def catalog_columns_def listed_rows_def map_concat_map
      order_lookup order map_map comp_def catalog_database.simps catalog_schema.simps catalog_table.simps
    by (intro arg_cong [where f = concat] map_cong refl)
       (use table_listing in \<open>simp add: comp_def\<close>)
qed

lemma mset_concat_groups:
  assumes "\<And>k. k \<in> f ` set xs \<Longrightarrow> mset (g k) = mset (filter (\<lambda>x. f x = k) xs)"
  shows "mset (concat (map g (firsts (map f xs)))) = mset xs"
proof -
  have "mset (concat (map g (firsts (map f xs)))) =
      mset (concat (map (\<lambda>k. filter (\<lambda>x. f x = k) xs) (firsts (map f xs))))"
    by (rule mset_concat_cong) (simp add: assms)
  then show ?thesis by (simp add: mset_groups)
qed

lemma mset_listed_rows: "mset (listed_rows rs) = mset rs"
  unfolding listed_rows_def
proof (rule mset_concat_groups)
  fix d
  show "mset (concat (map (\<lambda>s. concat (map (\<lambda>t. sort_key cr_ordinal (rows_at d s t rs))
      (firsts (map cr_table (rows_in d s rs))))) (firsts (map cr_schema (rows_of_db d rs))))) =
    mset (filter (\<lambda>r. cr_database r = d) rs)"
    unfolding rows_of_db_def [symmetric]
  proof (rule mset_concat_groups)
    fix s
    have "rows_in d s rs = filter (\<lambda>r. cr_schema r = s) (rows_of_db d rs)"
      by (simp add: rows_defs conj_ac)
    moreover have "mset (concat (map (\<lambda>t. sort_key cr_ordinal (rows_at d s t rs))
        (firsts (map cr_table (rows_in d s rs))))) = mset (rows_in d s rs)"
      by (rule mset_concat_groups) (simp add: rows_defs conj_ac)
    ultimately show "mset (concat (map (\<lambda>t. sort_key cr_ordinal (rows_at d s t rs))
        (firsts (map cr_table (rows_in d s rs))))) = mset (filter (\<lambda>r. cr_schema r = s) (rows_of_db d rs))"
      by simp
  qed
qed

text \<open>C23. The catalog is complete and without repetition. Whatever rows the information schema gives, in
  whatever order, the catalog built from them lists every column exactly as often as there is a row for
  it, under the right database, schema and table, and no database, schema of a database or table of
  a schema occurs twice.\<close>

theorem catalog_complete:
  "mset (catalog_columns (catalog_of (group_rows rows))) = mset (map column_of rows) \<and>
   distinct (map cd_name (catalog_of (group_rows rows))) \<and>
   (\<forall>d\<in>set (catalog_of (group_rows rows)). distinct (map cs_name (cd_schemas d)) \<and>
      (\<forall>s\<in>set (cd_schemas d). distinct (map ct_name (cs_tables s))))"
proof (intro conjI)
  show "mset (catalog_columns (catalog_of (group_rows rows))) = mset (map column_of rows)"
    by (simp add: catalog_columns_rows mset_listed_rows)
  show "distinct (map cd_name (catalog_of (group_rows rows)))"
    by (simp add: group_rows_eq catalog_of_def comp_def grouping_of_def)
  show "\<forall>d\<in>set (catalog_of (group_rows rows)). distinct (map cs_name (cd_schemas d)) \<and>
      (\<forall>s\<in>set (cd_schemas d). distinct (map ct_name (cs_tables s)))"
    by (auto simp: group_rows_eq catalog_of_def comp_def order_lookup)
qed

definition sample_rows :: "catalog_row list" where
  "sample_rows = map (\<lambda>(t, c, i). \<lparr>cr_database = ''memory'', cr_schema = ''main'', cr_table = t,
     cr_column = c, cr_type = ''INTEGER'', cr_ordinal = i\<rparr>) [(''a'', ''y'', 2), (''b'', ''z'', 1), (''a'', ''x'', 1)]"

theorem catalog_complete_witness:
  "distinct (map ct_name (cs_tables (hd (cd_schemas (hd (catalog_of (group_rows sample_rows))))))) \<and>
   catalog_columns (catalog_of (group_rows sample_rows)) =
     [(''memory'', ''main'', ''a'', ''x'', ''INTEGER''), (''memory'', ''main'', ''a'', ''y'', ''INTEGER''),
      (''memory'', ''main'', ''b'', ''z'', ''INTEGER'')]"
proof -
  have ne: "catalog_of (group_rows sample_rows) \<noteq> []"
    "cd_schemas (hd (catalog_of (group_rows sample_rows))) \<noteq> []"
    by (simp_all add: group_rows_eq catalog_of_def grouping_of_def sample_rows_def firsts_def
        some_if_def rows_defs)
  with catalog_complete [of sample_rows]
  have "distinct (map ct_name (cs_tables (hd (cd_schemas (hd (catalog_of (group_rows sample_rows)))))))"
    by (meson hd_in_set)
  moreover have "catalog_columns (catalog_of (group_rows sample_rows)) =
     [(''memory'', ''main'', ''a'', ''x'', ''INTEGER''), (''memory'', ''main'', ''a'', ''y'', ''INTEGER''),
      (''memory'', ''main'', ''b'', ''z'', ''INTEGER'')]"
    by (simp add: catalog_columns_rows listed_rows_def sample_rows_def firsts_def rows_defs column_of_def)
  ultimately show ?thesis ..
qed

section \<open>Statements wrapped into COPY\<close>

lemma rstrip_chars_snoc: "rstrip_chars cs (s @ [c]) = (if c \<in> set cs then rstrip_chars cs s else s @ [c])"
  by (simp add: rstrip_chars_def)

lemma strip_snoc: "\<not> is_space c \<Longrightarrow> strip (s @ [c]) = lstrip s @ [c]"
  by (induction s) (auto simp: strip_def lstrip_def rstrip_def)

lemma lstrip_stripped:
  assumes "s = strip s"
  shows "lstrip s = s"
proof -
  have "length s = length (rstrip (lstrip s))"
    using assms by (simp add: strip_def)
  also have "\<dots> \<le> length (lstrip s)"
    using length_dropWhile_le [of is_space "rev (lstrip s)"] by (simp add: rstrip_def)
  finally have "length s \<le> length (lstrip s)" .
  moreover have "length (takeWhile is_space s) + length (lstrip s) = length s"
    unfolding lstrip_def by (metis length_append takeWhile_dropWhile_id)
  ultimately have "length (takeWhile is_space s) = 0" by linarith
  then have "takeWhile is_space s = []" by (simp only: length_0_conv)
  then show ?thesis
    using takeWhile_dropWhile_id [of is_space s] by (simp add: lstrip_def)
qed

text \<open>A semicolon slips into the middle of a statement. If a worker takes a query for one with a result,
  it takes the same query with a semicolon after it for one as well, and the statement it then sends
  to DuckDB is \<^verbatim>\<open>COPY\<close> with the query and its semicolon between the parentheses.\<close>

theorem semicolon_inside_copy:
  assumes "returns_results query" and "query = strip query"
  shows "returns_results (query @ '';'') \<and>
    first_statement dl c query_id (query @ '';'') x =
      (let (w, r) = en_execute dl c (''COPY ('' @ query @ '';) TO '' @ [CHR 0x27] @
           str_path (result_path x query_id) @ [CHR 0x27] @ '' (FORMAT PARQUET)'') [] (x_world x)
       in (x\<lparr>x_world := w\<rparr>, map_sum id (\<lambda>_. ()) r))"
proof -
  have "\<not> is_space CHR '';''" by (simp add: is_space_def code_def)
  then have "strip (query @ '';'') = query @ '';''"
    using strip_snoc lstrip_stripped [OF assms(2)] by metis
  moreover have "strip query = query" using assms(2) by simp
  ultimately have "returns_results (query @ '';'')"
    using assms(1) by (simp add: returns_results_def rstrip_chars_snoc)
  then show ?thesis
    by (simp add: first_statement_def copy_sql_def split: prod.splits)
qed

theorem semicolon_inside_copy_witness:
  "returns_results ''SELECT 1;'' \<and> copy_sql ''SELECT 1;'' ''/r/x'' =
     ''COPY (SELECT 1;) TO '' @ [CHR 0x27] @ ''/r/x'' @ [CHR 0x27] @ '' (FORMAT PARQUET)''"
proof -
  have r: "returns_results ''SELECT 1''" and s: "''SELECT 1'' = strip ''SELECT 1''"
    by code_simp+
  from semicolon_inside_copy [OF r s, of page_duckdb 0 0] show ?thesis
    by (simp add: copy_sql_def)
qed

end
