(* ===== verification/Worker_Registration.thy ===== *)
theory Worker_Registration
  imports Settings Http Models
begin

text \<open>
  \<^verbatim>\<open>ducklauncher/worker/registration.py\<close>: the state of a worker's process, what it reads about its host,
  its registration with retries, its heartbeats, its notices to the coordinator and the handler of
  signals. Answers of the coordinator, facts about the host and the moments at which other tasks
  run are arguments; requests sent are part of the results. Writing the id file and creating its
  directory succeed; floating-point numbers are reals.
\<close>

section \<open>State of the process\<close>

record worker_state =
  wk_id :: "uuid option"
  wk_shutting_down :: bool
  wk_shutdown_event :: bool

definition new_worker_state :: worker_state where
  "new_worker_state = \<lparr>wk_id = None, wk_shutting_down = False, wk_shutdown_event = False\<rparr>"

type_synonym worker_files = "posix_path \<Rightarrow> string option"

definition persist_worker_id :: "worker_settings \<Rightarrow> uuid \<Rightarrow> worker_files \<Rightarrow> worker_files" where
  "persist_worker_id settings worker_id files = files(worker_id_path settings \<mapsto> str_uuid worker_id)"

text \<open>An exception that leaves a function of the worker: an \<^verbatim>\<open>httpx.HTTPError\<close>, one of Python's, a failed
  assertion, or one no handler knows.\<close>

datatype worker_error = HttpxError string | PyFail py_error | AssertionFail | Uncaught

section \<open>The host\<close>

text \<open>The lines of \<^verbatim>\<open>/proc/meminfo\<close> if there is one, \<^verbatim>\<open>sys.platform\<close>, the load average if it can be read,
  \<^verbatim>\<open>os.cpu_count()\<close>, and the two figures of \<^verbatim>\<open>os.statvfs\<close> if it succeeds.\<close>

record host =
  h_meminfo :: "string list option"
  h_platform :: string
  h_loadavg :: "real option"
  h_cpu_count :: "int option"
  h_statvfs :: "(int \<times> int) option"

text \<open>\<^verbatim>\<open>int(s)\<close> of a text without white space: a sign, and digits with single underscores between
  them.\<close>

fun py_digits :: "bool \<Rightarrow> nat \<Rightarrow> string \<Rightarrow> nat option" where
  "py_digits d n [] = (if d then Some n else None)"
| "py_digits d n (c # cs) =
     (if 48 \<le> code c \<and> code c \<le> 57 then py_digits True (10 * n + (code c - 48)) cs
      else if c = CHR ''_'' \<and> d then py_digits False n cs else None)"

definition py_int :: "string \<Rightarrow> int option" where
  "py_int s =
     (if startswith s ''-'' then map_option (\<lambda>n. - int n) (py_digits False 0 (tl s))
      else if startswith s ''+'' then map_option int (py_digits False 0 (tl s))
      else map_option int (py_digits False 0 s))"

definition meminfo_line :: "string \<Rightarrow> (string \<Rightarrow> int option) \<Rightarrow> py_error + (string \<Rightarrow> int option)" where
  "meminfo_line line m =
     (case split_on CHR '':'' line of
        [key, value] \<Rightarrow>
          (case takeWhile (\<lambda>c. \<not> is_space c) (strip value) of
             [] \<Rightarrow> Inl IndexError
           | first \<Rightarrow> (case py_int first of
                          None \<Rightarrow> Inl ValueError
                        | Some v \<Rightarrow> Inr (m(strip key \<mapsto> v))))
      | _ \<Rightarrow> Inr m)"

fun read_meminfo :: "string list \<Rightarrow> (string \<Rightarrow> int option) \<Rightarrow> py_error + (string \<Rightarrow> int option)" where
  "read_meminfo [] m = Inr m"
| "read_meminfo (l # ls) m = (case meminfo_line l m of Inl e \<Rightarrow> Inl e | Inr m' \<Rightarrow> read_meminfo ls m')"

text \<open>Total, free and used memory in megabytes.\<close>

definition host_memory :: "host \<Rightarrow> py_error + int \<times> int \<times> int" where
  "host_memory h =
     (case h_meminfo h of
        None \<Rightarrow> if h_platform h \<noteq> ''darwin'' then Inl (FileNotFoundError ''/proc/meminfo'')
                else Inr (8192, 4096, 8192 - 4096)
      | Some ls \<Rightarrow>
          (case read_meminfo ls Map.empty of
             Inl e \<Rightarrow> Inl e
           | Inr m \<Rightarrow>
               (let mem_total = coalesce (m ''MemTotal'') 0 div 1024;
                    free = coalesce (m ''MemAvailable'') (coalesce (m ''MemFree'') 0) div 1024
                in Inr (mem_total, free, mem_total - free))))"

text \<open>\<^verbatim>\<open>round(x, 2)\<close>: to the nearest hundredth, from the middle to the even one.\<close>

definition round2 :: "real \<Rightarrow> real" where
  "round2 x =
     (let n = \<lfloor>x * 100\<rfloor>; f = x * 100 - of_int n
      in of_int (if f < 1 / 2 \<or> (f = 1 / 2 \<and> even n) then n else n + 1) / 100)"

definition collect_metrics :: "host \<Rightarrow> py_error + metrics" where
  "collect_metrics h =
     (case host_memory h of
        Inl e \<Rightarrow> Inl e
      | Inr (mem_total, free, used) \<Rightarrow>
          (let load = coalesce (h_loadavg h) 0;
               cpus = (case h_cpu_count h of None \<Rightarrow> 1 | Some n \<Rightarrow> if n = 0 then 1 else n);
               usage = min 100 (load / of_int cpus * 100)
           in Inr \<lparr>mt_memory_used_mb = used, mt_memory_left_mb = free, mt_cpu_count = cpus,
                   mt_cpu_usage = round2 usage\<rparr>))"

definition available_disk_space_mb :: "host \<Rightarrow> int" where
  "available_disk_space_mb h =
     (case h_statvfs h of Some (bavail, frsize) \<Rightarrow> bavail * frsize div (1024 * 1024) | None \<Rightarrow> 1024)"

definition worker_resources :: "host \<Rightarrow> worker_settings \<Rightarrow> metrics \<Rightarrow> int \<times> int \<times> int" where
  "worker_resources h settings m =
     (coalesce (ws_cpus settings) (mt_cpu_count m), coalesce (ws_memory settings) (mt_memory_left_mb m),
      coalesce (ws_disk_space settings) (available_disk_space_mb h))"

section \<open>Registration\<close>

text \<open>The body of the coordinator's answer as the worker reads it: no JSON, or an object with the two
  members if they are there.\<close>

datatype register_answer = NotJson | Members "string option" "string list option"

datatype net_event = Posted string register_body | Slept real

definition register_url :: "worker_settings \<Rightarrow> string" where
  "register_url settings = coordinator_url settings @ ''/workers/register''"

text \<open>The attempts: \<open>answer\<close> gives the outcome of each, \<open>left\<close> is how many remain.\<close>

fun register_turns ::
  "worker_settings \<Rightarrow> (nat \<Rightarrow> register_answer outcome) \<Rightarrow> register_body \<Rightarrow> real \<Rightarrow> nat \<Rightarrow> nat \<Rightarrow>
   string option \<Rightarrow> worker_state \<Rightarrow> worker_files \<Rightarrow>
   net_event list \<times> worker_state \<times> worker_files \<times> (worker_error + string list)" where
  "register_turns settings answer payload retry_delay_sec attempt 0 last_error st files =
     ([], st, files, Inl (case last_error of None \<Rightarrow> AssertionFail | Some e \<Rightarrow> HttpxError e))"
| "register_turns settings answer payload retry_delay_sec attempt (Suc left) last_error st files =
     (let post = Posted (register_url settings) payload
      in case raise_for_status (answer attempt) of
           HttpError e \<Rightarrow>
             (case register_turns settings answer payload retry_delay_sec (attempt + 1) left (Some e)
                     st files of
                (evs, r) \<Rightarrow> (post # (if 0 < left then [Slept retry_delay_sec] else []) @ evs, r))
         | Raises \<Rightarrow> ([post], st, files, Inl Uncaught)
         | Reply _ NotJson \<Rightarrow> ([post], st, files, Inl (PyFail ValueError))
         | Reply _ (Members None scripts) \<Rightarrow> ([post], st, files, Inl (PyFail (KeyError ''worker_id'')))
         | Reply _ (Members (Some text) scripts) \<Rightarrow>
             (case parse_uuid text of
                Inl e \<Rightarrow> ([post], st, files, Inl (PyFail e))
              | Inr worker_id \<Rightarrow>
                  ([post], st\<lparr>wk_id := Some worker_id\<rparr>, persist_worker_id settings worker_id files,
                   Inr (coalesce scripts []))))"

definition register_payload ::
  "host \<Rightarrow> worker_settings \<Rightarrow> metrics \<Rightarrow> uuid \<Rightarrow> register_body" where
  "register_payload h settings m existing_id =
     (case worker_resources h settings m of (cpus, memory, disk_space) \<Rightarrow>
        \<lparr>rb_worker_id = Some existing_id, rb_endpoint = worker_endpoint settings, rb_cpus = cpus,
         rb_memory = memory, rb_disk_space = disk_space,
         rb_max_concurrent_queries = max_concurrent_queries settings\<rparr>)"

definition register_with_coordinator ::
  "uuid \<Rightarrow> host \<Rightarrow> worker_settings \<Rightarrow> (nat \<Rightarrow> register_answer outcome) \<Rightarrow> nat \<Rightarrow> real \<Rightarrow>
   worker_state \<Rightarrow> worker_files \<Rightarrow>
   net_event list \<times> worker_state \<times> worker_files \<times> (worker_error + string list)" where
  "register_with_coordinator fresh h settings answer max_attempts retry_delay_sec st files =
     (case collect_metrics h of
        Inl e \<Rightarrow> ([], st, files, Inl (PyFail e))
      | Inr m \<Rightarrow>
          (case resolve_local_worker_id fresh files settings of
             Inl e \<Rightarrow> ([], st, files, Inl (PyFail e))
           | Inr existing_id \<Rightarrow>
               register_turns settings answer (register_payload h settings m existing_id)
                 retry_delay_sec 1 max_attempts None st files))"

section \<open>Notices and heartbeats\<close>

text \<open>A notice: the request if one is sent, and the exception that leaves.\<close>

definition worker_url :: "worker_settings \<Rightarrow> uuid \<Rightarrow> string \<Rightarrow> string" where
  "worker_url settings worker_id action =
     coordinator_url settings @ ''/workers/'' @ str_uuid worker_id @ ''/'' @ action"

definition notify_ready ::
  "worker_settings \<Rightarrow> worker_state \<Rightarrow> unit outcome \<Rightarrow> string list \<times> (worker_error + unit)" where
  "notify_ready settings st answer =
     (case wk_id st of
        None \<Rightarrow> ([], Inr ())
      | Some k \<Rightarrow>
          ([worker_url settings k ''ready''],
           case raise_for_status answer of
             Reply _ _ \<Rightarrow> Inr () | HttpError e \<Rightarrow> Inl (HttpxError e) | Raises \<Rightarrow> Inl Uncaught))"

text \<open>\<open>None\<close> is the timeout of five seconds.\<close>

definition notify_shutdown ::
  "worker_settings \<Rightarrow> worker_state \<Rightarrow> unit outcome option \<Rightarrow> string list \<times> (worker_error + unit)" where
  "notify_shutdown settings st answer =
     (case wk_id st of
        None \<Rightarrow> ([], Inr ())
      | Some k \<Rightarrow>
          ([worker_url settings k ''shutdown''], if answer = Some Raises then Inl Uncaught else Inr ()))"

text \<open>What one turn of the loop meets: whether the event is set at its start, the state and the host at
  the heartbeat, the number of active queries if there is an executor, the answer, and whether the
  event is set before the interval is over.\<close>

record beat =
  bt_event_set :: bool
  bt_state :: worker_state
  bt_host :: host
  bt_active :: "nat option"
  bt_answer :: "unit outcome"
  bt_woken :: bool

datatype loop_end = LoopRuns | LoopEnded | LoopDied worker_error

definition heartbeat_payload ::
  "worker_settings \<Rightarrow> host \<Rightarrow> worker_state \<Rightarrow> nat option \<Rightarrow> metrics \<Rightarrow> heartbeat_body" where
  "heartbeat_payload settings h st active m =
     (case worker_resources h settings m of (cpus, memory, disk_space) \<Rightarrow>
        \<lparr>hb_cpus = Some cpus, hb_memory = Some memory, hb_disk_space = Some disk_space,
         hb_status = Some (if wk_shutting_down st then ''shutting_down'' else ''running''),
         hb_memory_used_mb = Some (mt_memory_used_mb m), hb_cpu_usage = Some (mt_cpu_usage m),
         hb_running_queries = map_option int active\<rparr>)"

fun heartbeat_loop ::
  "worker_settings \<Rightarrow> beat list \<Rightarrow> (string \<times> heartbeat_body) list \<times> loop_end" where
  "heartbeat_loop settings [] = ([], LoopRuns)"
| "heartbeat_loop settings (b # bs) =
     (if bt_event_set b then ([], LoopEnded)
      else case wk_id (bt_state b) of
        None \<Rightarrow> if bt_woken b then ([], LoopEnded) else heartbeat_loop settings bs
      | Some k \<Rightarrow>
          (case collect_metrics (bt_host b) of
             Inl e \<Rightarrow> ([], LoopDied (PyFail e))
           | Inr m \<Rightarrow>
               (let sent = (worker_url settings k ''heartbeat'',
                      heartbeat_payload settings (bt_host b) (bt_state b) (bt_active b) m)
                in if bt_answer b = Raises then ([sent], LoopDied Uncaught)
                   else if bt_woken b then ([sent], LoopEnded)
                   else (case heartbeat_loop settings bs of (evs, r) \<Rightarrow> (sent # evs, r)))))"

section \<open>Signals\<close>

text \<open>The first signal starts the shutdown and tells the server to exit, if it can be told; the second
  ends the process.\<close>

datatype signal_effect = ForcedExit | Graceful

definition handle_shutdown :: "worker_state \<Rightarrow> bool option \<Rightarrow> worker_state \<times> bool option \<times> signal_effect" where
  "handle_shutdown st should_exit =
     (if wk_shutting_down st then (st, should_exit, ForcedExit)
      else (st\<lparr>wk_shutting_down := True, wk_shutdown_event := True\<rparr>,
            map_option (\<lambda>_. True) should_exit, Graceful))"

section \<open>Retries\<close>

text \<open>The requests and pauses of \<open>n\<close> attempts.\<close>

definition attempts :: "worker_settings \<Rightarrow> register_body \<Rightarrow> real \<Rightarrow> nat \<Rightarrow> net_event list" where
  "attempts settings payload pause n =
     concat (replicate (n - 1) [Posted (register_url settings) payload, Slept pause]) @
     [Posted (register_url settings) payload]"

lemma attempts_Suc: "0 < n \<Longrightarrow> attempts settings payload pause (Suc n) =
    Posted (register_url settings) payload # Slept pause # attempts settings payload pause n"
  by (cases n) (simp_all add: attempts_def)

lemma register_turns_fail:
  assumes "\<And>i. a \<le> i \<Longrightarrow> i < a + n \<Longrightarrow> \<exists>e. raise_for_status (answer i) = HttpError e" and "0 < n"
  shows "\<exists>e. raise_for_status (answer (a + n - 1)) = HttpError e \<and>
    register_turns settings answer payload pause a n before st files =
      (attempts settings payload pause n, st, files, Inl (HttpxError e))"
  using assms
proof (induction n arbitrary: a before)
  case 0
  then show ?case by simp
next
  case (Suc n)
  from Suc.prems(1) [of a] obtain e where e: "raise_for_status (answer a) = HttpError e" by auto
  show ?case
  proof (cases "n = 0")
    case True
    with e show ?thesis by (simp add: attempts_def)
  next
    case False
    then obtain e' where "raise_for_status (answer (Suc a + n - 1)) = HttpError e'"
      "register_turns settings answer payload pause (Suc a) n (Some e) st files =
        (attempts settings payload pause n, st, files, Inl (HttpxError e'))"
      using Suc.IH [of "Suc a" "Some e"] Suc.prems(1) by auto
    with e False show ?thesis by (simp add: attempts_Suc)
  qed
qed

lemma register_turns_succeed:
  assumes "\<And>i. a \<le> i \<Longrightarrow> i < a + j \<Longrightarrow> \<exists>e. raise_for_status (answer i) = HttpError e"
    and "raise_for_status (answer (a + j)) = Reply status (Members (Some (str_uuid k)) scripts)"
    and "j < n"
  shows "register_turns settings answer payload pause a n before st files =
      (attempts settings payload pause (Suc j), st\<lparr>wk_id := Some k\<rparr>, persist_worker_id settings k files,
       Inr (coalesce scripts []))"
  using assms
proof (induction j arbitrary: a n before)
  case 0
  then show ?case by (cases n) (simp_all add: attempts_def)
next
  case (Suc j)
  from Suc.prems(1) [of a] obtain e where e: "raise_for_status (answer a) = HttpError e" by auto
  obtain n' where n: "n = Suc n'" "j < n'" using Suc.prems(3) by (cases n) auto
  have "register_turns settings answer payload pause (Suc a) n' (Some e) st files =
      (attempts settings payload pause (Suc j), st\<lparr>wk_id := Some k\<rparr>, persist_worker_id settings k files,
       Inr (coalesce scripts []))"
    using Suc.IH [of "Suc a" n' "Some e"] Suc.prems(1,2) n(2) by auto
  with e n show ?case by (simp add: attempts_Suc)
qed

text \<open>C39. Registration tries until it is answered. When the coordinator cannot be reached or refuses, the
  worker sends the same request again after a pause, at most \<^verbatim>\<open>max_attempts\<close> times, with one pause
  fewer than requests: if every attempt fails it raises the last error and neither has an id nor has
  written one; if an attempt is answered with an id, that attempt is the last, the worker has the id,
  the id file holds it, and the init scripts of the answer are returned.\<close>

theorem registration_retries:
  assumes "collect_metrics h = Inr m" and "resolve_local_worker_id fresh files settings = Inr own"
    and "j < n" and "\<forall>i. 1 \<le> i \<longrightarrow> i \<le> j \<longrightarrow> (\<exists>e. raise_for_status (answer i) = HttpError e)"
  shows "((\<exists>e. raise_for_status (answer (Suc j)) = HttpError e) \<longrightarrow> n = Suc j \<longrightarrow>
      (\<exists>e. raise_for_status (answer n) = HttpError e \<and>
         register_with_coordinator fresh h settings answer n pause st files =
           (attempts settings (register_payload h settings m own) pause n, st, files, Inl (HttpxError e)))) \<and>
    (raise_for_status (answer (Suc j)) = Reply status (Members (Some (str_uuid k)) scripts) \<longrightarrow>
       register_with_coordinator fresh h settings answer n pause st files =
         (attempts settings (register_payload h settings m own) pause (Suc j), st\<lparr>wk_id := Some k\<rparr>,
          files(worker_id_path settings \<mapsto> str_uuid k), Inr (coalesce scripts [])))"
proof (intro conjI impI)
  assume e: "\<exists>e. raise_for_status (answer (Suc j)) = HttpError e" and n: "n = Suc j"
  have "\<exists>e. raise_for_status (answer i) = HttpError e" if "1 \<le> i" "i < 1 + n" for i
    using assms(4) e that n by (cases "i = Suc j") auto
  note fails = register_turns_fail [where a = 1 and n = n and answer = answer, OF this]
  from fails [where settings = settings and pause = pause and before = None and st = st and files = files] n
  show "\<exists>e. raise_for_status (answer n) = HttpError e \<and>
      register_with_coordinator fresh h settings answer n pause st files =
        (attempts settings (register_payload h settings m own) pause n, st, files, Inl (HttpxError e))"
    by (simp add: register_with_coordinator_def assms(1,2) del: register_turns.simps)
next
  assume "raise_for_status (answer (Suc j)) = Reply status (Members (Some (str_uuid k)) scripts)"
  with register_turns_succeed [of 1 j answer status k scripts n] assms(3,4)
  show "register_with_coordinator fresh h settings answer n pause st files =
      (attempts settings (register_payload h settings m own) pause (Suc j), st\<lparr>wk_id := Some k\<rparr>,
       files(worker_id_path settings \<mapsto> str_uuid k), Inr (coalesce scripts []))"
    by (simp add: register_with_coordinator_def assms(1,2) persist_worker_id_def del: register_turns.simps)
qed

definition sample_host :: host where
  "sample_host = \<lparr>h_meminfo = Some [''MemTotal:       16384 kB'', ''MemAvailable:    8192 kB''],
     h_platform = ''linux'', h_loadavg = Some 1, h_cpu_count = Some 4, h_statvfs = Some (2048, 4096)\<rparr>"

lemma sample_metrics:
  "collect_metrics sample_host = Inr \<lparr>mt_memory_used_mb = 8, mt_memory_left_mb = 8, mt_cpu_count = 4,
     mt_cpu_usage = 25\<rparr>"
  by (simp add: collect_metrics_def host_memory_def sample_host_def meminfo_line_def py_int_def
      strip_def lstrip_def rstrip_def is_space_def code_def round2_def Let_def)

definition sample_registration :: "nat \<Rightarrow> register_answer outcome" where
  "sample_registration i =
     (if i = 1 then HttpError ''refused'' else Reply 200 (Members (Some (str_uuid 9)) None))"

theorem registration_retries_witness:
  "\<exists>p. register_with_coordinator 9 sample_host (default_worker_settings (parse_path ''/root''))
      sample_registration 30 (1/2) new_worker_state Map.empty =
    (attempts (default_worker_settings (parse_path ''/root'')) p (1/2) (Suc 1),
     new_worker_state\<lparr>wk_id := Some 9\<rparr>,
     [worker_id_path (default_worker_settings (parse_path ''/root'')) \<mapsto> str_uuid 9], Inr [])"
proof -
  let ?s = "default_worker_settings (parse_path ''/root'')"
  have r: "resolve_local_worker_id 9 Map.empty ?s = Inr 9"
    by (simp add: resolve_local_worker_id_def default_worker_settings_def)
  have refused: "\<forall>i. 1 \<le> i \<longrightarrow> i \<le> 1 \<longrightarrow> (\<exists>e. raise_for_status (sample_registration i) = HttpError e)"
    and answered: "raise_for_status (sample_registration (Suc 1)) = Reply 200 (Members (Some (str_uuid 9)) None)"
    by (simp_all add: sample_registration_def)
  have "(1::nat) < 30" by simp
  from registration_retries [OF sample_metrics r this refused, THEN conjunct2, rule_format, OF answered,
      of "1/2" new_worker_state]
  show ?thesis unfolding coalesce.simps by blast
qed

section \<open>The id file\<close>

lemma strip_no_space:
  assumes "\<And>c. c \<in> set s \<Longrightarrow> \<not> is_space c"
  shows "strip s = s"
proof -
  have "dropWhile is_space t = t" if "set t \<subseteq> set s" for t
    using that assms by (cases t) auto
  then show ?thesis by (simp add: strip_def lstrip_def rstrip_def)
qed

lemma strip_str_uuid [simp]: "strip (str_uuid k) = str_uuid k"
proof (rule strip_no_space)
  fix c assume "c \<in> set (str_uuid k)"
  from set_str_uuid [OF this] show "\<not> is_space c"
    using hex_digit_not(11) [of c] by (auto simp: is_space_def code_def)
qed

lemma register_turns_stores:
  "register_turns settings answer payload pause a n before st files = (evs, st', files', Inr scripts) \<Longrightarrow>
    \<exists>k. wk_id st' = Some k \<and> files' = files(worker_id_path settings \<mapsto> str_uuid k) \<and>
      (\<exists>i status text more. raise_for_status (answer i) = Reply status (Members (Some text) more) \<and>
         parse_uuid text = Inr k)"
  by (induction settings answer payload pause a n before st files
      arbitrary: evs rule: register_turns.induct)
     (fastforce simp: Let_def persist_worker_id_def split: outcome.splits register_answer.splits
        option.splits sum.splits prod.splits)+

text \<open>A worker keeps its id. After a registration that succeeded, a worker that is started again with the
  same id file and no id of its own resolves exactly the id the coordinator gave, whatever new id it
  would have made up.\<close>

theorem worker_id_survives_restart:
  assumes "register_with_coordinator fresh h settings answer n pause st files =
      (evs, st', files', Inr scripts)"
    and "worker_id_path settings' = worker_id_path settings" and "\<not> truthy (ws_worker_id settings')"
  shows "\<exists>k. wk_id st' = Some k \<and> resolve_local_worker_id fresh' files' settings' = Inr k"
proof -
  from assms(1) obtain k where "wk_id st' = Some k" "files' = files(worker_id_path settings \<mapsto> str_uuid k)"
    by (auto simp: register_with_coordinator_def split: sum.splits dest: register_turns_stores)
  with assms(2,3) show ?thesis by (simp add: resolve_local_worker_id_def)
qed

theorem worker_id_survives_restart_witness:
  "resolve_local_worker_id 77 [parse_path ''/root/.ducklauncher/worker_id'' \<mapsto> str_uuid 9]
     (default_worker_settings (parse_path ''/root'')) = Inr 9"
proof -
  let ?s = "default_worker_settings (parse_path ''/root'')"
  let ?f = "[parse_path ''/root/.ducklauncher/worker_id'' \<mapsto> str_uuid 9]"
  have r: "resolve_local_worker_id 9 Map.empty ?s = Inr 9"
    by (simp add: resolve_local_worker_id_def default_worker_settings_def)
  have p: "worker_id_path ?s = parse_path ''/root/.ducklauncher/worker_id''"
    by (simp add: default_worker_settings_def path_div_def parse_path_def path_root_def path_parts_def)
  have "raise_for_status (sample_registration 2) = Reply 200 (Members (Some (str_uuid 9)) None)"
    by (simp add: sample_registration_def)
  then have run: "register_turns ?s sample_registration b (1/2) 1 2 None new_worker_state Map.empty =
      (attempts ?s b (1/2) 2, new_worker_state\<lparr>wk_id := Some 9\<rparr>, ?f, Inr [])" for b
    using register_turns_succeed [of 1 1 sample_registration 200 9 None 2]
    by (simp add: p persist_worker_id_def numeral_2_eq_2 sample_registration_def del: register_turns.simps)
  have "register_with_coordinator 9 sample_host ?s sample_registration 2 (1/2) new_worker_state Map.empty =
      (attempts ?s (register_payload sample_host ?s \<lparr>mt_memory_used_mb = 8, mt_memory_left_mb = 8,
         mt_cpu_count = 4, mt_cpu_usage = 25\<rparr> 9) (1/2) 2, new_worker_state\<lparr>wk_id := Some 9\<rparr>, ?f, Inr [])"
    unfolding register_with_coordinator_def by (simp only: sample_metrics r run sum.case)
  from worker_id_survives_restart [OF this, of ?s 77] show ?thesis
    by (simp add: default_worker_settings_def)
qed

end
