(* ===== verification/Worker_Routes.thy ===== *)
theory Worker_Routes
  imports Worker_Registration Duck_Results Executor_Pool
begin

text \<open>
  \<^verbatim>\<open>ducklauncher/worker/routes.py\<close>: the handlers of a worker, the tasks that execute queries and report
  their outcome, and what happens to them at shutdown. The application runs in one thread, so the code
  between two awaits is one step; \<open>worker_op\<close> lists the steps. A task awaits the executor (theory
  \<open>Executor_Pool\<close>) and then the coordinator's answer to its report.
\<close>

section \<open>The application\<close>

text \<open>What a task does next: it waits for the executor, for the answer to a report (in the body of the
  \<^verbatim>\<open>try\<close> or in a handler), or it is over.\<close>

datatype task_phase = InExecute | InReport complete_body bool | TaskOver

record query_task =
  tk_query_id :: uuid
  tk_query :: string
  tk_phase :: task_phase
  tk_result :: "exec_result option"

text \<open>\<open>wa_tasks\<close> are all tasks that were created, by number; \<open>wa_query_tasks\<close> is the dictionary of the
  code, from query ids to task numbers; \<open>wa_reports\<close> are the reports whose outcome is known.\<close>

record report =
  ro_task :: nat
  ro_url :: string
  ro_body :: complete_body
  ro_outcome :: "unit outcome"

record worker_app =
  wa_settings :: worker_settings
  wa_state :: worker_state
  wa_tasks :: "query_task list"
  wa_query_tasks :: "(uuid \<times> nat) list"
  wa_reports :: "report list"

definition task_done :: "worker_app \<Rightarrow> nat \<Rightarrow> bool" where
  "task_done app n \<longleftrightarrow> tk_phase (wa_tasks app ! n) = TaskOver"

definition running_task_count :: "worker_app \<Rightarrow> nat" where
  "running_task_count app = length (filter (\<lambda>(k, n). \<not> task_done app n) (wa_query_tasks app))"

section \<open>Handlers\<close>

definition metrics_route :: "host \<Rightarrow> app_error + metrics http_response" where
  "metrics_route h = (case collect_metrics h of Inl e \<Rightarrow> Inl (PyExc e) | Inr m \<Rightarrow> Inr (ok_response m))"

definition get_catalog_worker ::
  "'w duckdb \<Rightarrow> 'w executor \<Rightarrow> 'w executor \<times> (app_error + catalog_response http_response)" where
  "get_catalog_worker dl x =
     (case introspect_catalog dl x of
        (x1, Inl e) \<Rightarrow> (x1, Inl OtherExc)
      | (x1, Inr cat) \<Rightarrow> (x1, Inr (ok_response \<lparr>cr_databases = cat\<rparr>)))"

text \<open>Accepting a query creates a task and enters it under the query's id.\<close>

definition run_query ::
  "run_query_body \<Rightarrow> worker_app \<Rightarrow> worker_app \<times> (app_error + (string \<times> uuid) http_response)" where
  "run_query body app =
     (if wk_shutting_down (wa_state app)
      then (app, Inl (http_exception 503 ''Worker is shutting down''))
      else if max_concurrent_queries (wa_settings app) \<le> int (running_task_count app)
      then (app, Inl (http_exception 429 ''Worker is at max concurrent queries''))
      else (app\<lparr>wa_tasks := wa_tasks app @ [\<lparr>tk_query_id = rq_query_id body, tk_query = rq_query body,
                    tk_phase = InExecute, tk_result = None\<rparr>],
                wa_query_tasks := AList.update (rq_query_id body) (length (wa_tasks app))
                    (wa_query_tasks app)\<rparr>,
            Inr ((ok_response (''accepted'', rq_query_id body))\<lparr>rs_status := 202\<rparr>)))"

text \<open>The total of a page is an integer for every count the library gives.\<close>

definition result_page_of ::
  "uuid \<Rightarrow> int \<Rightarrow> int \<Rightarrow> result_page \<Rightarrow> app_error + duck_value query_result_page" where
  "result_page_of query_id off n page =
     (case pg_total_rows page of
        DInt total_rows \<Rightarrow> Inr \<lparr>rp_query_id = query_id, rp_offset = off, rp_limit = n,
          rp_total_rows = total_rows, rp_columns = pg_columns page, rp_rows = pg_rows page\<rparr>
      | _ \<Rightarrow> Inl OtherExc)"

definition get_result ::
  "'w duckdb \<Rightarrow> uuid \<Rightarrow> int \<Rightarrow> int \<Rightarrow> 'w executor
    \<Rightarrow> 'w executor \<times> (app_error + duck_value query_result_page http_response)" where
  "get_result dl query_id off n x =
     (if n < 1 \<or> 1000 < n then (x, Inl (http_exception 400 ''limit must be between 1 and 1000''))
      else if off < 0 then (x, Inl (http_exception 400 ''offset must be non-negative''))
      else (case read_result_page dl query_id off n x of
              (x1, Inl (FileNotFound s)) \<Rightarrow> (x1, Inl (http_exception 404 s))
            | (x1, Inl (PageValueError s)) \<Rightarrow> (x1, Inl (http_exception 404 s))
            | (x1, Inl (PageError e)) \<Rightarrow> (x1, Inl OtherExc)
            | (x1, Inr page) \<Rightarrow> (x1, map_sum id ok_response (result_page_of query_id off n page))))"

definition cancel_query_worker ::
  "'w duckdb \<Rightarrow> cancel_body option \<Rightarrow> 'w executor
    \<Rightarrow> 'w executor \<times> (app_error + (string \<times> uuid option) http_response)" where
  "cancel_query_worker dl body x =
     (case body of
        None \<Rightarrow> (x, Inl (http_exception 400 ''query_id is required''))
      | Some b \<Rightarrow>
          (case cq_query_id b of
             None \<Rightarrow> (x, Inl (http_exception 400 ''query_id is required''))
           | Some query_id \<Rightarrow>
               (case cancel dl query_id x of
                  (x1, False) \<Rightarrow> (x1, Inr (ok_response (''no_active_query'', None)))
                | (x1, True) \<Rightarrow> (x1, Inr (ok_response (''cancelling'', Some query_id))))))"

section \<open>Executing and reporting\<close>

text \<open>The row count in the body of a report. A count that is no integer fails validation, which the task
  reports as a failure with the validator's text.\<close>

definition row_count_field :: "duck_value option \<Rightarrow> string + int option" where
  "row_count_field v =
     (case v of
        None \<Rightarrow> Inr None
      | Some DNull \<Rightarrow> Inr None
      | Some (DInt n) \<Rightarrow> Inr (Some n)
      | Some _ \<Rightarrow> Inl ''validation error'')"

definition failed_body :: "string \<Rightarrow> complete_body" where
  "failed_body text = \<lparr>cb_status = ''failed'', cb_error = Some text, cb_result_row_count = None\<rparr>"

text \<open>What \<^verbatim>\<open>_execute_query\<close> does when the executor has answered: the report, and whether it is sent in
  the body of the \<^verbatim>\<open>try\<close>.\<close>

fun report_of :: "exec_result \<Rightarrow> complete_body \<times> bool" where
  "report_of (Inr v) =
     (case row_count_field v of
        Inl text \<Rightarrow> (failed_body text, False)
      | Inr n \<Rightarrow>
          (\<lparr>cb_status = ''completed'', cb_error = None, cb_result_row_count = n\<rparr>, True))"
| "report_of (Inl (QueryCancelledError s)) =
     (\<lparr>cb_status = ''cancelled'', cb_error = Some s, cb_result_row_count = None\<rparr>, False)"
| "report_of (Inl (ExecFailed e)) = (failed_body (error_text e), False)"

definition executed :: "nat \<Rightarrow> exec_result \<Rightarrow> worker_app \<Rightarrow> worker_app" where
  "executed n res app =
     (if n < length (wa_tasks app) \<and> tk_phase (wa_tasks app ! n) = InExecute
      then app\<lparr>wa_tasks := (wa_tasks app)[n := (wa_tasks app ! n)
             \<lparr>tk_phase := case_prod InReport (report_of res), tk_result := Some res\<rparr>]\<rparr>
      else app)"

definition complete_url :: "worker_settings \<Rightarrow> uuid \<Rightarrow> string" where
  "complete_url settings query_id =
     coordinator_url settings @ ''/queries/'' @ str_uuid query_id @ ''/complete''"

text \<open>The answer to a report. An \<^verbatim>\<open>httpx.HTTPError\<close> is logged; another exception, with its text, leaves
  \<^verbatim>\<open>_report_completion\<close>: in the body of the \<^verbatim>\<open>try\<close> it leads to a second report, in a handler the task is
  over. A task that is over has removed its query's entry, whoever put it there.\<close>

definition reported :: "nat \<Rightarrow> unit outcome \<Rightarrow> string \<Rightarrow> worker_app \<Rightarrow> worker_app" where
  "reported n answer text app =
     (if n < length (wa_tasks app)
      then (let t = wa_tasks app ! n
            in case tk_phase t of
                 InReport body in_try \<Rightarrow>
                   (let app1 = app\<lparr>wa_reports := wa_reports app @ [\<lparr>ro_task = n,
                          ro_url = complete_url (wa_settings app) (tk_query_id t), ro_body = body,
                          ro_outcome = answer\<rparr>]\<rparr>
                    in if answer = Raises \<and> in_try
                       then app1\<lparr>wa_tasks := (wa_tasks app)[n := t\<lparr>tk_phase := InReport (failed_body text) False\<rparr>]\<rparr>
                       else app1\<lparr>wa_tasks := (wa_tasks app)[n := t\<lparr>tk_phase := TaskOver\<rparr>],
                                 wa_query_tasks := AList.delete (tk_query_id t) (wa_query_tasks app)\<rparr>)
               | _ \<Rightarrow> app)
      else app)"

section \<open>Steps of the application\<close>

datatype worker_op =
    OpRun run_query_body
  | OpExecuted nat exec_result
  | OpReported nat "unit outcome" string
  | OpSignal

fun worker_step :: "worker_op \<Rightarrow> worker_app \<Rightarrow> worker_app" where
  "worker_step (OpRun body) app = fst (run_query body app)"
| "worker_step (OpExecuted n res) app = executed n res app"
| "worker_step (OpReported n answer text) app = reported n answer text app"
| "worker_step OpSignal app = app\<lparr>wa_state := fst (handle_shutdown (wa_state app) None)\<rparr>"

definition new_app :: "worker_settings \<Rightarrow> worker_state \<Rightarrow> worker_app" where
  "new_app settings st = \<lparr>wa_settings = settings, wa_state = st, wa_tasks = [], wa_query_tasks = [],
     wa_reports = []\<rparr>"

section \<open>Shutdown\<close>

text \<open>What the shutdown does to the tasks: it waits for all that ran at its start, for a time in seconds,
  interrupts their queries, or cancels one task.\<close>

datatype shutdown_action = WaitFor "nat list" nat | InterruptAll | CancelTask nat

text \<open>\<open>late\<close> are the tasks that are not done when the first wait ends; none means no timeout.\<close>

definition shutdown_worker_queries :: "(nat \<Rightarrow> bool) \<Rightarrow> worker_app \<Rightarrow> shutdown_action list" where
  "shutdown_worker_queries late app =
     (let running = filter (\<lambda>n. \<not> task_done app n) (map snd (wa_query_tasks app))
      in if running = [] then []
         else if \<not> shutdown_cancel_queries (wa_settings app) then [WaitFor running 120]
         else InterruptAll # WaitFor running 30 #
              (if filter late running = [] then []
               else map CancelTask (filter late running) @ [WaitFor running 5]))"

section \<open>The invariant of the application\<close>

definition reports_of :: "nat \<Rightarrow> worker_app \<Rightarrow> report list" where
  "reports_of n app = filter (\<lambda>r. ro_task r = n) (wa_reports app)"

text \<open>The reports of a task fit what it has done: none before the executor answered, then the report of
  the executor's result, and a second one only when the first raised in the body of the \<^verbatim>\<open>try\<close>.\<close>

fun reports_fit :: "task_phase \<Rightarrow> exec_result option \<Rightarrow> report list \<Rightarrow> bool" where
  "reports_fit InExecute res rs = (res = None \<and> rs = [])"
| "reports_fit (InReport body in_try) None rs = False"
| "reports_fit (InReport body in_try) (Some res) rs =
     (rs = [] \<and> report_of res = (body, in_try) \<or>
      (\<exists>r text. rs = [r] \<and> ro_outcome r = Raises \<and> report_of res = (ro_body r, True) \<and>
         body = failed_body text \<and> \<not> in_try))"
| "reports_fit TaskOver None rs = False"
| "reports_fit TaskOver (Some res) rs =
     (\<exists>r rest. rs = r # rest \<and> ro_body r = fst (report_of res) \<and>
        (rest = [] \<or> (\<exists>r' text. rest = [r'] \<and> ro_outcome r = Raises \<and> ro_body r' = failed_body text)))"

definition task_ok :: "worker_app \<Rightarrow> nat \<Rightarrow> bool" where
  "task_ok app n \<longleftrightarrow>
     reports_fit (tk_phase (wa_tasks app ! n)) (tk_result (wa_tasks app ! n)) (reports_of n app) \<and>
     (\<forall>r\<in>set (reports_of n app).
        ro_url r = complete_url (wa_settings app) (tk_query_id (wa_tasks app ! n)))"

text \<open>The dictionary: its values are tasks of the key's query, the unfinished ones among them are within
  the limit, and as long as no two tasks have the same query it has an entry for every unfinished
  task.\<close>

definition entries_ok :: "worker_app \<Rightarrow> bool" where
  "entries_ok app \<longleftrightarrow>
     distinct (map fst (wa_query_tasks app)) \<and>
     (\<forall>(k, n) \<in> set (wa_query_tasks app). n < length (wa_tasks app) \<and> tk_query_id (wa_tasks app ! n) = k) \<and>
     int (running_task_count app) \<le> max 0 (max_concurrent_queries (wa_settings app)) \<and>
     (distinct (map tk_query_id (wa_tasks app)) \<longrightarrow>
        (\<forall>n<length (wa_tasks app). \<not> task_done app n \<longrightarrow>
           map_of (wa_query_tasks app) (tk_query_id (wa_tasks app ! n)) = Some n))"

definition tasks_ok :: "worker_app \<Rightarrow> bool" where
  "tasks_ok app \<longleftrightarrow>
     (\<forall>n<length (wa_tasks app). task_ok app n) \<and> (\<forall>n\<ge>length (wa_tasks app). reports_of n app = [])"

definition app_inv :: "worker_app \<Rightarrow> bool" where
  "app_inv app \<longleftrightarrow> tasks_ok app \<and> entries_ok app"

text \<open>Dictionaries.\<close>

lemma update_subset: "p \<in> set (AList.update k v es) \<Longrightarrow> p = (k, v) \<or> p \<in> set es"
  by (induction es) (auto split: if_splits)

lemma update_count: "length (filter P (AList.update k v es)) \<le> length (filter P es) + 1"
  by (induction es) auto

lemma delete_count:
  "(\<And>p. p \<in> set es \<Longrightarrow> P' p \<Longrightarrow> P p) \<Longrightarrow> length (filter P' (AList.delete k es)) \<le> length (filter P es)"
  by (induction es) (auto simp: AList.delete_eq le_SucI)

text \<open>Changing one task without changing its query.\<close>

definition set_task :: "nat \<Rightarrow> query_task \<Rightarrow> worker_app \<Rightarrow> worker_app" where
  "set_task n t app = app\<lparr>wa_tasks := (wa_tasks app)[n := t]\<rparr>"

lemma set_task_simps [simp]:
  "wa_settings (set_task n t app) = wa_settings app" "wa_query_tasks (set_task n t app) = wa_query_tasks app"
  "wa_reports (set_task n t app) = wa_reports app" "wa_tasks (set_task n t app) = (wa_tasks app)[n := t]"
  "reports_of m (set_task n t app) = reports_of m app"
  by (simp_all add: set_task_def reports_of_def)

lemma set_task_ids:
  "n < length (wa_tasks app) \<Longrightarrow> tk_query_id t = tk_query_id (wa_tasks app ! n) \<Longrightarrow>
    map tk_query_id ((wa_tasks app)[n := t]) = map tk_query_id (wa_tasks app)"
  by (simp add: map_update list_update_same_conv)

lemma set_task_done:
  "n < length (wa_tasks app) \<Longrightarrow>
    task_done (set_task n t app) m = (if m = n then tk_phase t = TaskOver else task_done app m)"
  by (simp add: task_done_def)

lemma set_task_id:
  "n < length (wa_tasks app) \<Longrightarrow> tk_query_id t = tk_query_id (wa_tasks app ! n) \<Longrightarrow>
    tk_query_id ((wa_tasks app)[n := t] ! m) = tk_query_id (wa_tasks app ! m)"
  by (cases "m = n") simp_all

text \<open>Going on without finishing, and finishing.\<close>

lemma set_task_entries:
  assumes ok: "entries_ok app" and n: "n < length (wa_tasks app)"
    and t: "tk_query_id t = tk_query_id (wa_tasks app ! n)" "tk_phase t \<noteq> TaskOver" "\<not> task_done app n"
  shows "entries_ok (set_task n t app)"
proof -
  have "task_done (set_task n t app) m = task_done app m" for m
    using set_task_done [OF n] t by auto
  then show ?thesis
    using ok set_task_ids [OF n t(1)] set_task_id [OF n t(1)]
    by (simp add: entries_ok_def running_task_count_def)
qed

lemma finish_task_entries:
  assumes ok: "entries_ok app" and n: "n < length (wa_tasks app)"
    and t: "tk_query_id t = tk_query_id (wa_tasks app ! n)" "tk_phase t = TaskOver"
  shows "entries_ok (set_task n t app\<lparr>wa_query_tasks := AList.delete (tk_query_id t) (wa_query_tasks app)\<rparr>)"
    (is "entries_ok ?app")
proof -
  have d: "task_done ?app m = (m = n \<or> task_done app m)" for m
    using set_task_done [OF n, of t m] t by (auto simp: task_done_def)
  have "running_task_count ?app \<le> running_task_count app"
    unfolding running_task_count_def by (simp, rule delete_count) (auto simp: d)
  moreover have "map_of (wa_query_tasks ?app) (tk_query_id (wa_tasks app ! m)) = Some m"
    if "distinct (map tk_query_id (wa_tasks app))" "m < length (wa_tasks app)" "\<not> task_done ?app m" for m
  proof -
    from that d have "m \<noteq> n" "\<not> task_done app m" by auto
    with that(1,2) n t have "tk_query_id (wa_tasks app ! m) \<noteq> tk_query_id t"
      by (metis length_map nth_eq_iff_index_eq nth_map)
    with ok that \<open>\<not> task_done app m\<close> show ?thesis
      by (simp add: entries_ok_def delete_conv')
  qed
  moreover have "distinct (map fst (wa_query_tasks ?app))"
    using ok by (simp add: entries_ok_def distinct_delete)
  moreover from ok have "\<forall>(k, m) \<in> set (wa_query_tasks ?app).
      m < length (wa_tasks app) \<and> tk_query_id (wa_tasks app ! m) = k"
    by (auto simp: entries_ok_def AList.delete_eq)
  ultimately show ?thesis
    using ok set_task_ids [OF n t(1)] set_task_id [OF n t(1)]
    unfolding entries_ok_def by simp
qed

text \<open>The reports of the other tasks are not touched.\<close>

lemma set_task_tasks:
  assumes ok: "tasks_ok app" and n: "n < length (wa_tasks app)" and same: "wa_settings app' = wa_settings app"
    and tasks: "wa_tasks app' = (wa_tasks app)[n := t]"
    and others: "\<And>m. m \<noteq> n \<Longrightarrow> reports_of m app' = reports_of m app" and this_one: "task_ok app' n"
  shows "tasks_ok app'"
proof -
  have "task_ok app' m" if "m < length (wa_tasks app)" for m
    using ok that this_one others [of m] same
    by (cases "m = n") (auto simp: tasks_ok_def task_ok_def tasks)
  with ok n others show ?thesis
    by (auto simp: tasks_ok_def tasks)
qed

lemma executed_inv:
  assumes "app_inv app"
  shows "app_inv (executed n res app)"
proof (cases "n < length (wa_tasks app) \<and> tk_phase (wa_tasks app ! n) = InExecute")
  case True
  define t where "t = (wa_tasks app ! n)\<lparr>tk_phase := case_prod InReport (report_of res), tk_result := Some res\<rparr>"
  have app': "executed n res app = set_task n t app"
    using True by (simp add: executed_def set_task_def t_def)
  have "reports_of n app = []"
    using assms True by (auto simp: app_inv_def tasks_ok_def task_ok_def)
  then have "task_ok (set_task n t app) n"
    using True by (auto simp: task_ok_def t_def split: prod.splits)
  moreover have "tk_phase t \<noteq> TaskOver" "\<not> task_done app n"
    using True by (auto simp: t_def task_done_def split: prod.splits)
  moreover have "tk_query_id t = tk_query_id (wa_tasks app ! n)" by (simp add: t_def)
  ultimately show ?thesis
    using assms True set_task_tasks [of app n "set_task n t app" t] set_task_entries [of app n t]
    by (simp add: app_inv_def app')
next
  case False
  with assms show ?thesis by (auto simp: executed_def)
qed

lemma reported_inv:
  assumes inv: "app_inv app"
  shows "app_inv (reported n answer text app)"
proof (cases "n < length (wa_tasks app)")
  case n: True
  show ?thesis
  proof (cases "tk_phase (wa_tasks app ! n)")
    case (InReport body in_try)
    have ok: "task_ok app n"
      using inv n by (simp add: app_inv_def tasks_ok_def)
    then obtain res where res: "tk_result (wa_tasks app ! n) = Some res"
      using InReport by (cases "tk_result (wa_tasks app ! n)") (auto simp: task_ok_def)
    define r where "r = \<lparr>ro_task = n, ro_url = complete_url (wa_settings app) (tk_query_id (wa_tasks app ! n)),
      ro_body = body, ro_outcome = answer\<rparr>"
    define again where "again \<longleftrightarrow> answer = Raises \<and> in_try"
    define t where "t = (wa_tasks app ! n)
      \<lparr>tk_phase := if again then InReport (failed_body text) False else TaskOver\<rparr>"
    define app1 where "app1 = app\<lparr>wa_reports := wa_reports app @ [r]\<rparr>"
    have app': "reported n answer text app =
        (if again then set_task n t app1
         else set_task n t app1\<lparr>wa_query_tasks := AList.delete (tk_query_id t) (wa_query_tasks app1)\<rparr>)"
      using n InReport by (simp add: reported_def Let_def r_def t_def app1_def again_def set_task_def)
    have e1: "entries_ok app1"
      using inv by (simp add: app_inv_def entries_ok_def app1_def running_task_count_def task_done_def)
    have id: "tk_query_id t = tk_query_id (wa_tasks app1 ! n)" by (simp add: t_def app1_def)
    have n1: "n < length (wa_tasks app1)" and undone: "\<not> task_done app1 n"
      using n InReport by (simp_all add: app1_def task_done_def)
    have "entries_ok (reported n answer text app)"
      using set_task_entries [OF e1 n1 id _ undone] finish_task_entries [OF e1 n1 id]
      by (cases again) (simp_all add: app' t_def)
    moreover have "tasks_ok (reported n answer text app)"
    proof (rule set_task_tasks [of app n _ t])
      show "wa_settings (reported n answer text app) = wa_settings app"
        "wa_tasks (reported n answer text app) = (wa_tasks app)[n := t]"
        by (simp_all add: app' app1_def)
      have reports: "wa_reports (reported n answer text app) = wa_reports app @ [r]"
        by (simp add: app' app1_def)
      then show "m \<noteq> n \<Longrightarrow> reports_of m (reported n answer text app) = reports_of m app" for m
        by (simp add: reports_of_def r_def)
      have "reports_of n (reported n answer text app) = reports_of n app @ [r]"
        using reports by (simp add: reports_of_def r_def)
      moreover have "reports_fit (tk_phase t) (Some res) (reports_of n app @ [r])"
        using ok res InReport by (auto simp: task_ok_def t_def again_def r_def)
      ultimately show "task_ok (reported n answer text app) n"
        using ok n res by (auto simp: task_ok_def app' app1_def t_def r_def)
    qed (use inv n in \<open>simp_all add: app_inv_def\<close>)
    ultimately show ?thesis by (simp add: app_inv_def)
  qed (use inv n in \<open>simp_all add: reported_def Let_def\<close>)
next
  case False
  with inv show ?thesis by (simp add: reported_def)
qed

lemma run_query_inv:
  assumes inv: "app_inv app"
  shows "app_inv (fst (run_query body app))"
proof (cases "wk_shutting_down (wa_state app) \<or>
    max_concurrent_queries (wa_settings app) \<le> int (running_task_count app)")
  case True
  with inv show ?thesis by (auto simp: run_query_def)
next
  case False
  define t where "t = \<lparr>tk_query_id = rq_query_id body, tk_query = rq_query body, tk_phase = InExecute,
    tk_result = None\<rparr>"
  define app' where "app' = app\<lparr>wa_tasks := wa_tasks app @ [t],
    wa_query_tasks := AList.update (rq_query_id body) (length (wa_tasks app)) (wa_query_tasks app)\<rparr>"
  have app': "fst (run_query body app) = app'"
    using False by (simp add: run_query_def app'_def t_def)
  have old: "wa_tasks app' ! m = wa_tasks app ! m" if "m < length (wa_tasks app)" for m
    using that by (simp add: app'_def nth_append)
  have new: "wa_tasks app' ! length (wa_tasks app) = t"
    by (simp add: app'_def)
  have reports: "reports_of m app' = reports_of m app" for m
    by (simp add: app'_def reports_of_def)
  have "tasks_ok app'"
    unfolding tasks_ok_def
  proof (intro conjI allI impI)
    fix m assume "m < length (wa_tasks app')"
    then consider "m < length (wa_tasks app)" | "m = length (wa_tasks app)" by (force simp: app'_def)
    then show "task_ok app' m"
    proof cases
      case 1
      with inv old reports show ?thesis
        by (simp add: app_inv_def tasks_ok_def task_ok_def) (simp add: app'_def)
    next
      case 2
      with inv new reports show ?thesis
        by (simp add: app_inv_def tasks_ok_def task_ok_def t_def)
    qed
  next
    fix m assume "length (wa_tasks app') \<le> m"
    with inv reports show "reports_of m app' = []"
      by (simp add: app_inv_def tasks_ok_def app'_def)
  qed
  moreover have "entries_ok app'"
  proof -
    have ok: "entries_ok app" using inv by (simp add: app_inv_def)
    have fin: "task_done app' m = task_done app m" if "m < length (wa_tasks app)" for m
      using old [OF that] by (simp add: task_done_def)
    have vals: "m < length (wa_tasks app) \<and> tk_query_id (wa_tasks app ! m) = k"
      if "(k, m) \<in> set (wa_query_tasks app)" for k m
      using ok that by (auto simp: entries_ok_def)
    have q: "wa_query_tasks app' =
        AList.update (rq_query_id body) (length (wa_tasks app)) (wa_query_tasks app)"
      by (simp add: app'_def)
    have "running_task_count app' \<le>
        length (filter (\<lambda>(k, m). \<not> task_done app' m) (wa_query_tasks app)) + 1"
      unfolding running_task_count_def q by (rule update_count)
    also have "filter (\<lambda>(k, m). \<not> task_done app' m) (wa_query_tasks app) =
        filter (\<lambda>(k, m). \<not> task_done app m) (wa_query_tasks app)"
      using vals fin by (intro filter_cong refl) auto
    finally have "int (running_task_count app') \<le> max 0 (max_concurrent_queries (wa_settings app'))"
      using False by (simp add: running_task_count_def app'_def)
    moreover have "\<forall>(k, m) \<in> set (wa_query_tasks app').
        m < length (wa_tasks app') \<and> tk_query_id (wa_tasks app' ! m) = k"
      using vals old new
      by (auto simp: app'_def t_def dest!: update_subset) (metis less_SucI)+
    moreover have "map_of (wa_query_tasks app') (tk_query_id (wa_tasks app' ! m)) = Some m"
      if "distinct (map tk_query_id (wa_tasks app'))" "m < length (wa_tasks app')" "\<not> task_done app' m" for m
    proof (cases "m = length (wa_tasks app)")
      case True
      then show ?thesis using new by (simp add: app'_def t_def update_conv')
    next
      case m: False
      with that(2) have len: "m < length (wa_tasks app)" by (simp add: app'_def)
      with that(1) have "tk_query_id (wa_tasks app ! m) \<noteq> rq_query_id body"
        using nth_mem [OF len] by (auto simp: app'_def t_def dest: sym intro: rev_image_eqI)
      with that len fin [OF len] ok show ?thesis
        by (simp add: old [OF len] entries_ok_def) (simp add: app'_def update_conv')
    qed
    ultimately show ?thesis
      using ok by (simp add: entries_ok_def) (simp add: app'_def distinct_update)
  qed
  ultimately show ?thesis by (simp add: app_inv_def app')
qed

lemma signal_inv: "app_inv app \<Longrightarrow> app_inv (app\<lparr>wa_state := st\<rparr>)"
  by (simp add: app_inv_def tasks_ok_def entries_ok_def task_ok_def reports_of_def running_task_count_def
      task_done_def)

lemma worker_step_inv: "app_inv app \<Longrightarrow> app_inv (worker_step op app)"
  by (cases op) (simp_all add: run_query_inv executed_inv reported_inv signal_inv)

interpretation serving: machine worker_step "\<lambda>_. True" app_inv
  by unfold_locales (rule worker_step_inv)

lemma new_app_inv: "app_inv (new_app settings st)"
  by (simp add: app_inv_def tasks_ok_def new_app_def reports_of_def entries_ok_def running_task_count_def)

lemma worker_run_inv: "app_inv (run_steps worker_step ops (new_app settings st))"
  by (rule serving.run_inv [OF new_app_inv]) simp

section \<open>Reports as bodies\<close>

definition well_typed :: "complete_body \<Rightarrow> bool" where
  "well_typed b \<longleftrightarrow> valid_complete_body b \<and> (cb_error b = None) = (cb_status b = ''completed'') \<and>
     (cb_status b = ''completed'' \<or> cb_result_row_count b = None)"

lemma failed_typed: "well_typed (failed_body s)"
  by (simp add: well_typed_def valid_complete_body_def failed_body_def)

lemma report_typed: "well_typed (fst (report_of res))"
  by (induction res rule: report_of.induct)
     (auto simp: well_typed_def valid_complete_body_def failed_body_def split: sum.split)

lemma reports_fit_bodies:
  "reports_fit ph res rs \<Longrightarrow> r \<in> set rs \<Longrightarrow>
    \<exists>res' text. ro_body r = fst (report_of res') \<or> ro_body r = failed_body text"
  by (induction ph res rs rule: reports_fit.induct) (auto, metis fst_conv)

section \<open>Properties\<close>

text \<open>C19. No more queries than allowed. As long as no query is dispatched to a worker twice, the worker never
  has more unfinished tasks than \<^verbatim>\<open>max_concurrent_queries\<close>.\<close>

theorem tasks_bounded:
  assumes "app = run_steps worker_step ops (new_app settings st)"
    and "distinct (map tk_query_id (wa_tasks app))"
  shows "int (card {n. n < length (wa_tasks app) \<and> \<not> task_done app n}) \<le>
    max 0 (max_concurrent_queries (wa_settings app))"
proof -
  have ok: "entries_ok app"
    using worker_run_inv [of ops settings st] assms(1) by (simp add: app_inv_def)
  let ?P = "\<lambda>(k, n). \<not> task_done app n"
  have "{n. n < length (wa_tasks app) \<and> \<not> task_done app n} \<subseteq> snd ` set (filter ?P (wa_query_tasks app))"
  proof
    fix n assume "n \<in> {n. n < length (wa_tasks app) \<and> \<not> task_done app n}"
    then have "\<not> task_done app n" "(tk_query_id (wa_tasks app ! n), n) \<in> set (wa_query_tasks app)"
      using ok assms(2) by (auto simp: entries_ok_def dest: map_of_SomeD)
    then show "n \<in> snd ` set (filter ?P (wa_query_tasks app))" by force
  qed
  then have "card {n. n < length (wa_tasks app) \<and> \<not> task_done app n} \<le>
      card (snd ` set (filter ?P (wa_query_tasks app)))"
    by (intro card_mono) auto
  also have "\<dots> \<le> card (set (filter ?P (wa_query_tasks app)))" by (rule card_image_le) simp
  also have "\<dots> \<le> running_task_count app" unfolding running_task_count_def by (rule card_length)
  finally show ?thesis using ok by (simp add: entries_ok_def)
qed

lemma over_reported:
  assumes "app = run_steps worker_step ops (new_app settings st)"
    and "n < length (wa_tasks app)" and "task_done app n"
  shows "\<exists>res r rest. tk_result (wa_tasks app ! n) = Some res \<and> reports_of n app = r # rest \<and>
    ro_body r = fst (report_of res) \<and>
    ro_url r = complete_url (wa_settings app) (tk_query_id (wa_tasks app ! n)) \<and>
    (rest = [] \<or> (\<exists>r' text. rest = [r'] \<and> ro_outcome r = Raises \<and> ro_body r' = failed_body text))"
proof -
  have ok: "task_ok app n"
    using worker_run_inv [of ops settings st] assms(1,2) by (simp add: app_inv_def tasks_ok_def)
  with assms(3) show ?thesis
    by (cases "tk_result (wa_tasks app ! n)") (auto simp: task_ok_def task_done_def)
qed


text \<open>C40. What a worker reports is what the coordinator accepts. Every report a worker ever sends has one of the
  three statuses of the coordinator's model, carries an error text exactly if the query did not
  complete, and a row count only if it did.\<close>

theorem reports_well_typed:
  assumes "r \<in> set (wa_reports (run_steps worker_step ops (new_app settings st)))"
  shows "valid_complete_body (ro_body r) \<and>
    (cb_error (ro_body r) = None) = (cb_status (ro_body r) = ''completed'') \<and>
    (cb_status (ro_body r) = ''completed'' \<or> cb_result_row_count (ro_body r) = None)"
proof -
  let ?app = "run_steps worker_step ops (new_app settings st)"
  have r: "r \<in> set (reports_of (ro_task r) ?app)"
    using assms by (simp add: reports_of_def)
  have "tasks_ok ?app"
    using worker_run_inv [of ops settings st] by (simp add: app_inv_def)
  with r have "ro_task r < length (wa_tasks ?app)"
    by (metis tasks_ok_def empty_iff empty_set not_le)
  with \<open>tasks_ok ?app\<close> have "task_ok ?app (ro_task r)"
    by (simp add: tasks_ok_def)
  with r obtain res s where "ro_body r = fst (report_of res) \<or> ro_body r = failed_body s"
    using reports_fit_bodies by (metis task_ok_def)
  with report_typed [of res] failed_typed [of s] have "well_typed (ro_body r)" by auto
  then show ?thesis by (simp add: well_typed_def)
qed

definition run_body :: "uuid \<Rightarrow> run_query_body" where
  "run_body k = \<lparr>rq_query_id = k, rq_query = ''SELECT 1'', rq_cpus = None, rq_memory = None,
     rq_disk_space = None\<rparr>"

definition two_slots :: worker_app where
  "two_slots = new_app ((default_worker_settings (parse_path ''/root''))\<lparr>max_concurrent_queries := 2\<rparr>)
     new_worker_state"

lemmas sample_run_defs =
  two_slots_def new_app_def run_query_def run_body_def running_task_count_def task_done_def
  new_worker_state_def executed_def reported_def reports_of_def

text \<open>A worker with two slots is offered three queries and finishes the first.\<close>

theorem tasks_bounded_witness:
  "int (card {n. n < length (wa_tasks (run_steps worker_step
       [OpRun (run_body 1), OpRun (run_body 2), OpRun (run_body 3)] two_slots)) \<and>
     \<not> task_done (run_steps worker_step [OpRun (run_body 1), OpRun (run_body 2), OpRun (run_body 3)] two_slots) n})
   \<le> 2"
proof -
  let ?ops = "[OpRun (run_body 1), OpRun (run_body 2), OpRun (run_body 3)]"
  have d: "distinct (map tk_query_id (wa_tasks (run_steps worker_step ?ops two_slots)))"
    and m: "max_concurrent_queries (wa_settings (run_steps worker_step ?ops two_slots)) = 2"
    by (simp_all add: sample_run_defs)
  have "int (card {n. n < length (wa_tasks (run_steps worker_step ?ops two_slots)) \<and>
       \<not> task_done (run_steps worker_step ?ops two_slots) n}) \<le> max 0 2"
    using tasks_bounded [OF refl d [unfolded two_slots_def]] unfolding m [unfolded two_slots_def] two_slots_def .
  then show ?thesis by (simp only: max_def) simp
qed


theorem reports_well_typed_witness:
  "cb_status (ro_body (hd (wa_reports (run_steps worker_step [OpRun (run_body 1),
     OpExecuted 0 (Inl (ExecFailed (DuckError ''Parser Error''))), OpReported 0 (Reply 200 ()) []] two_slots)))) =
   ''failed'' \<and>
   valid_complete_body (ro_body (hd (wa_reports (run_steps worker_step [OpRun (run_body 1),
     OpExecuted 0 (Inl (ExecFailed (DuckError ''Parser Error''))), OpReported 0 (Reply 200 ()) []] two_slots))))"
proof -
  let ?rs = "wa_reports (run_steps worker_step [OpRun (run_body 1),
     OpExecuted 0 (Inl (ExecFailed (DuckError ''Parser Error''))), OpReported 0 (Reply 200 ()) []] two_slots)"
  have "cb_status (ro_body (hd ?rs)) = ''failed''" and "hd ?rs \<in> set ?rs"
    by (simp_all add: sample_run_defs failed_body_def)
  from this(1) reports_well_typed [OF this(2) [unfolded two_slots_def]] show ?thesis
    unfolding two_slots_def by blast
qed

text \<open>A second dispatch of the same query defeats the limit. The dictionary has one entry per query id,
  so a worker with room for two queries that gets the same query three times accepts it three times and
  then has three unfinished tasks.\<close>

theorem duplicate_dispatch_exceeds_limit:
  "let app = run_steps worker_step [OpRun (run_body 1), OpRun (run_body 1), OpRun (run_body 1)] two_slots
   in max_concurrent_queries (wa_settings app) = 2 \<and> length (wa_tasks app) = 3 \<and>
      (\<forall>n<3. \<not> task_done app n) \<and> running_task_count app = 1"
  by (auto simp: sample_run_defs less_Suc_eq numeral_3_eq_3)

end
