(* ===== verification/Worker_App.thy ===== *)
theory Worker_App
  imports Worker_Routes
begin

text \<open>
  \<^verbatim>\<open>ducklauncher/apps/worker.py\<close>: the start of a worker's application and its end, in the order of the
  lifespan function, with what is undone when the start fails. Creating the HTTP client, the
  framework's application and the handlers of signals is the libraries'.
\<close>

section \<open>Start\<close>

datatype start_error = StartPy py_error | StartDuck duck_error | StartNet worker_error | StartBlocked

text \<open>A worker that serves: its state, executor and tasks, and its id file.\<close>

record 'w worker_process =
  wp_app :: worker_app
  wp_executor :: "'w executor"
  wp_files :: worker_files

text \<open>The outcome of the start: the requests sent, the files, and a worker, or the error with the executor
  it leaves if it had one.\<close>

type_synonym 'w started =
  "net_event list \<times> string list \<times> worker_files \<times> (start_error \<times> 'w executor option + 'w worker_process)"

text \<open>The handler of the \<^verbatim>\<open>try\<close>: the executor is closed and the exception raised again, unless closing the
  administration connection raises, whose exception then takes its place.\<close>

definition give_up :: "'w duckdb \<Rightarrow> start_error \<Rightarrow> 'w executor \<Rightarrow> start_error \<times> 'w executor option" where
  "give_up dl e x =
     (case close_executor dl x of
        (x1, None) \<Rightarrow> (e, Some x1)
      | (x1, Some e') \<Rightarrow> (StartDuck e', Some x1))"

text \<open>The body of the \<^verbatim>\<open>try\<close>. Each of the two calls of \<^verbatim>\<open>resolve_local_worker_id\<close>, here and in the lifespan,
  makes an id of its own when there is none.\<close>

definition start_body ::
  "'w duckdb \<Rightarrow> uuid \<Rightarrow> host \<Rightarrow> worker_settings \<Rightarrow> (nat \<Rightarrow> register_answer outcome) \<Rightarrow> unit outcome \<Rightarrow>
   worker_state \<Rightarrow> worker_files \<Rightarrow> 'w executor \<Rightarrow> 'w started" where
  "start_body dl fresh h settings answer ready st files x =
     (case warm_pool dl x of
        (x1, Throws e) \<Rightarrow> ([], [], files, Inl (give_up dl (StartDuck e) x1))
      | (x1, Blocks) \<Rightarrow> ([], [], files, Inl (StartBlocked, Some x1))
      | (x1, Returns _) \<Rightarrow>
          (case register_with_coordinator fresh h settings answer 30 (1 / 2) st files of
             (evs, st1, files1, Inl e) \<Rightarrow> (evs, [], files1, Inl (give_up dl (StartNet e) x1))
           | (evs, st1, files1, Inr init_scripts) \<Rightarrow>
               (case (if init_scripts = [] then (x1, Inr ()) else run_init_scripts dl init_scripts x1) of
                  (x2, Inl e) \<Rightarrow> (evs, [], files1, Inl (give_up dl (StartDuck e) x2))
                | (x2, Inr _) \<Rightarrow>
                    (case notify_ready settings st1 ready of
                       (urls, Inl e) \<Rightarrow> (evs, urls, files1, Inl (give_up dl (StartNet e) x2))
                     | (urls, Inr _) \<Rightarrow>
                         (evs, urls, files1, Inr \<lparr>wp_app = new_app settings st1, wp_executor = x2,
                            wp_files = files1\<rparr>)))))"

definition start_worker ::
  "'w duckdb \<Rightarrow> uuid \<Rightarrow> uuid \<Rightarrow> host \<Rightarrow> worker_settings \<Rightarrow> (nat \<Rightarrow> register_answer outcome) \<Rightarrow>
   unit outcome \<Rightarrow> worker_files \<Rightarrow> 'w \<Rightarrow> 'w started" where
  "start_worker dl fresh fresh' h settings answer ready files w =
     (case resolve_local_worker_id fresh files settings of
        Inl e \<Rightarrow> ([], [], files, Inl (StartPy e, None))
      | Inr worker_id \<Rightarrow>
          (case resolve_worker_storage settings worker_id of
             (database_path, directory, _) \<Rightarrow>
               (case init_executor dl database_path (worker_connection_pool_size settings) directory w of
                  Inl e \<Rightarrow> ([], [], files, Inl (StartDuck e, None))
                | Inr x \<Rightarrow>
                    start_body dl fresh' h settings answer ready
                      (new_worker_state\<lparr>wk_id := Some worker_id\<rparr>) files x)))"

section \<open>End\<close>

datatype stop_event = HeartbeatCancelled | NoticeSent string | QueriesStopped "shutdown_action list" | Closed

text \<open>After the application has served: the flags are set unless a signal did, the heartbeat is cancelled,
  the coordinator told, the queries stopped and the executor closed. An exception of the notice ends the
  sequence.\<close>

definition stop_worker ::
  "'w duckdb \<Rightarrow> unit outcome option \<Rightarrow> (nat \<Rightarrow> bool) \<Rightarrow> 'w worker_process
    \<Rightarrow> stop_event list \<times> 'w worker_process" where
  "stop_worker dl answer late p =
     (let app = wp_app p;
          st = wa_state app;
          st1 = (if wk_shutting_down st then st
                 else st\<lparr>wk_shutting_down := True, wk_shutdown_event := True\<rparr>);
          app1 = app\<lparr>wa_state := st1\<rparr>
      in case notify_shutdown (wa_settings app) st1 answer of
           (urls, Inl e) \<Rightarrow> (HeartbeatCancelled # map NoticeSent urls, p\<lparr>wp_app := app1\<rparr>)
         | (urls, Inr _) \<Rightarrow>
             (HeartbeatCancelled # map NoticeSent urls @
                [QueriesStopped (shutdown_worker_queries late app1), Closed],
              p\<lparr>wp_app := app1, wp_executor := fst (close_executor dl (wp_executor p))\<rparr>))"

section \<open>Properties\<close>

lemma connect_frame:
  "connect dl x = (x1, r) \<Longrightarrow> x_result_dir x1 = x_result_dir x \<and> x_database_path x1 = x_database_path x"
  by (auto simp: connect_def split: prod.splits option.splits)

lemma put_frame:
  "put c x = Some x1 \<Longrightarrow> x_result_dir x1 = x_result_dir x \<and> x_database_path x1 = x_database_path x"
  by (auto simp: put_def split: if_splits)

lemma warm_turns_frame:
  "warm_turns dl n x = (x1, r) \<Longrightarrow> x_result_dir x1 = x_result_dir x \<and> x_database_path x1 = x_database_path x"
proof (induction n arbitrary: x)
  case 0
  then show ?case by simp
next
  case (Suc n)
  obtain y c where c: "connect dl x = (y, c)" by fastforce
  note frame = connect_frame [OF c]
  show ?case
  proof (cases c)
    case (Inl e)
    with Suc.prems c frame show ?thesis by simp
  next
    case (Inr k)
    show ?thesis
    proof (cases "put k y")
      case None
      with Suc.prems c Inr frame show ?thesis by simp
    next
      case (Some z)
      with Suc.prems c Inr have "warm_turns dl n z = (x1, r)" by simp
      from Suc.IH [OF this] put_frame [OF Some] frame show ?thesis by simp
    qed
  qed
qed

lemma run_init_scripts_frame:
  "run_init_scripts dl scripts x = (x1, r) \<Longrightarrow>
    x_result_dir x1 = x_result_dir x \<and> x_database_path x1 = x_database_path x"
  by (induction dl scripts x arbitrary: x1 rule: run_init_scripts.induct)
     (fastforce split: prod.splits sum.splits)+

lemma start_body_Inr:
  assumes "start_body dl fresh h settings answer ready st files x = (evs, urls, files', Inr p)"
  shows "\<exists>scripts. register_with_coordinator fresh h settings answer 30 (1 / 2) st files =
      (evs, wa_state (wp_app p), files', Inr scripts) \<and> wp_files p = files' \<and>
    x_result_dir (wp_executor p) = x_result_dir x \<and> x_database_path (wp_executor p) = x_database_path x"
  using assms
  by (auto simp: start_body_def warm_pool_def new_app_def dest!: warm_turns_frame run_init_scripts_frame
      split: prod.splits call.splits sum.splits if_splits)

lemma init_executor_Inr:
  "init_executor dl path n directory w = Inr x \<Longrightarrow> x_result_dir x = directory \<and> x_database_path x = path"
  by (auto simp: init_executor_def split: prod.splits option.splits)

text \<open>A first start uses two ids. When a worker has no id of its own and no id file, its data are stored
  under one new id and it registers another: if the coordinator answers with the id it was sent, the worker
  serves under that id, its next start resolves that id, and its database and results are in the
  directories of the other.\<close>

theorem first_start_splits_ids:
  assumes start: "start_worker dl fresh fresh' h settings answer ready files w = (evs, urls, files', Inr p)"
    and "\<not> truthy (ws_worker_id settings)" and "files (worker_id_path settings) = None"
    and echo: "\<And>i status body. raise_for_status (answer i) = Reply status body \<Longrightarrow>
      \<exists>more. body = Members (Some (str_uuid fresh')) more"
  shows "wk_id (wa_state (wp_app p)) = Some fresh' \<and>
    resolve_local_worker_id other files' settings = Inr fresh' \<and>
    (x_database_path (wp_executor p), x_result_dir (wp_executor p)) =
      (fst (resolve_worker_storage settings fresh), fst (snd (resolve_worker_storage settings fresh)))"
proof -
  have own: "resolve_local_worker_id fresh files settings = Inr fresh"
    using assms(2,3) by (simp add: resolve_local_worker_id_def)
  obtain path directory dirs where storage: "resolve_worker_storage settings fresh = (path, directory, dirs)"
    by (metis surj_pair)
  with start own obtain x where
    x: "init_executor dl path (worker_connection_pool_size settings) directory w = Inr x" and
    body: "start_body dl fresh' h settings answer ready (new_worker_state\<lparr>wk_id := Some fresh\<rparr>) files x =
      (evs, urls, files', Inr p)"
    by (auto simp: start_worker_def split: sum.splits)
  from start_body_Inr [OF body] obtain scripts where
    reg: "register_with_coordinator fresh' h settings answer 30 (1 / 2) (new_worker_state\<lparr>wk_id := Some fresh\<rparr>)
      files = (evs, wa_state (wp_app p), files', Inr scripts)" and
    frame: "x_result_dir (wp_executor p) = x_result_dir x" "x_database_path (wp_executor p) = x_database_path x"
    by blast
  from reg obtain m own' where "register_turns settings answer (register_payload h settings m own') (1 / 2) 1 30
      None (new_worker_state\<lparr>wk_id := Some fresh\<rparr>) files = (evs, wa_state (wp_app p), files', Inr scripts)"
    by (auto simp: register_with_coordinator_def split: sum.splits)
  from register_turns_stores [OF this] obtain k i status t more where
    k: "wk_id (wa_state (wp_app p)) = Some k" "files' = files(worker_id_path settings \<mapsto> str_uuid k)"
    "raise_for_status (answer i) = Reply status (Members (Some t) more)" "parse_uuid t = Inr k"
    by blast
  from echo [OF k(3)] k(4) have "k = fresh'" by simp
  with k(1,2) assms(2) frame init_executor_Inr [OF x] storage show ?thesis
    by (simp add: resolve_local_worker_id_def)
qed

lemma give_up_closed: "give_up dl e x = (e', Some x1) \<Longrightarrow> x_available x1 = [] \<and> x_active x1 = []"
  by (auto simp: give_up_def close_executor_def Let_def split: prod.splits option.splits)

text \<open>A failed start leaves no connection of the pool open. If the start of a worker raises after the executor
  was created, from a registration that was refused thirty times, a failing init script or a notice that
  was not accepted, then the executor has been closed: its queue and its active queries are empty.\<close>

theorem failed_start_closes:
  assumes "start_worker dl fresh fresh' h settings answer ready files w = (evs, urls, files', Inl (e, Some x))"
    and "e \<noteq> StartBlocked"
  shows "x_available x = [] \<and> x_active x = []"
proof -
  from assms(1) obtain st y where
    "start_body dl fresh' h settings answer ready st files y = (evs, urls, files', Inl (e, Some x))"
    by (auto simp: start_worker_def split: sum.splits prod.splits)
  then show ?thesis
    using assms(2)
    by (auto simp: start_body_def dest: give_up_closed split: prod.splits call.splits sum.splits if_splits)
qed

text \<open>The end of a worker. While it stops, the coordinator is told before the queries are stopped, every
  query that still arrives is refused with 503, and, if the notice raised nothing unknown, no connection
  is left in the pool.\<close>

theorem stop_refuses_and_closes:
  assumes "stop_worker dl answer late p = (evs, p')"
  shows "snd (run_query body (wp_app p')) = Inl (http_exception 503 ''Worker is shutting down'') \<and>
    (\<forall>k. wk_id (wa_state (wp_app p)) = Some k \<longrightarrow>
       evs ! 1 = NoticeSent (worker_url (wa_settings (wp_app p)) k ''shutdown'')) \<and>
    (answer \<noteq> Some Raises \<longrightarrow> last evs = Closed \<and> x_available (wp_executor p') = [] \<and>
       x_active (wp_executor p') = [])"
  using assms
  by (auto simp: stop_worker_def notify_shutdown_def run_query_def close_executor_def Let_def
      split: option.splits if_splits prod.splits)

section \<open>A worker to start\<close>

definition one_slot :: worker_settings where
  "one_slot = (default_worker_settings (parse_path ''/root''))\<lparr>max_concurrent_queries := 1\<rparr>"

lemma one_slot_simps:
  "\<not> truthy (ws_worker_id one_slot)" "worker_connection_pool_size one_slot = 1"
  "wa_settings (new_app one_slot st) = one_slot"
  by (simp_all add: one_slot_def default_worker_settings_def worker_connection_pool_size_def new_app_def)

lemma sample_register:
  "register_with_coordinator 9 sample_host one_slot sample_registration 30 (1 / 2) st Map.empty =
    (attempts one_slot (register_payload sample_host one_slot \<lparr>mt_memory_used_mb = 8,
       mt_memory_left_mb = 8, mt_cpu_count = 4, mt_cpu_usage = 25\<rparr> 9) (1 / 2) (Suc 1),
     st\<lparr>wk_id := Some 9\<rparr>, [worker_id_path one_slot \<mapsto> str_uuid 9], Inr [])"
proof -
  have r: "resolve_local_worker_id 9 Map.empty one_slot = Inr 9"
    by (simp add: resolve_local_worker_id_def one_slot_simps)
  have refused: "\<And>i. 1 \<le> i \<Longrightarrow> i < 1 + 1 \<Longrightarrow> \<exists>e. raise_for_status (sample_registration i) = HttpError e"
    and answered: "raise_for_status (sample_registration (1 + 1)) = Reply 200 (Members (Some (str_uuid 9)) None)"
    by (simp_all add: sample_registration_def)
  have "(1::nat) < 30" by simp
  from register_turns_succeed [where a = 1 and j = 1 and n = 30 and answer = sample_registration, OF refused answered this]
  show ?thesis
    unfolding register_with_coordinator_def
    by (simp only: sample_metrics r sum.case persist_worker_id_def coalesce.simps)
qed

lemma sample_warm:
  "\<exists>x1. warm_pool sample_duckdb \<lparr>x_database_path = path, x_pool_size = 1, x_result_dir = directory,
      x_admin = 0, x_available = [], x_active = [], x_next = 1, x_world = w\<rparr> = (x1, Returns ())"
  by (simp add: warm_pool_def sample_duckdb_def connect_def put_def)

lemma sample_start:
  "\<exists>evs urls files' p. start_worker sample_duckdb 5 9 sample_host one_slot sample_registration
      (Reply 200 ()) Map.empty ({}, {}) = (evs, urls, files', Inr p)"
proof -
  have r: "resolve_local_worker_id 5 Map.empty one_slot = Inr 5"
    by (simp add: resolve_local_worker_id_def one_slot_simps)
  obtain path directory dirs where storage: "resolve_worker_storage one_slot 5 = (path, directory, dirs)"
    by (metis surj_pair)
  obtain x1 where w: "warm_pool sample_duckdb \<lparr>x_database_path = path, x_pool_size = 1,
      x_result_dir = directory, x_admin = 0, x_available = [], x_active = [], x_next = 1,
      x_world = ({}, {})\<rparr> = (x1, Returns ())"
    using sample_warm by blast
  have i: "init_executor sample_duckdb path 1 directory ({}, {}) = Inr \<lparr>x_database_path = path,
      x_pool_size = 1, x_result_dir = directory, x_admin = 0, x_available = [], x_active = [], x_next = 1,
      x_world = ({}, {})\<rparr>"
    by (simp add: init_executor_def sample_duckdb_def)
  show ?thesis
    by (simp add: start_worker_def r storage one_slot_simps i start_body_def w [unfolded One_nat_def] sample_register notify_ready_def)
qed

theorem first_start_splits_ids_witness:
  "\<exists>evs urls files' p. start_worker sample_duckdb 5 9 sample_host one_slot sample_registration
      (Reply 200 ()) Map.empty ({}, {}) = (evs, urls, files', Inr p) \<and>
    wk_id (wa_state (wp_app p)) = Some 9 \<and>
    x_database_path (wp_executor p) = fst (resolve_worker_storage one_slot 5)"
proof -
  obtain evs urls files' p where s: "start_worker sample_duckdb 5 9 sample_host one_slot sample_registration
      (Reply 200 ()) Map.empty ({}, {}) = (evs, urls, files', Inr p)"
    using sample_start by blast
  have "\<exists>more. body = Members (Some (str_uuid 9)) more"
    if "raise_for_status (sample_registration i) = Reply status body" for i status body
    using that by (auto simp: sample_registration_def split: if_splits)
  from first_start_splits_ids [OF s one_slot_simps(1) _ this] s show ?thesis by simp
qed

theorem failed_start_closes_witness:
  "\<exists>evs urls files' e x. start_worker sample_duckdb 5 9 sample_host one_slot sample_registration
      (Reply 404 ()) Map.empty ({}, {}) = (evs, urls, files', Inl (e, Some x)) \<and> x_available x = []"
proof -
  have r: "resolve_local_worker_id 5 Map.empty one_slot = Inr 5"
    by (simp add: resolve_local_worker_id_def one_slot_simps)
  obtain path directory dirs where storage: "resolve_worker_storage one_slot 5 = (path, directory, dirs)"
    by (metis surj_pair)
  obtain x1 where w: "warm_pool sample_duckdb \<lparr>x_database_path = path, x_pool_size = 1,
      x_result_dir = directory, x_admin = 0, x_available = [], x_active = [], x_next = 1,
      x_world = ({}, {})\<rparr> = (x1, Returns ())"
    using sample_warm by blast
  have i: "init_executor sample_duckdb path 1 directory ({}, {}) = Inr \<lparr>x_database_path = path,
      x_pool_size = 1, x_result_dir = directory, x_admin = 0, x_available = [], x_active = [], x_next = 1,
      x_world = ({}, {})\<rparr>"
    by (simp add: init_executor_def sample_duckdb_def)
  have "\<exists>x. give_up sample_duckdb (StartNet (HttpxError [])) x1 = (StartNet (HttpxError []), Some x)"
    by (auto simp: give_up_def close_executor_def sample_duckdb_def Let_def)
  then obtain evs urls files' x where
    s: "start_worker sample_duckdb 5 9 sample_host one_slot sample_registration (Reply 404 ()) Map.empty
      ({}, {}) = (evs, urls, files', Inl (StartNet (HttpxError []), Some x))"
    by (auto simp: start_worker_def r storage one_slot_simps i start_body_def w [unfolded One_nat_def] sample_register notify_ready_def)
  from failed_start_closes [OF s] s show ?thesis by blast
qed

theorem stop_refuses_and_closes_witness:
  "snd (run_query (run_body 1) (wp_app (snd (stop_worker sample_duckdb None (\<lambda>_. False)
     \<lparr>wp_app = new_app one_slot (new_worker_state\<lparr>wk_id := Some 9\<rparr>), wp_executor = sample_executor,
      wp_files = Map.empty\<rparr>)))) = Inl (http_exception 503 ''Worker is shutting down'')"
  using stop_refuses_and_closes [OF prod.collapse [symmetric]] by blast

end
