(* ===== verification/Fleet.thy ===== *)
theory Fleet
  imports Coordinator_Routes Worker_App
begin

text \<open>
  The coordinator and a worker together. The worker's handlers answer the coordinator's requests: a
  dispatch meets the worker's admission, the report of a finished task meets the coordinator's
  completion, and a request for a result is answered from the worker's result file. The models of the
  two sides are connected by the bodies they exchange.
\<close>

section \<open>What travels\<close>

text \<open>\<^verbatim>\<open>RunQueryRequest\<close> from the JSON object of a dispatch: the id parses as a UUID, the query is text and the
  requests are integers or null.\<close>

fun opt_int :: "json option \<Rightarrow> int option option" where
  "opt_int None = Some None"
| "opt_int (Some JNull) = Some None"
| "opt_int (Some (JInt n)) = Some (Some n)"
| "opt_int (Some (JStr s)) = None"

definition read_run_body :: "json_obj \<Rightarrow> run_query_body option" where
  "read_run_body obj =
     (case (json_get obj ''query_id'', json_get obj ''query'', opt_int (json_get obj ''cpus''),
            opt_int (json_get obj ''memory''), opt_int (json_get obj ''disk_space'')) of
        (Some (JStr k), Some (JStr q), Some c, Some m, Some s) \<Rightarrow>
          (case parse_uuid k of
             Inl e \<Rightarrow> None
           | Inr query_id \<Rightarrow> Some \<lparr>rq_query_id = query_id, rq_query = q, rq_cpus = c, rq_memory = m,
               rq_disk_space = s\<rparr>)
      | _ \<Rightarrow> None)"

text \<open>What a worker's server answers to a dispatch.\<close>

definition worker_answer :: "worker_app \<Rightarrow> json_obj \<Rightarrow> unit outcome" where
  "worker_answer app payload =
     (case read_run_body payload of
        None \<Rightarrow> Reply 422 ()
      | Some body \<Rightarrow>
          (case snd (run_query body app) of
             Inr response \<Rightarrow> Reply (rs_status response) ()
           | Inl (HttpExc e) \<Rightarrow> Reply (status_code e) ()
           | Inl _ \<Rightarrow> Reply 500 ()))"

definition body_of_claim :: "claimed_row \<Rightarrow> run_query_body" where
  "body_of_claim c = \<lparr>rq_query_id = c_query_id c, rq_query = c_query c, rq_cpus = c_cpus c,
     rq_memory = c_memory c, rq_disk_space = c_disk_space c\<rparr>"

lemma opt_int_opt_json [simp]: "opt_int (Some (opt_json x)) = Some x"
  by (cases x) (simp_all add: opt_json_def)

lemma read_dispatch_payload: "read_run_body (dispatch_payload c) = Some (body_of_claim c)"
  by (simp add: read_run_body_def dispatch_payload_def json_get_def body_of_claim_def)

lemma worker_answer_dispatch:
  "worker_answer app (dispatch_payload c) =
    (if wk_shutting_down (wa_state app) then Reply 503 ()
     else if max_concurrent_queries (wa_settings app) \<le> int (running_task_count app) then Reply 429 ()
     else Reply 202 ())"
  by (simp add: worker_answer_def read_dispatch_payload run_query_def http_exception_def)

section \<open>A dispatch meets the worker\<close>

text \<open>C14. What becomes of a dispatched query depends on the worker. If the worker has room, the dispatch
  succeeds, the query stays running on it and the worker has one more task, which executes the text of
  the query under its id. If the worker is full, exactly this query is pending again. If it is shutting
  down, the worker is unreachable and all its running queries, this one included, are pending again.\<close>

theorem dispatch_meets_worker:
  assumes "store_wf d" and "fair_world w" and "130 \<le> payload_limit d"
    and "wd_answer w n (rstrip_chars ''/'' (c_endpoint c) @ ''/query'') (dispatch_payload c) =
      worker_answer app (dispatch_payload c)"
    and "d1 = run_ops (wd_meanwhile w n) d" and "worker_of (c_worker_id c) d1 = Some v"
    and "w_status v = ''running'' \<or> w_status v = ''shutting_down''"
    and "query_of (c_query_id c) d1 = Some q" and "q_status q = ''running''"
    and "q_worker_id q = Some (c_worker_id c)"
  shows "let (d', r) = dispatch_query w n c d; app' = fst (run_query (body_of_claim c) app)
    in if wk_shutting_down (wa_state app)
       then r = Inr False \<and> app' = app \<and>
         worker_of (c_worker_id c) d' = Some (v\<lparr>w_status := ''unreachable''\<rparr>) \<and>
         (\<forall>i p. query_of i d1 = Some p \<and> q_status p = ''running'' \<and> q_worker_id p = Some (c_worker_id c) \<longrightarrow>
            query_of i d' = Some (lost_row p))
       else if max_concurrent_queries (wa_settings app) \<le> int (running_task_count app)
       then r = Inr False \<and> app' = app \<and> query_of (c_query_id c) d' = Some (requeued_row q) \<and>
         (\<forall>i. i \<noteq> c_query_id c \<longrightarrow> query_of i d' = query_of i d1)
       else r = Inr True \<and> d' = d1 \<and> wa_tasks app' = wa_tasks app @
         [\<lparr>tk_query_id = c_query_id c, tk_query = c_query c, tk_phase = InExecute, tk_result = None\<rparr>]"
proof -
  note failure = dispatch_failure [OF assms(1-3) refl assms(5-10)]
  note answer = assms(4) [unfolded worker_answer_dispatch]
  consider (stopping) "wk_shutting_down (wa_state app)"
    | (full) "\<not> wk_shutting_down (wa_state app)"
        "max_concurrent_queries (wa_settings app) \<le> int (running_task_count app)"
    | (room) "\<not> wk_shutting_down (wa_state app)"
        "\<not> max_concurrent_queries (wa_settings app) \<le> int (running_task_count app)"
    by blast
  then show ?thesis
  proof cases
    case stopping
    with answer failure [THEN conjunct1, rule_format, of "[]"] show ?thesis
      by (auto simp: case_prod_beta Let_def run_query_def)
  next
    case full
    with answer failure [THEN conjunct2, rule_format, of 429] show ?thesis
      by (auto simp: case_prod_beta Let_def run_query_def)
  next
    case room
    with answer assms(5) show ?thesis
      by (simp add: dispatch_defs run_query_def body_of_claim_def)
  qed
qed

definition stopping_app :: worker_app where
  "stopping_app = new_app one_slot (new_worker_state\<lparr>wk_shutting_down := True\<rparr>)"

definition fleet_world :: "worker_app \<Rightarrow> world" where
  "fleet_world app = (sample_world 0)\<lparr>wd_answer := (\<lambda>_ _ payload. worker_answer app payload)\<rparr>"

theorem dispatch_meets_worker_witness:
  "snd (dispatch_query (fleet_world stopping_app) 0 sample_claim busy_db) = Inr False \<and>
   query_of 100 (fst (dispatch_query (fleet_world stopping_app) 0 sample_claim busy_db)) =
     Some (lost_row (assigned_row 2 7 (sample_query 100 1 (Some 1))))"
proof -
  have k: "c_worker_id sample_claim = 7" "c_query_id sample_claim = 100"
    by (simp_all add: sample_claim_def)
  have w: "worker_of (c_worker_id sample_claim) busy_db = Some (sample_worker 7 2 0)"
    and q: "query_of (c_query_id sample_claim) busy_db =
      Some (assigned_row 2 7 (sample_query 100 1 (Some 1)))"
    and lim: "130 \<le> payload_limit busy_db"
    by (simp_all add: busy_db_def row_of_Cons k)
  have fair: "fair_world (fleet_world stopping_app)"
    using sample_world_fair by (simp add: fair_world_def fleet_world_def)
  have d1: "busy_db = run_ops (wd_meanwhile (fleet_world stopping_app) 0) busy_db"
    by (simp add: fleet_world_def sample_world_def)
  have a: "wd_answer (fleet_world stopping_app) 0 (rstrip_chars ''/'' (c_endpoint sample_claim) @ ''/query'')
      (dispatch_payload sample_claim) = worker_answer stopping_app (dispatch_payload sample_claim)"
    by (simp add: fleet_world_def)
  have st: "w_status (sample_worker 7 2 0) = ''running'' \<or> w_status (sample_worker 7 2 0) = ''shutting_down''"
      "q_status (assigned_row 2 7 (sample_query 100 1 (Some 1))) = ''running''"
      "q_worker_id (assigned_row 2 7 (sample_query 100 1 (Some 1))) = Some (c_worker_id sample_claim)"
    by (simp_all add: k)
  have stop: "wk_shutting_down (wa_state stopping_app)"
    by (simp add: stopping_app_def new_app_def)
  from dispatch_meets_worker [OF busy_db_wf fair lim a d1 w st(1) q st(2,3)] stop q st(2,3)
  show ?thesis
    unfolding k by (auto simp: case_prod_beta Let_def)
qed

section \<open>A report meets the store\<close>

text \<open>The reports of a task, as the coordinator handles them one after the other.\<close>

definition deliver_reports :: "timestamp \<Rightarrow> nat \<Rightarrow> worker_app \<Rightarrow> database \<Rightarrow> database" where
  "deliver_reports now n app d =
     foldl (\<lambda>d r. fst (complete_query_route now (tk_query_id (wa_tasks app ! n)) (ro_body r) d)) d
       (reports_of n app)"

lemma report_valid: "valid_complete_body (fst (report_of res))"
proof (cases res)
  case (Inl e)
  then show ?thesis by (cases e) (simp_all add: valid_complete_body_def failed_body_def)
next
  case (Inr v)
  then show ?thesis by (simp add: valid_complete_body_def failed_body_def split: sum.split)
qed

lemma fst_complete_query_route:
  "fst (complete_query_route now k body d) =
    fst (complete_query now k (cb_status body) (cb_error body) (cb_result_row_count body) d)"
  by (auto simp: complete_query_route_def fail_def reply_def split: prod.splits sum.splits)

text \<open>C13. The outcome of a query reaches the store. When a worker's task is over and none of its requests
  raised, and the coordinator handles its report while the query still runs, the query's row has a final
  status: completed with the row count if the executor returned one, cancelled or failed with the
  error's text otherwise.\<close>

theorem outcome_reaches_store:
  assumes "app = run_steps worker_step ops (new_app settings st)"
    and "n < length (wa_tasks app)" and "task_done app n"
    and "\<forall>r\<in>set (reports_of n app). ro_outcome r \<noteq> Raises"
    and "query_of (tk_query_id (wa_tasks app ! n)) d = Some q" and "q_status q = ''running''"
  shows "\<exists>res q'. tk_result (wa_tasks app ! n) = Some res \<and>
    query_of (tk_query_id (wa_tasks app ! n)) (deliver_reports now n app d) = Some q' \<and>
    terminal (q_status q') \<and>
    (case res of
       Inr None \<Rightarrow> q_status q' = ''completed''
     | Inr (Some (DInt m)) \<Rightarrow> q_status q' = ''completed'' \<and> q_result_row_count q' = Some m
     | Inr (Some v) \<Rightarrow> True
     | Inl (QueryCancelledError s) \<Rightarrow> q_status q' = ''cancelled'' \<and> q_error q' = Some s
     | Inl (ExecFailed e) \<Rightarrow> q_status q' = ''failed'' \<and> q_error q' = Some (error_text e))"
proof -
  let ?k = "tk_query_id (wa_tasks app ! n)"
  from over_reported [OF assms(1-3)] assms(4) obtain res r where
    res: "tk_result (wa_tasks app ! n) = Some res" and rs: "reports_of n app = [r]"
    and body: "ro_body r = fst (report_of res)"
    by force
  have "q_id q = ?k" using row_of_Some [OF assms(5)] by simp
  have "query_of ?k (deliver_reports now n app d) =
      Some (completed_row now (cb_status (ro_body r)) (cb_error (ro_body r)) (cb_result_row_count (ro_body r)) q)"
  proof -
    have "queries (deliver_reports now n app d) =
        sql_update (\<lambda>q. q_id q = ?k \<and> q_status q \<in> {''running'', ''pending''})
          (completed_row now (cb_status (ro_body r)) (cb_error (ro_body r)) (cb_result_row_count (ro_body r)))
          (queries d)"
      unfolding deliver_reports_def rs by (simp only: foldl.simps fst_complete_query_route queries_complete)
    then show ?thesis
      using assms(5,6) \<open>q_id q = ?k\<close> by (simp add: row_of_update)
  qed
  moreover have "terminal (cb_status (ro_body r))"
    using report_valid [of res] by (simp add: body valid_complete_body_def terminal_def)
  ultimately show ?thesis
    using res by (auto simp: completed_row_def body row_count_field_def failed_body_def
        split: sum.splits option.splits duck_value.splits exec_error.splits)
qed

theorem outcome_reaches_store_witness:
  "\<exists>q'. query_of 100 (deliver_reports 9 0 (run_steps worker_step [OpRun (run_body 100),
       OpExecuted 0 (Inr (Some (DInt 3))), OpReported 0 (Reply 200 ()) []] two_slots) busy_db) = Some q' \<and>
     q_status q' = ''completed'' \<and> q_result_row_count q' = Some 3"
proof -
  let ?app = "run_steps worker_step [OpRun (run_body 100), OpExecuted 0 (Inr (Some (DInt 3))),
       OpReported 0 (Reply 200 ()) []] two_slots"
  have facts: "0 < length (wa_tasks ?app)" "task_done ?app 0"
    "\<forall>r\<in>set (reports_of 0 ?app). ro_outcome r \<noteq> Raises"
    and k: "tk_query_id (wa_tasks ?app ! 0) = 100"
    and res: "tk_result (wa_tasks ?app ! 0) = Some (Inr (Some (DInt 3)))"
    by (simp_all add: sample_run_defs row_count_field_def)
  have q: "query_of (tk_query_id (wa_tasks ?app ! 0)) busy_db =
      Some (assigned_row 2 7 (sample_query 100 1 (Some 1)))"
    unfolding k by (simp add: busy_db_def row_of_Cons)
  have running: "q_status (assigned_row 2 7 (sample_query 100 1 (Some 1))) = ''running''" by simp
  from outcome_reaches_store [OF refl facts [unfolded two_slots_def] q [unfolded two_slots_def] running, of 9]
  show ?thesis
    unfolding two_slots_def [symmetric] k res by auto
qed

section \<open>A request for a result meets the file\<close>

text \<open>What the worker's server answers: the page, or a status without one.\<close>

definition result_answer ::
  "'w duckdb \<Rightarrow> 'w executor \<Rightarrow> uuid \<Rightarrow> int \<Rightarrow> int \<Rightarrow> duck_value query_result_page option outcome" where
  "result_answer dl x query_id off n =
     (case snd (get_result dl query_id off n x) of
        Inr response \<Rightarrow>
          (case rs_body response of Body page \<Rightarrow> Reply (rs_status response) (Some page) | _ \<Rightarrow> Reply 500 None)
      | Inl (HttpExc e) \<Rightarrow> Reply (status_code e) None
      | Inl _ \<Rightarrow> Reply 500 None)"

definition validate_page ::
  "duck_value query_result_page option \<Rightarrow> app_error + duck_value query_result_page" where
  "validate_page b = (case b of None \<Rightarrow> Inl OtherExc | Some page \<Rightarrow> Inr page)"

lemma get_result_stored:
  assumes "reads_parquet dl stored"
    and "stored (x_world x) (str_path (result_path x query_id)) = Some (columns, rows)"
    and "columns \<noteq> []" and "1 \<le> n" and "n \<le> 1000" and "0 \<le> off"
  shows "result_answer dl x query_id off n = Reply 200 (Some \<lparr>rp_query_id = query_id, rp_offset = off,
      rp_limit = n, rp_total_rows = int (length rows), rp_columns = columns,
      rp_rows = take (nat n) (drop (nat off) rows)\<rparr>)"
proof -
  obtain w where "read_result_page dl query_id off n x = (x\<lparr>x_world := w\<rparr>,
      Inr \<lparr>pg_total_rows = DInt (int (length rows)), pg_columns = columns,
           pg_rows = take (nat n) (drop (nat off) rows)\<rparr>)"
    using read_result_page_stored [OF assms(1-3), of n off] assms(4,6) by auto
  with assms(4-6) show ?thesis
    by (simp add: result_answer_def get_result_def result_page_of_def ok_response_def)
qed


definition page_executor :: "(string \<Rightarrow> (string list \<times> duck_value list list) option) executor" where
  "page_executor = \<lparr>x_database_path = '':memory:'', x_pool_size = 1, x_result_dir = parse_path ''/r'',
     x_admin = 0, x_available = [1], x_active = [], x_next = 2,
     x_world = (\<lambda>p. Some ([''a''], [[DInt 1], [DInt 2], [DInt 3]]))\<rparr>"

definition answered_db :: database where
  "answered_db = sample_db [sample_worker 7 2 0]
     [completed_row 9 ''completed'' None (Some 3) (assigned_row 2 7 (sample_query 100 1 None))]"


end
