(* ===== verification/Transactions.thy ===== *)
theory Transactions
  imports Scheduler
begin

text \<open>
  Claims as PostgreSQL runs them. Every claim is a transaction of its own on a connection of the
  coordinator's pool, and at the isolation level \<^verbatim>\<open>READ COMMITTED\<close> its statements interleave with those of
  the others: a statement reads the rows committed before it began and the claim's own writes, a row
  selected \<^verbatim>\<open>FOR UPDATE\<close> stays locked until the claim ends, \<^verbatim>\<open>SKIP LOCKED\<close> passes over the rows others have
  locked, and what a claim wrote, its notification included, is seen by the others once it commits. Here a claim is
  cut into its statements; every other operation of the store commits in one step, when the rows it
  changes are not locked.
\<close>

section \<open>A claim and its statements\<close>

text \<open>Where a claim stands: its transaction has begun; a pending row is selected and locked; a worker
  is chosen for it; the row is written and announced; the row to dispatch is read back; it is over.\<close>

datatype claim_state =
    Begun
  | Picked query_row
  | Chosen query_row worker_row
  | Written query_row worker_row
  | Joined query_row worker_row "claimed_row option"
  | Ended "sql_error + claimed_row option"

text \<open>The argument \<^verbatim>\<open>query_id\<close> of a claim by id, the cutoff computed before the transaction, and the instant the
  transaction began, which is \<^verbatim>\<open>now()\<close> in all its statements.\<close>

record claim =
  cm_target :: "uuid option"
  cm_cutoff :: timestamp
  cm_now :: timestamp
  cm_state :: claim_state

fun held :: "claim_state \<Rightarrow> query_row option" where
  "held (Picked r) = Some r"
| "held (Chosen r w) = Some r"
| "held (Written r w) = Some r"
| "held (Joined r w c) = Some r"
| "held st = None"

fun chosen :: "claim_state \<Rightarrow> worker_row option" where
  "chosen (Chosen r w) = Some w"
| "chosen (Written r w) = Some w"
| "chosen (Joined r w c) = Some w"
| "chosen st = None"

text \<open>The database as the claim sees it after its \<^verbatim>\<open>UPDATE\<close>, and as it is after its commit.\<close>

definition assigned_db :: "query_row \<Rightarrow> worker_row \<Rightarrow> timestamp \<Rightarrow> database \<Rightarrow> database" where
  "assigned_db r w now d =
     d\<lparr>queries := sql_update (\<lambda>q. q_id q = q_id r) (assigned_row now (w_id w)) (queries d)\<rparr>"

definition committed_db :: "query_row \<Rightarrow> worker_row \<Rightarrow> timestamp \<Rightarrow> database \<Rightarrow> database" where
  "committed_db r w now d =
     (assigned_db r w now d)\<lparr>channel := channel d @
        [json_dumps (notify_payload (q_id r) ''running'' None None)]\<rparr>"

text \<open>The first statement of both claims; \<open>taken\<close> says which rows are locked.\<close>

definition select_pending :: "uuid option \<Rightarrow> (uuid \<Rightarrow> bool) \<Rightarrow> database \<Rightarrow> query_row option" where
  "select_pending target taken d =
     (let free = filter (\<lambda>q. q_status q = ''pending'' \<and> \<not> taken (q_id q)) (queries d)
      in case target of
           None \<Rightarrow> fetchrow (order_by q_created_at free)
         | Some query_id \<Rightarrow> fetchrow (filter (\<lambda>q. q_id q = query_id) free))"

text \<open>The next statement of a claim: the committed database after it, and where the claim then stands.
  A claim that finds no row or no worker returns \<^verbatim>\<open>None\<close>, which commits nothing; a notification that
  raises rolls the transaction back.\<close>

definition claim_turn :: "(uuid \<Rightarrow> bool) \<Rightarrow> claim \<Rightarrow> database \<Rightarrow> database \<times> claim_state" where
  "claim_turn taken c d =
     (case cm_state c of
        Begun \<Rightarrow>
          (d, case select_pending (cm_target c) taken d of
                None \<Rightarrow> Ended (Inr None)
              | Some r \<Rightarrow> Picked r)
      | Picked r \<Rightarrow>
          (d, case worker_for_query (cm_cutoff c) (q_cpus r) (q_memory r) (q_disk_space r) d of
                None \<Rightarrow> Ended (Inr None)
              | Some w \<Rightarrow> Chosen r w)
      | Chosen r w \<Rightarrow>
          (d, case notify_query_status (q_id r) ''running'' None None (assigned_db r w (cm_now c) d) of
                Inl e \<Rightarrow> Ended (Inl e)
              | Inr _ \<Rightarrow> Written r w)
      | Written r w \<Rightarrow> (d, Joined r w (claimed_join (q_id r) (assigned_db r w (cm_now c) d)))
      | Joined r w row \<Rightarrow> (committed_db r w (cm_now c) d, Ended (Inr row))
      | Ended res \<Rightarrow> (d, Ended res))"

section \<open>The pool of connections\<close>

text \<open>\<^verbatim>\<open>asyncpg.create_pool(database_url, min_size=1, max_size=10)\<close>: as many claims can be under way as
  there are connections. The rows claims returned are recorded in the order of their commits.\<close>

definition POOL_MAX_SIZE :: nat where
  "POOL_MAX_SIZE = 10"

record txs =
  tx_db :: database
  tx_claims :: "nat \<Rightarrow> claim option"
  tx_log :: "claimed_row list"

definition idle_pool :: "database \<Rightarrow> txs" where
  "idle_pool d = \<lparr>tx_db = d, tx_claims = Map.empty, tx_log = []\<rparr>"

definition state_at :: "txs \<Rightarrow> nat \<Rightarrow> claim_state option" where
  "state_at s i = map_option cm_state (tx_claims s i)"

definition held_at :: "txs \<Rightarrow> nat \<Rightarrow> query_row option" where
  "held_at s i = Option.bind (state_at s i) held"

definition chosen_at :: "txs \<Rightarrow> nat \<Rightarrow> worker_row option" where
  "chosen_at s i = Option.bind (state_at s i) chosen"

definition locked :: "nat \<Rightarrow> txs \<Rightarrow> uuid \<Rightarrow> bool" where
  "locked n s k \<longleftrightarrow> (\<exists>i\<in>set [0..<n]. map_option q_id (held_at s i) = Some k)"

fun free_conn :: "claim_state option \<Rightarrow> bool" where
  "free_conn None = True"
| "free_conn (Some (Ended res)) = True"
| "free_conn (Some st) = False"

text \<open>What can happen: a claim acquires a connection and begins, the claim on a connection executes its
  next statement, another operation commits. An operation that has to wait, for a
  connection or for a lock, does nothing yet.\<close>

datatype tx_event =
    Begin nat timestamp timestamp "uuid option" int
  | Advance nat
  | Commit store_op

definition begin_claim :: "nat \<Rightarrow> nat \<Rightarrow> timestamp \<Rightarrow> timestamp \<Rightarrow> uuid option \<Rightarrow> int \<Rightarrow> txs \<Rightarrow> txs" where
  "begin_claim n i utc now target stale s =
     (if i < n \<and> free_conn (state_at s i)
      then s\<lparr>tx_claims := (tx_claims s)(i \<mapsto> \<lparr>cm_target = target,
             cm_cutoff = utc - stale * second, cm_now = now, cm_state = Begun\<rparr>)\<rparr>
      else s)"

fun committing :: "claim_state \<Rightarrow> claimed_row list" where
  "committing (Joined r w (Some row)) = [row]"
| "committing st = []"

definition advance_claim :: "nat \<Rightarrow> nat \<Rightarrow> txs \<Rightarrow> txs" where
  "advance_claim n i s =
     (case tx_claims s i of
        None \<Rightarrow> s
      | Some c \<Rightarrow>
          (let (d, st) = claim_turn (locked n s) c (tx_db s)
           in s\<lparr>tx_db := d, tx_claims := (tx_claims s)(i \<mapsto> c\<lparr>cm_state := st\<rparr>),
                tx_log := tx_log s @ committing (cm_state c)\<rparr>))"

definition keeps_locked :: "nat \<Rightarrow> txs \<Rightarrow> database \<Rightarrow> bool" where
  "keeps_locked n s d \<longleftrightarrow>
     (\<forall>i\<in>set [0..<n]. case held_at s i of
        None \<Rightarrow> True
      | Some r \<Rightarrow> query_of (q_id r) d = query_of (q_id r) (tx_db s))"

definition commit_op :: "nat \<Rightarrow> store_op \<Rightarrow> txs \<Rightarrow> txs" where
  "commit_op n op s =
     (let d = apply_op op (tx_db s) in if keeps_locked n s d then s\<lparr>tx_db := d\<rparr> else s)"

fun tx_step :: "nat \<Rightarrow> tx_event \<Rightarrow> txs \<Rightarrow> txs" where
  "tx_step n (Begin i utc now target stale) s = begin_claim n i utc now target stale s"
| "tx_step n (Advance i) s = advance_claim n i s"
| "tx_step n (Commit op) s = commit_op n op s"

abbreviation run_txs :: "nat \<Rightarrow> tx_event list \<Rightarrow> txs \<Rightarrow> txs" where
  "run_txs n \<equiv> run_steps (tx_step n)"

text \<open>The operations that commit in one step are the others.\<close>

fun is_claim :: "store_op \<Rightarrow> bool" where
  "is_claim (OpClaimNext utc now stale) = True"
| "is_claim (OpClaimById utc now k stale) = True"
| "is_claim op = False"

fun valid_event :: "tx_event \<Rightarrow> bool" where
  "valid_event (Commit op) = (valid_op op \<and> \<not> is_claim op)"
| "valid_event e = True"

section \<open>Reading the state after a step\<close>

lemma state_at_simps [simp]:
  "state_at (s\<lparr>tx_db := d\<rparr>) = state_at s" "held_at (s\<lparr>tx_db := d\<rparr>) = held_at s"
  "chosen_at (s\<lparr>tx_db := d\<rparr>) = chosen_at s"
  "state_at (s\<lparr>tx_log := l\<rparr>) = state_at s" "held_at (s\<lparr>tx_log := l\<rparr>) = held_at s"
  "chosen_at (s\<lparr>tx_log := l\<rparr>) = chosen_at s"
  by (simp_all add: fun_eq_iff state_at_def held_at_def chosen_at_def)

lemma state_at_upd [simp]:
  "state_at (s\<lparr>tx_claims := (tx_claims s)(i \<mapsto> c)\<rparr>) j = (if j = i then Some (cm_state c) else state_at s j)"
  "held_at (s\<lparr>tx_claims := (tx_claims s)(i \<mapsto> c)\<rparr>) j = (if j = i then held (cm_state c) else held_at s j)"
  "chosen_at (s\<lparr>tx_claims := (tx_claims s)(i \<mapsto> c)\<rparr>) j =
     (if j = i then chosen (cm_state c) else chosen_at s j)"
  by (simp_all add: state_at_def held_at_def chosen_at_def)

lemma state_at_idle [simp]:
  "state_at (idle_pool d) i = None" "held_at (idle_pool d) i = None" "chosen_at (idle_pool d) i = None"
  "tx_db (idle_pool d) = d" "tx_log (idle_pool d) = []"
  by (simp_all add: idle_pool_def state_at_def held_at_def chosen_at_def)

lemma begin_claim_same [simp]:
  "tx_db (begin_claim n i utc now target stale s) = tx_db s"
  "tx_log (begin_claim n i utc now target stale s) = tx_log s"
  by (simp_all add: begin_claim_def)

lemma state_at_advance:
  "state_at (advance_claim n i s) j =
    (if j = i then map_option (\<lambda>c. snd (claim_turn (locked n s) c (tx_db s))) (tx_claims s i) else state_at s j)"
  by (cases "tx_claims s i") (simp_all add: advance_claim_def state_at_def Let_def case_prod_beta)

lemma state_at_commit [simp]: "state_at (commit_op n op s) = state_at s"
  by (simp add: commit_op_def Let_def)

lemma free_conn_held: "free_conn (state_at s i) \<Longrightarrow> held_at s i = None \<and> chosen_at s i = None"
  by (cases "state_at s i"; cases "the (state_at s i)") (auto simp: held_at_def chosen_at_def)

lemma lockedI: "held_at s i = Some r \<Longrightarrow> i < n \<Longrightarrow> locked n s (q_id r)"
  by (auto simp: locked_def)

lemma committed_db_simps [simp]:
  "workers (assigned_db r w now d) = workers d" "workers (committed_db r w now d) = workers d"
  "users (committed_db r w now d) = users d" "users (assigned_db r w now d) = users d"
  "queries (committed_db r w now d) = queries (assigned_db r w now d)"
  "payload_limit (assigned_db r w now d) = payload_limit d"
  "payload_limit (committed_db r w now d) = payload_limit d"
  by (simp_all add: assigned_db_def committed_db_def)

end
