(* ===== verification/Transaction_Laws.thy ===== *)
theory Transaction_Laws
  imports Transactions
begin

text \<open>
  What interleaved claims keep: every row a claim has locked is pending and unchanged since it was
  selected, no two claims hold the same row, the store stays well formed. From it follow the
  machine and the board of \<open>Store_Invariant\<close> for the interleaved steps, and the facts about runs the
  properties rest on.
\<close>

section \<open>The steps of a claim, by what they do\<close>

lemma select_pending_Some:
  assumes "select_pending target taken d = Some r"
  shows "r \<in> set (queries d)" "q_status r = ''pending''" "\<not> taken (q_id r)"
    and "\<And>k. target = Some k \<Longrightarrow> q_id r = k"
    and "\<And>q. target = None \<Longrightarrow> q \<in> set (queries d) \<Longrightarrow> q_status q = ''pending'' \<Longrightarrow> \<not> taken (q_id q) \<Longrightarrow>
      q_created_at r \<le> q_created_at q"
proof -
  let ?free = "filter (\<lambda>q. q_status q = ''pending'' \<and> \<not> taken (q_id q)) (queries d)"
  have "r \<in> set ?free \<and> (\<forall>k. target = Some k \<longrightarrow> q_id r = k) \<and>
      (target = None \<longrightarrow> (\<forall>q\<in>set ?free. q_created_at r \<le> q_created_at q))"
  proof (cases target)
    case None
    with assms have "fetchrow (order_by q_created_at ?free) = Some r"
      by (simp add: select_pending_def)
    from fetchrow_order_by [OF this] None show ?thesis by blast
  next
    case (Some k)
    with assms have "fetchrow (filter (\<lambda>q. q_id q = k) ?free) = Some r"
      by (simp add: select_pending_def)
    from fetchrow_Some_set [OF this] Some show ?thesis by auto
  qed
  then show "r \<in> set (queries d)" "q_status r = ''pending''" "\<not> taken (q_id r)"
    "\<And>k. target = Some k \<Longrightarrow> q_id r = k"
    "\<And>q. target = None \<Longrightarrow> q \<in> set (queries d) \<Longrightarrow> q_status q = ''pending'' \<Longrightarrow> \<not> taken (q_id q) \<Longrightarrow>
      q_created_at r \<le> q_created_at q"
    by auto
qed

text \<open>The claim on one connection, moved to another state.\<close>

definition moved :: "nat \<Rightarrow> claim_state \<Rightarrow> txs \<Rightarrow> txs" where
  "moved i st s = s\<lparr>tx_claims := (tx_claims s)(i := map_option (cm_state_update (\<lambda>_. st)) (tx_claims s i))\<rparr>"

lemma moved_simps [simp]:
  "tx_db (moved i st s) = tx_db s" "tx_log (moved i st s) = tx_log s"
  by (simp_all add: moved_def)

lemma moved_at:
  assumes "state_at s i \<noteq> None"
  shows "state_at (moved i st s) j = (if j = i then Some st else state_at s j)"
    and "held_at (moved i st s) j = (if j = i then held st else held_at s j)"
    and "chosen_at (moved i st s) j = (if j = i then chosen st else chosen_at s j)"
  using assms by (auto simp: moved_def state_at_def held_at_def chosen_at_def)

lemma advance_cases:
  obtains (stays) "advance_claim n i s = s"
  | (picks) c r where "tx_claims s i = Some c" "cm_state c = Begun"
      "select_pending (cm_target c) (locked n s) (tx_db s) = Some r" "advance_claim n i s = moved i (Picked r) s"
  | (chooses) c r w where "tx_claims s i = Some c" "cm_state c = Picked r"
      "worker_for_query (cm_cutoff c) (q_cpus r) (q_memory r) (q_disk_space r) (tx_db s) = Some w"
      "advance_claim n i s = moved i (Chosen r w) s"
  | (writes) c r w where "tx_claims s i = Some c" "cm_state c = Chosen r w"
      "advance_claim n i s = moved i (Written r w) s"
  | (joins) c r w where "tx_claims s i = Some c" "cm_state c = Written r w"
      "advance_claim n i s =
         moved i (Joined r w (claimed_join (q_id r) (assigned_db r w (cm_now c) (tx_db s)))) s"
  | (commits) c r w row where "tx_claims s i = Some c" "cm_state c = Joined r w row"
      "advance_claim n i s = (moved i (Ended (Inr row)) s)
         \<lparr>tx_db := committed_db r w (cm_now c) (tx_db s), tx_log := tx_log s @ committing (Joined r w row)\<rparr>"
  | (ends) c res where "tx_claims s i = Some c" "advance_claim n i s = moved i (Ended res) s"
proof (cases "tx_claims s i")
  case None
  then show thesis by (intro stays) (simp add: advance_claim_def)
next
  case (Some c)
  note adv = advance_claim_def claim_turn_def moved_def Some Let_def
  show thesis
  proof (cases "cm_state c")
    case Begun
    show thesis
    proof (cases "select_pending (cm_target c) (locked n s) (tx_db s)")
      case None
      with Some Begun show thesis by (intro ends [of c "Inr None"]) (simp_all add: adv)
    next
      case r: (Some r)
      with Some Begun show thesis by (intro picks) (simp_all add: adv)
    qed
  next
    case (Picked r)
    show thesis
    proof (cases "worker_for_query (cm_cutoff c) (q_cpus r) (q_memory r) (q_disk_space r) (tx_db s)")
      case None
      with Some Picked show thesis by (intro ends [of c "Inr None"]) (simp_all add: adv)
    next
      case w: (Some w)
      with Some Picked show thesis by (intro chooses) (simp_all add: adv)
    qed
  next
    case (Chosen r w)
    show thesis
    proof (cases "notify_query_status (q_id r) ''running'' None None (assigned_db r w (cm_now c) (tx_db s))")
      case (Inl e)
      with Some Chosen show thesis by (intro ends [of c "Inl e"]) (simp_all add: adv)
    next
      case (Inr d)
      with Some Chosen show thesis by (intro writes) (simp_all add: adv)
    qed
  next
    case (Written r w)
    with Some show thesis by (intro joins) (simp_all add: adv)
  next
    case (Joined r w row)
    with Some show thesis by (intro commits; cases s) (simp_all add: adv)
  next
    case (Ended res)
    then have "c\<lparr>cm_state := Ended res\<rparr> = c" by simp
    with Some Ended show thesis by (intro stays) (simp add: adv fun_upd_idem)
  qed
qed

lemma state_at_claim: "tx_claims s i = Some c \<Longrightarrow> state_at s i = Some (cm_state c)"
  by (simp add: state_at_def)

lemma held_at_claim: "tx_claims s i = Some c \<Longrightarrow> held_at s i = held (cm_state c)"
  by (simp add: held_at_def state_at_def)

lemma chosen_at_claim: "tx_claims s i = Some c \<Longrightarrow> chosen_at s i = chosen (cm_state c)"
  by (simp add: chosen_at_def state_at_def)

lemmas claim_at = state_at_claim held_at_claim chosen_at_claim

section \<open>A commit is an assignment of a pending row\<close>

lemma query_of_committed:
  "query_of k (committed_db r w now d) =
    (if k = q_id r then map_option (assigned_row now (w_id w)) (query_of k d) else query_of k d)"
proof -
  have "query_of k (committed_db r w now d) =
      map_option (\<lambda>q. if q_id q = q_id r then assigned_row now (w_id w) q else q) (query_of k d)"
    unfolding committed_db_simps assigned_db_def by (simp add: row_of_update)
  moreover have "q_id q = k" if "query_of k d = Some q" for q
    using row_of_Some [OF that] by simp
  ultimately show ?thesis
    by (cases "query_of k d") auto
qed

lemma query_of_unique:
  assumes "store_wf d" "query_of (q_id r) d = Some r" "q \<in> set (queries d)" "q_id q = q_id r"
  shows "q = r"
  using assms(2-4) row_of_iff [OF store_wf_pk(1) [OF assms(1)]] by (metis option.inject)

lemma committed_evolves:
  assumes "store_wf d" "query_of (q_id r) d = Some r" "q_status r = ''pending''" "w_id w \<in> w_id ` set (workers d)"
  shows "rows_evolve (w_id ` set (workers d)) (queries d) (queries (committed_db r w now d))"
  using assms(3,4) query_of_unique [OF assms(1,2)]
  by (auto simp: assigned_db_def intro!: rows_evolve_update)

lemma committed_wf:
  assumes "store_wf d" "query_of (q_id r) d = Some r" "q_status r = ''pending''" "w_id w \<in> w_id ` set (workers d)"
  shows "store_wf (committed_db r w now d)"
proof -
  have r: "r \<in> set (queries d)" using assms(2) by (auto dest: row_of_Some)
  have "query_ok (assigned_row now (w_id w) r)"
    using assms(1,3) r by (intro query_ok_intros(2)) (auto simp: store_wf_def)
  then have new: "query_ok (assigned_row now (w_id w) r) \<and>
      set_option (q_user_id (assigned_row now (w_id w) r)) \<subseteq> u_id ` set (users d)"
    using assms(1) r by (simp add: store_wf_def)
  have "query_ok q' \<and> set_option (q_worker_id q') \<subseteq> w_id ` set (workers d) \<and>
      set_option (q_user_id q') \<subseteq> u_id ` set (users d)" if "q' \<in> set (queries (committed_db r w now d))" for q'
  proof -
    from that obtain q where q: "q \<in> set (queries d)"
      "q' = (if q_id q = q_id r then assigned_row now (w_id w) q else q)"
      by (auto simp: assigned_db_def set_update)
    show ?thesis
    proof (cases "q_id q = q_id r")
      case True
      with query_of_unique [OF assms(1,2) q(1)] q(2) have "q' = assigned_row now (w_id w) r" by simp
      with new assms(4) show ?thesis by simp
    next
      case False
      with q assms(1) show ?thesis by (simp add: store_wf_def)
    qed
  qed
  with assms(1) show ?thesis
    by (simp add: store_wf_def assigned_db_def pk_update)
qed


section \<open>The invariant\<close>

text \<open>What a claim read back is the row it assigned, with the worker it chose.\<close>

definition read_back :: "query_row \<Rightarrow> worker_row \<Rightarrow> claimed_row option \<Rightarrow> bool" where
  "read_back r w row \<longleftrightarrow> (\<exists>endpoint. row = Some \<lparr>c_query_id = q_id r, c_query = q_query r, c_cpus = q_cpus r,
     c_memory = q_memory r, c_disk_space = q_disk_space r, c_worker_id = w_id w, c_endpoint = endpoint\<rparr>)"

fun joined_ok :: "claim_state \<Rightarrow> bool" where
  "joined_ok (Joined r w row) = read_back r w row"
| "joined_ok st = True"

definition claims_ok :: "nat \<Rightarrow> txs \<Rightarrow> bool" where
  "claims_ok n s \<longleftrightarrow>
     (\<forall>i r. held_at s i = Some r \<longrightarrow>
        i < n \<and> query_of (q_id r) (tx_db s) = Some r \<and> q_status r = ''pending'') \<and>
     (\<forall>i j r r'. held_at s i = Some r \<longrightarrow> held_at s j = Some r' \<longrightarrow> q_id r = q_id r' \<longrightarrow> i = j) \<and>
     (\<forall>i w. chosen_at s i = Some w \<longrightarrow> w_id w \<in> w_id ` set (workers (tx_db s))) \<and>
     (\<forall>i st. state_at s i = Some st \<longrightarrow> i < n \<and> joined_ok st)"

definition tx_inv :: "nat \<Rightarrow> txs \<Rightarrow> bool" where
  "tx_inv n s \<longleftrightarrow> store_wf (tx_db s) \<and> claims_ok n s"

lemma tx_inv_idle: "store_wf d \<Longrightarrow> tx_inv n (idle_pool d)"
  by (simp add: tx_inv_def claims_ok_def)

lemma tx_invD:
  assumes "tx_inv n s"
  shows "store_wf (tx_db s)"
    and "held_at s i = Some r \<Longrightarrow> i < n" "held_at s i = Some r \<Longrightarrow> query_of (q_id r) (tx_db s) = Some r"
    and "held_at s i = Some r \<Longrightarrow> q_status r = ''pending''"
    and "held_at s i = Some r \<Longrightarrow> held_at s j = Some r' \<Longrightarrow> q_id r = q_id r' \<Longrightarrow> i = j"
    and "chosen_at s i = Some w \<Longrightarrow> w_id w \<in> w_id ` set (workers (tx_db s))"
    and "state_at s i = Some st \<Longrightarrow> i < n" "state_at s i = Some st \<Longrightarrow> joined_ok st"
  using assms by (simp_all add: tx_inv_def claims_ok_def)

lemma claims_okI:
  assumes "\<And>i r. held_at s i = Some r \<Longrightarrow>
        i < n \<and> query_of (q_id r) (tx_db s) = Some r \<and> q_status r = ''pending''"
    and "\<And>i j r r'. held_at s i = Some r \<Longrightarrow> held_at s j = Some r' \<Longrightarrow> q_id r = q_id r' \<Longrightarrow> i = j"
    and "\<And>i w. chosen_at s i = Some w \<Longrightarrow> w_id w \<in> w_id ` set (workers (tx_db s))"
    and "\<And>i st. state_at s i = Some st \<Longrightarrow> i < n \<and> joined_ok st"
  shows "claims_ok n s"
  using assms unfolding claims_ok_def by blast

text \<open>A claim that moves within its transaction: it holds no row, the row it held or a free pending one.\<close>

lemma moved_ok:
  assumes inv: "tx_inv n s" and i: "state_at s i \<noteq> None"
    and held: "\<And>r. held st = Some r \<Longrightarrow> held_at s i = Some r \<or>
      (query_of (q_id r) (tx_db s) = Some r \<and> q_status r = ''pending'' \<and> \<not> locked n s (q_id r))"
    and chosen: "\<And>w. chosen st = Some w \<Longrightarrow> w_id w \<in> w_id ` set (workers (tx_db s))"
    and joined: "joined_ok st"
  shows "claims_ok n (moved i st s)"
proof -
  note I = tx_invD [OF inv]
  have n: "i < n" using i I(7) by blast
  have row: "query_of (q_id r) (tx_db s) = Some r \<and> q_status r = ''pending''" if "held st = Some r" for r
    using held [OF that] I(3,4) by blast
  have apart: "j = i" if "held st = Some r" "held_at s j = Some r'" "q_id r = q_id r'" for j r r'
  proof -
    have "locked n s (q_id r)" using lockedI [OF that(2) I(2) [OF that(2)]] that(3) by simp
    with held [OF that(1)] I(5) that(2,3) show ?thesis by metis
  qed
  show ?thesis
  proof (rule claims_okI)
    fix j r assume "held_at (moved i st s) j = Some r"
    then show "j < n \<and> query_of (q_id r) (tx_db (moved i st s)) = Some r \<and> q_status r = ''pending''"
      using n row I(2-4) by (simp add: moved_at [OF i] split: if_splits)
  next
    fix j k r r' assume "held_at (moved i st s) j = Some r" "held_at (moved i st s) k = Some r'" "q_id r = q_id r'"
    then show "j = k"
      using apart [of r k r'] apart [of r' j r] I(5) [of j r k r']
      by (simp add: moved_at [OF i] split: if_splits)
  next
    fix j w assume "chosen_at (moved i st s) j = Some w"
    then show "w_id w \<in> w_id ` set (workers (tx_db (moved i st s)))"
      using chosen I(6) by (simp only: moved_at [OF i] moved_simps split: if_splits)
  next
    fix j st' assume "state_at (moved i st s) j = Some st'"
    then show "j < n \<and> joined_ok st'"
      using n joined I(7,8) by (simp add: moved_at [OF i] split: if_splits)
  qed
qed


text \<open>Another database: the locked rows are the same in it, and no worker is gone.\<close>

lemma other_db_ok:
  assumes "claims_ok n s"
    and "\<And>i r. held_at s i = Some r \<Longrightarrow> query_of (q_id r) d = query_of (q_id r) (tx_db s)"
    and "w_id ` set (workers (tx_db s)) \<subseteq> w_id ` set (workers d)"
  shows "claims_ok n (s\<lparr>tx_db := d\<rparr>)"
proof -
  have "\<forall>i w. chosen_at s i = Some w \<longrightarrow> w_id w \<in> w_id ` set (workers d)"
    using assms(1,3) unfolding claims_ok_def by blast
  with assms(1,2) show ?thesis unfolding claims_ok_def by simp
qed

lemma claims_ok_log [simp]: "claims_ok n (s\<lparr>tx_log := l\<rparr>) = claims_ok n s"
  by (simp add: claims_ok_def)

lemma joined_read_back:
  assumes inv: "tx_inv n s" and c: "tx_claims s i = Some c" "cm_state c = Written r w"
  shows "read_back r w (claimed_join (q_id r) (assigned_db r w now (tx_db s)))"
proof -
  note I = tx_invD [OF inv] and at = claim_at [OF c(1), unfolded c(2)]
  note pk = store_wf_pk [OF I(1)]
  have q: "query_of (q_id r) (tx_db s) = Some r" using I(3) [of i r] at(2) by simp
  from I(6) [of i w] at(3) obtain v where "worker_of (w_id w) (tx_db s) = Some v" "w_id v = w_id w"
    using row_of_iff [OF pk(2)] by fastforce
  moreover have "query_of (q_id r) (assigned_db r w now (tx_db s)) = Some (assigned_row now (w_id w) r)"
    using query_of_committed [of "q_id r" r w now "tx_db s"] q by simp
  ultimately show ?thesis
    unfolding read_back_def
    using claimed_join_row [of "assigned_db r w now (tx_db s)" "q_id r"] pk
    by (simp add: assigned_db_def pk_update)
qed

lemma advance_inv:
  assumes inv: "tx_inv n s"
  shows "tx_inv n (advance_claim n i s)"
proof -
  note I = tx_invD [OF inv]
  note pk = store_wf_pk [OF I(1)]
  have move: "tx_inv n (moved i st s)" if "claims_ok n (moved i st s)" for st
    using that I(1) by (simp add: tx_inv_def)
  have some: "state_at s i \<noteq> None" if "tx_claims s i = Some c" for c
    using that by (simp add: state_at_def)
  show ?thesis
  proof (cases n i s rule: advance_cases [case_names stays picks chooses writes joins commits ends])
    case stays
    with inv show ?thesis by simp
  next
    case (picks c r)
    note sel = select_pending_Some [OF picks(3)]
    have "query_of (q_id r) (tx_db s) = Some r"
      using sel(1) row_of_iff [OF pk(1)] by simp
    with sel(2,3) show ?thesis
      unfolding picks(4) by (intro move moved_ok [OF inv some [OF picks(1)]]) auto
  next
    case (chooses c r w)
    have "w_id w \<in> w_id ` set (workers (tx_db s))"
      using worker_for_query_fits(1) [OF chooses(3)] by simp
    with claim_at [OF chooses(1)] chooses(2) show ?thesis
      unfolding chooses(4) by (intro move moved_ok [OF inv some [OF chooses(1)]]) auto
  next
    case (writes c r w)
    with claim_at [OF writes(1)] I(6) [of i w] show ?thesis
      unfolding writes(3) by (intro move moved_ok [OF inv some [OF writes(1)]]) auto
  next
    case (joins c r w)
    with claim_at [OF joins(1)] I(6) [of i w] joined_read_back [OF inv joins(1,2)] show ?thesis
      unfolding joins(3) by (intro move moved_ok [OF inv some [OF joins(1)]]) auto
  next
    case (commits c r w row)
    note at = claim_at [OF commits(1), unfolded commits(2)]
    note end_at = moved_at [OF some [OF commits(1)], of "Ended (Inr row)"]
    have ok: "claims_ok n (moved i (Ended (Inr row)) s)"
      by (rule moved_ok [OF inv some [OF commits(1)]]) simp_all
    have "store_wf (committed_db r w (cm_now c) (tx_db s))"
      using committed_wf [OF I(1) I(3) I(4) I(6)] at by simp
    moreover have "claims_ok n ((moved i (Ended (Inr row)) s)\<lparr>tx_db := committed_db r w (cm_now c) (tx_db s)\<rparr>)"
    proof (rule other_db_ok [OF ok])
      fix j r' assume "held_at (moved i (Ended (Inr row)) s) j = Some r'"
      then have "j \<noteq> i" "held_at s j = Some r'" by (auto simp: end_at split: if_splits)
      with I(5) [of i r j r'] at(2) have "q_id r' \<noteq> q_id r" by auto
      then show "query_of (q_id r') (committed_db r w (cm_now c) (tx_db s)) =
          query_of (q_id r') (tx_db (moved i (Ended (Inr row)) s))"
        by (simp add: query_of_committed del: committed_db_simps)
    qed simp
    ultimately show ?thesis
      unfolding commits(3) by (simp add: tx_inv_def)
  next
    case (ends c res)
    show ?thesis
      unfolding ends(2) by (intro move moved_ok [OF inv some [OF ends(1)]]) simp_all
  qed
qed

lemma begin_inv:
  assumes inv: "tx_inv n s"
  shows "tx_inv n (begin_claim n i utc now target stale s)"
proof (cases "i < n \<and> free_conn (state_at s i)")
  case True
  let ?s = "begin_claim n i utc now target stale s"
  have s': "?s = s\<lparr>tx_claims := (tx_claims s)(i \<mapsto> \<lparr>cm_target = target,
      cm_cutoff = utc - stale * second, cm_now = now, cm_state = Begun\<rparr>)\<rparr>"
    using True by (simp add: begin_claim_def)
  note I = tx_invD [OF inv]
  have "claims_ok n ?s"
    unfolding s'
    by (rule claims_okI)
       (use True I(2-5,7,8) in \<open>auto simp: split: if_splits\<close>, use I(6) in blast)
  with I(1) show ?thesis
    by (simp add: tx_inv_def s')
next
  case False
  then have "begin_claim n i utc now target stale s = s" by (auto simp: begin_claim_def)
  with inv show ?thesis by simp
qed

lemma commit_inv:
  assumes inv: "tx_inv n s" and "valid_op op"
  shows "tx_inv n (commit_op n op s)"
proof (cases "keeps_locked n s (apply_op op (tx_db s))")
  case True
  note I = tx_invD [OF inv]
  have "claims_ok n (s\<lparr>tx_db := apply_op op (tx_db s)\<rparr>)"
  proof (rule other_db_ok)
    show "claims_ok n s" using inv by (simp add: tx_inv_def)
    fix i r assume "held_at s i = Some r"
    with True I(2) [OF this] show "query_of (q_id r) (apply_op op (tx_db s)) = query_of (q_id r) (tx_db s)"
      by (auto simp: keeps_locked_def dest!: bspec [of _ _ i])
  qed (rule apply_op_worker_ids(2) [OF store_wf_pk(2) [OF I(1)]])
  with True store_wf_apply_op [OF I(1) assms(2)] show ?thesis
    by (simp add: commit_op_def tx_inv_def Let_def)
next
  case False
  with inv show ?thesis by (simp add: commit_op_def Let_def)
qed

lemma tx_step_inv: "tx_inv n s \<Longrightarrow> valid_event e \<Longrightarrow> tx_inv n (tx_step n e s)"
  by (cases e) (simp_all add: begin_inv advance_inv commit_inv)

interpretation txs: machine "tx_step n" valid_event "tx_inv n" for n
  by unfold_locales (rule tx_step_inv)

end
