(* ===== verification/Transaction_Facts.thy ===== *)
theory Transaction_Facts
  imports Transaction_Laws
begin

text \<open>
  Facts about runs of interleaved claims: they implement the board of \<open>Store_Invariant\<close>; a query is
  claimed at most once more than it was put back; the load of a worker and the claims that have chosen
  it stay together within a bound; and every claim ends after five of its own statements.
\<close>

section \<open>The board\<close>

text \<open>What a step of a claim does to the database: nothing, or the assignment of a pending row.\<close>

lemma advance_db:
  assumes inv: "tx_inv n s"
  obtains (same) "tx_db (advance_claim n i s) = tx_db s" "tx_log (advance_claim n i s) = tx_log s"
  | (assigned) r w now where "held_at s i = Some r" "chosen_at s i = Some w"
      "tx_db (advance_claim n i s) = committed_db r w now (tx_db s)"
      "\<exists>c. tx_log (advance_claim n i s) = tx_log s @ [c] \<and> c_query_id c = q_id r \<and> c_query c = q_query r \<and>
        c_worker_id c = w_id w"
      "chosen_at (advance_claim n i s) = (chosen_at s)(i := None)"
proof (cases n i s rule: advance_cases [case_names stays picks chooses writes joins commits ends])
  case (commits c r w row)
  note at = claim_at [OF commits(1), unfolded commits(2)]
  obtain c' where "row = Some c'" "c_query_id c' = q_id r" "c_query c' = q_query r" "c_worker_id c' = w_id w"
    using tx_invD(8) [OF inv at(1)] by (auto simp: read_back_def)
  moreover have "chosen_at (moved i (Ended (Inr row)) s) = (chosen_at s)(i := None)"
    using at(1) by (simp add: fun_eq_iff moved_at)
  ultimately show thesis
    using at by (intro assigned [of r w "cm_now c"]) (simp_all add: commits(3))
qed (auto intro: same)

lemma board_step_tx:
  assumes inv: "tx_inv n s" and "valid_event e"
  shows "board_step (board_of (tx_db s)) (board_of (tx_db (tx_step n e s)))"
proof (cases e)
  case (Begin i utc now target stale)
  then show ?thesis by (simp add: begin_claim_def)
next
  case (Advance i)
  note I = tx_invD [OF inv]
  from inv show ?thesis
  proof (cases rule: advance_db [where i = i, consumes 1])
    case same
    with Advance show ?thesis by simp
  next
    case (assigned r w now)
    with Advance board_step_evolves [OF committed_evolves [OF I(1) I(3) I(4) I(6)]] show ?thesis
      by simp
  qed
next
  case (Commit op)
  with assms(2) board_step_apply_op [OF tx_invD(1) [OF inv]] show ?thesis
    by (simp add: commit_op_def Let_def)
qed

interpretation tx_board: machine_abs "tx_step n" valid_event "tx_inv n" "\<lambda>s. board_of (tx_db s)" board_step for n
  by unfold_locales (rule board_step_tx)

section \<open>Claims and returns of a query\<close>

text \<open>The operations that can put a query back, and whether the next claim could take it.\<close>

fun requeues :: "uuid \<Rightarrow> store_op \<Rightarrow> bool" where
  "requeues k (OpUnreachable wid) = True"
| "requeues k (OpSweep utc stale) = True"
| "requeues k (OpRevert qid) = (qid = k)"
| "requeues k op = False"

fun requeue_event :: "uuid \<Rightarrow> tx_event \<Rightarrow> bool" where
  "requeue_event k (Commit op) = requeues k op"
| "requeue_event k e = False"

definition claimable :: "uuid \<Rightarrow> database \<Rightarrow> bool" where
  "claimable k d \<longleftrightarrow> (case query_of k d of None \<Rightarrow> True | Some q \<Rightarrow> q_status q = ''pending'')"

definition claims_of :: "uuid \<Rightarrow> txs \<Rightarrow> nat" where
  "claims_of k s = length (filter (\<lambda>c. c_query_id c = k) (tx_log s))"

lemma claimable_update:
  assumes "queries d' = sql_update cond upd (queries d)" "\<And>q. q_id (upd q) = q_id q"
    and "\<And>q. q_id q = k \<Longrightarrow> cond q \<Longrightarrow> q_status (upd q) \<noteq> ''pending''" and "claimable k d'"
  shows "claimable k d"
proof -
  have q: "query_of k d' = map_option (\<lambda>q. if cond q then upd q else q) (query_of k d)"
    unfolding assms(1) by (rule row_of_update) (rule assms(2))
  show ?thesis
  proof (cases "query_of k d")
    case None
    then show ?thesis by (simp add: claimable_def)
  next
    case (Some r)
    with q assms(3) [of r] assms(4) row_of_Some [OF Some] show ?thesis
      by (auto simp: claimable_def split: if_splits)
  qed
qed

lemma claimable_apply_op:
  assumes "valid_op op" "\<not> is_claim op" "\<not> requeues k op" and "claimable k (apply_op op d)"
  shows "claimable k d"
proof (cases op)
  case (OpCreate fr now q c m s u)
  then have "queries (apply_op op d) = queries d \<or> (\<exists>r. queries (apply_op op d) = queries d @ [r])"
    by (auto simp: create_query_def sql_insert_def Let_def)
  with assms(4) show ?thesis
    by (auto simp: claimable_def row_of_append split: option.splits)
next
  case (OpComplete now qid st e m)
  then have "queries (apply_op op d) = sql_update
      (\<lambda>q. q_id q = qid \<and> q_status q \<in> {''running'', ''pending''}) (completed_row now st e m) (queries d)"
    by (simp add: queries_complete)
  then show ?thesis
    by (rule claimable_update [OF _ _ _ assms(4)]) (use OpComplete assms(1) in \<open>auto simp: terminal_def\<close>)
next
  case (OpCancel now qid e)
  then have "queries (apply_op op d) = sql_update
      (\<lambda>q. q_id q = qid \<and> q_status q \<in> {''pending'', ''running''}) (cancelled_row now e) (queries d)"
    by (simp add: queries_cancelled)
  then show ?thesis
    by (rule claimable_update [OF _ _ _ assms(4)]) simp_all
next
  case (OpRevert qid)
  then have "queries (apply_op op d) = sql_update
      (\<lambda>q. q_id q = qid \<and> q_status q = ''running'') requeued_row (queries d)"
    by (simp add: queries_revert)
  then show ?thesis
    by (rule claimable_update [OF _ _ _ assms(4)]) (use OpRevert assms(3) in auto)
qed (use assms in \<open>auto simp: claimable_def\<close>)

text \<open>The claims of a query, and one more if it could be claimed, grow only with a return.\<close>

lemma claims_step:
  assumes inv: "tx_inv n s" and "valid_event e"
  shows "claims_of k (tx_step n e s) + (if claimable k (tx_db (tx_step n e s)) then 1 else 0) \<le>
    claims_of k s + (if claimable k (tx_db s) then 1 else 0) + (if requeue_event k e then 1 else 0)"
proof (cases e)
  case (Begin i utc now target stale)
  then show ?thesis by (simp add: begin_claim_def claims_of_def)
next
  case (Advance i)
  from inv show ?thesis
  proof (cases rule: advance_db [where i = i, consumes 1])
    case same
    with Advance show ?thesis by (simp add: claims_of_def)
  next
    case (assigned r w now)
    have "query_of (q_id r) (tx_db s) = Some r" "q_status r = ''pending''"
      using tx_invD(3,4) [OF inv assigned(1)] by simp_all
    with assigned(3,4) Advance show ?thesis
      by (auto simp: claims_of_def claimable_def query_of_committed simp del: committed_db_simps)
  qed
next
  case (Commit op)
  with assms(2) claimable_apply_op [of op k "tx_db s"] show ?thesis
    by (auto simp: commit_op_def claims_of_def Let_def)
qed

lemma claims_run:
  assumes "tx_inv n s" and "\<forall>e\<in>set evs. valid_event e"
  shows "claims_of k (run_txs n evs s) \<le>
    claims_of k s + (if claimable k (tx_db s) then 1 else 0) + length (filter (requeue_event k) evs)"
  using assms
proof (induction evs arbitrary: s)
  case Nil
  then show ?case by simp
next
  case (Cons e evs)
  have "tx_inv n (tx_step n e s)" using Cons.prems by (auto intro: tx_step_inv)
  with Cons.IH [of "tx_step n e s"] claims_step [of n s e k] Cons.prems show ?case
    by (simp split: if_splits)
qed


section \<open>The load of a worker\<close>

text \<open>An operation that commits in one step assigns nothing, so it lowers loads only.\<close>

lemma load_update_le:
  assumes "queries d' = sql_update cond upd (queries d)"
    and "\<And>q. cond q \<Longrightarrow> q_status (upd q) \<noteq> ''running''"
  shows "load_queries v d' \<le> load_queries v d"
proof -
  let ?on = "\<lambda>q. q_status q = ''running'' \<and> q_worker_id q = Some v"
  have "length (filter ?on (sql_update cond upd t)) \<le> length (filter ?on t)" for t
    using assms(2) by (induction t) (auto simp: sql_update_def)
  then show ?thesis
    by (simp add: load_queries_def load_rows_def assms(1))
qed

lemma load_apply_op:
  assumes "valid_op op" "\<not> is_claim op"
  shows "load_queries v (apply_op op d) \<le> load_queries v d"
proof -
  have same: "load_queries v d' \<le> load_queries v d" if "queries d' = queries d" for d'
    using that by (simp add: load_queries_def load_rows_def)
  show ?thesis
  proof (cases op)
    case (OpUnreachable wid)
    from queries_unreachable [of wid d] show ?thesis
    proof
      assume "queries (fst (mark_worker_unreachable wid d)) = queries d"
      with OpUnreachable show ?thesis by (simp add: same)
    next
      assume "queries (fst (mark_worker_unreachable wid d)) =
        sql_update (\<lambda>q. q_worker_id q = Some wid \<and> q_status q = ''running'') lost_row (queries d)"
      from load_update_le [OF this] OpUnreachable show ?thesis by simp
    qed
  next
    case (OpSweep utc stale)
    from queries_sweep [of utc stale d] show ?thesis
    proof
      assume "queries (fst (sweep_stale_workers utc stale d)) = queries d"
      with OpSweep show ?thesis by (simp add: same)
    next
      assume "queries (fst (sweep_stale_workers utc stale d)) =
        sql_update (lost_in_sweep (utc - stale * second) d) lost_row (queries d)"
      from load_update_le [OF this] OpSweep show ?thesis by simp
    qed
  next
    case (OpCreate fr now q c m s u)
    then show ?thesis
      by (auto simp: create_query_def sql_insert_def Let_def load_queries_def load_rows_def)
  next
    case (OpComplete now qid st e m)
    with load_update_le [OF queries_complete [of now qid st e m d]] assms(1) show ?thesis
      by (auto simp: terminal_def)
  next
    case (OpCancel now qid e)
    with load_update_le [OF queries_cancelled [of now qid e d]] show ?thesis by simp
  next
    case (OpRevert qid)
    with load_update_le [OF queries_revert [of qid d]] show ?thesis by simp
  qed (use assms(2) same in simp_all)
qed

text \<open>The limit of a worker changes only when it registers again.\<close>

fun registers :: "uuid \<Rightarrow> store_op \<Rightarrow> bool" where
  "registers k (OpRegister fr now wid ep c m s mx) = (coalesce wid fr = k)"
| "registers k op = False"

definition limit_of :: "uuid \<Rightarrow> database \<Rightarrow> int option" where
  "limit_of k d = map_option w_max_concurrent_queries (worker_of k d)"

lemma limit_of_update:
  assumes "workers d' = sql_update cond upd (workers d)" "\<And>w. w_id (upd w) = w_id w"
    and "\<And>w. w_id w = k \<Longrightarrow> cond w \<Longrightarrow> w_max_concurrent_queries (upd w) = w_max_concurrent_queries w"
  shows "limit_of k d' = limit_of k d"
proof -
  have "worker_of k d' = map_option (\<lambda>w. if cond w then upd w else w) (worker_of k d)"
    unfolding assms(1) by (rule row_of_update) (rule assms(2))
  then show ?thesis
    using assms(3) row_of_Some [of w_id k "workers d"] by (cases "worker_of k d") (auto simp: limit_of_def)
qed

lemma limit_of_apply_op:
  assumes "\<not> registers k op" and "limit_of k d \<noteq> None"
  shows "limit_of k (apply_op op d) = limit_of k d"
proof -
  have same: "limit_of k d' = limit_of k d" if "workers d' = workers d" for d'
    using that by (simp add: limit_of_def)
  note upd = limit_of_update [where d' = "apply_op op d" and d = d]
  show ?thesis
  proof (cases op)
    case (OpRegister fr now wid ep c m s mx)
    with assms(1) have k: "coalesce wid fr \<noteq> k" by simp
    show ?thesis
    proof (cases rule: workers_register [of wid fr d now ep c m s mx])
      case known
      then have "workers (apply_op op d) = sql_update (\<lambda>w. w_id w = coalesce wid fr)
          (registered_row now ep c m s mx) (workers d)"
        using OpRegister by simp
      then show ?thesis by (rule upd) (use k in simp_all)
    next
      case (fresh r)
      with OpRegister assms(2) show ?thesis by (auto simp: limit_of_def row_of_append)
    qed
  next
    case (OpHeartbeat now wid c m sp stt mu cu)
    then have "workers (apply_op op d) =
        sql_update (\<lambda>w. w_id w = wid) (heartbeat_row now c m sp stt mu cu) (workers d)"
      by (simp add: workers_heartbeat)
    then show ?thesis by (rule upd) simp_all
  next
    case (OpReady now wid)
    then have "workers (apply_op op d) = sql_update (\<lambda>w. w_id w = wid \<and> w_status w = ''initializing'')
        (\<lambda>w. w\<lparr>w_status := ''running'', w_last_heartbeat_at := now\<rparr>) (workers d)"
      by (simp add: workers_ready)
    then show ?thesis by (rule upd) simp_all
  next
    case (OpShutdown now wid)
    then have "workers (apply_op op d) = sql_update (\<lambda>w. w_id w = wid \<and> w_status w = ''running'')
        (\<lambda>w. w\<lparr>w_status := ''shutting_down'', w_last_heartbeat_at := now\<rparr>) (workers d)"
      by (simp add: workers_shutdown)
    then show ?thesis by (rule upd) simp_all
  next
    case (OpUnreachable wid)
    then have "workers (apply_op op d) = workers d \<or> workers (apply_op op d) =
        sql_update (\<lambda>w. w_id w = wid \<and> w_status w \<in> {''running'', ''shutting_down''})
          (\<lambda>w. w\<lparr>w_status := ''unreachable''\<rparr>) (workers d)"
      using workers_unreachable [of wid d] by simp
    then show ?thesis
      by (elim disjE) (rule same, assumption, rule upd, assumption, simp_all)
  next
    case (OpSweep utc stale)
    then have "workers (apply_op op d) = workers d \<or> workers (apply_op op d) =
        sql_update (is_stale (utc - stale * second)) (\<lambda>w. w\<lparr>w_status := ''stopped''\<rparr>) (workers d)"
      using workers_sweep [of utc stale d] by simp
    then show ?thesis
      by (elim disjE) (rule same, assumption, rule upd, assumption, simp_all)
  qed (simp_all add: limit_of_def frame_lemmas)
qed


section \<open>Load and choices together\<close>

text \<open>The claims under way that have chosen a worker.\<close>

definition choosers :: "nat \<Rightarrow> uuid \<Rightarrow> txs \<Rightarrow> nat set" where
  "choosers n k s = {i. i < n \<and> map_option w_id (chosen_at s i) = Some k}"

lemma finite_choosers [simp]: "finite (choosers n k s)"
  by (simp add: choosers_def)

text \<open>A limit of concurrent queries \<open>m\<close> is exceeded by less than the number of connections.\<close>

definition within_pool :: "nat \<Rightarrow> uuid \<Rightarrow> int \<Rightarrow> txs \<Rightarrow> bool" where
  "within_pool n k m s \<longleftrightarrow> limit_of k (tx_db s) = Some m \<and>
     load_queries k (tx_db s) + int (card (choosers n k s)) \<le> m + int n - 1"

lemma choosers_same: "chosen_at s' = chosen_at s \<Longrightarrow> choosers n k s' = choosers n k s"
  by (simp add: choosers_def)

lemma load_same: "queries d' = queries d \<Longrightarrow> load_queries k d' = load_queries k d"
  by (simp add: load_queries_def load_rows_def)

text \<open>A claim that loses its choice, or keeps it, does not add to the choosers.\<close>

lemma choosers_moved:
  assumes "tx_claims s i = Some c" and "chosen st = None \<or> chosen st = chosen (cm_state c)"
  shows "card (choosers n k (moved i st s)) \<le> card (choosers n k s)"
proof (rule card_mono)
  have "state_at s i \<noteq> None" using assms(1) by (simp add: state_at_def)
  then have at: "chosen_at (moved i st s) = (chosen_at s)(i := chosen st)"
    by (simp add: fun_eq_iff moved_at)
  from assms(2) show "choosers n k (moved i st s) \<subseteq> choosers n k s"
    by (elim disjE) (auto simp: choosers_def at claim_at(3) [OF assms(1)] split: if_splits)
qed simp

lemma within_pool_choose:
  assumes inv: "tx_inv n s" and w: "within_pool n k m s"
    and c: "tx_claims s i = Some c" "cm_state c = Picked r"
    and v: "worker_for_query cutoff (q_cpus r) (q_memory r) (q_disk_space r) (tx_db s) = Some v"
  shows "within_pool n k m (moved i (Chosen r v) s)"
proof -
  note pk = store_wf_pk [OF tx_invD(1) [OF inv]]
  have some: "state_at s i \<noteq> None" using c by (simp add: state_at_def)
  note at = moved_at(3) [OF some, of "Chosen r v"]
  show ?thesis
  proof (cases "w_id v = k")
    case True
    have "worker_of k (tx_db s) = Some v"
      using worker_for_query_fits(1) [OF v] True row_of_iff [OF pk(2)] by simp
    with w have "w_max_concurrent_queries v = m"
      by (simp add: within_pool_def limit_of_def)
    with worker_for_query_fits(2) [OF v] True have "load_queries k (tx_db s) + 1 \<le> m"
      by (simp add: worker_fits_def)
    moreover have "card (choosers n k (moved i (Chosen r v) s)) \<le> n"
      using card_mono [of "{..<n}" "choosers n k (moved i (Chosen r v) s)"] by (auto simp: choosers_def)
    ultimately show ?thesis
      using w by (simp add: within_pool_def)
  next
    case False
    then have "choosers n k (moved i (Chosen r v) s) \<subseteq> choosers n k s"
      by (auto simp: choosers_def at)
    from card_mono [OF _ this] w show ?thesis
      by (simp add: within_pool_def)
  qed
qed

lemma within_pool_commit:
  assumes inv: "tx_inv n s" and w: "within_pool n k m s"
    and held: "held_at s i = Some r" and chosen: "chosen_at s i = Some v"
    and s': "tx_db s' = committed_db r v now (tx_db s)" "chosen_at s' = (chosen_at s)(i := None)"
  shows "within_pool n k m s'"
proof -
  note I = tx_invD [OF inv]
  note pk = store_wf_pk [OF I(1)]
  have r: "r \<in> set (queries (tx_db s))" "q_status r = ''pending''"
    using row_of_Some [OF I(3) [OF held]] I(4) [OF held] by simp_all
  have d': "queries (tx_db s') = sql_update (\<lambda>q. q_id q = q_id r) (assigned_row now (w_id v)) (queries (tx_db s))"
    by (simp add: s' assigned_db_def)
  note load = load_of_assignment [OF pk(1) r d']
  have "choosers n k s' = choosers n k s - {i}"
    by (auto simp: choosers_def s'(2))
  moreover have "i \<in> choosers n k s" if "w_id v = k"
    using that chosen I(2) [OF held] by (simp add: choosers_def)
  ultimately have "load_queries k (tx_db s') + int (card (choosers n k s')) \<le>
      load_queries k (tx_db s) + int (card (choosers n k s))"
    using load(1,3) card_Suc_Diff1 [of "choosers n k s" i]
    by (cases "w_id v = k") (auto simp: card_Diff1_le)
  with w show ?thesis
    by (simp add: within_pool_def limit_of_def s'(1))
qed


lemma within_pool_moved:
  assumes "within_pool n k m s" and "tx_claims s i = Some c"
    and "chosen st = None \<or> chosen st = chosen (cm_state c)"
  shows "within_pool n k m (moved i st s)"
  using assms(1) choosers_moved [OF assms(2,3), of n k] by (simp add: within_pool_def)

lemma within_pool_advance:
  assumes inv: "tx_inv n s" and w: "within_pool n k m s"
  shows "within_pool n k m (advance_claim n i s)"
proof (cases n i s rule: advance_cases [case_names stays picks chooses writes joins commits ends])
  case stays
  with w show ?thesis by simp
next
  case (picks c r)
  then show ?thesis using within_pool_moved [OF w picks(1)] by simp
next
  case (chooses c r v)
  then show ?thesis using within_pool_choose [OF inv w chooses(1-3)] by simp
next
  case (writes c r v)
  then show ?thesis using within_pool_moved [OF w writes(1)] by simp
next
  case (joins c r v)
  then show ?thesis using within_pool_moved [OF w joins(1)] by simp
next
  case (commits c r v row)
  note at = claim_at [OF commits(1), unfolded commits(2)]
  have "chosen_at (advance_claim n i s) = (chosen_at s)(i := None)"
    using at(1) by (simp add: fun_eq_iff commits(3) moved_at)
  with within_pool_commit [OF inv w, of i r v "advance_claim n i s" "cm_now c"] at commits(3) show ?thesis
    by simp
next
  case (ends c res)
  then show ?thesis using within_pool_moved [OF w ends(1)] by simp
qed

fun registers_event :: "uuid \<Rightarrow> tx_event \<Rightarrow> bool" where
  "registers_event k (Commit op) = registers k op"
| "registers_event k e = False"

lemma within_pool_step:
  assumes "tx_inv n s" "valid_event e" "\<not> registers_event k e" "within_pool n k m s"
  shows "within_pool n k m (tx_step n e s)"
proof (cases e)
  case (Begin i utc now target stale)
  have "choosers n k (begin_claim n i utc now target stale s) \<subseteq> choosers n k s"
    by (auto simp: begin_claim_def choosers_def)
  from card_mono [OF _ this] have "card (choosers n k (begin_claim n i utc now target stale s)) \<le>
      card (choosers n k s)" by simp
  with Begin assms(4) show ?thesis
    by (simp add: within_pool_def)
next
  case (Advance i)
  with within_pool_advance [OF assms(1,4)] show ?thesis by simp
next
  case (Commit op)
  with assms(2) load_apply_op [of op k "tx_db s"] have "load_queries k (apply_op op (tx_db s)) \<le>
      load_queries k (tx_db s)" by simp
  moreover have "limit_of k (apply_op op (tx_db s)) = limit_of k (tx_db s)"
    using Commit assms(3,4) by (intro limit_of_apply_op) (simp_all add: within_pool_def)
  ultimately show ?thesis
    using Commit assms(4) by (simp add: commit_op_def Let_def within_pool_def choosers_def)
qed

interpretation pool_load: machine_fact "tx_step n" valid_event "tx_inv n" "\<lambda>e. \<not> registers_event k e"
  "within_pool n k m" for n k m
  by unfold_locales (rule within_pool_step)

section \<open>Claims end\<close>

text \<open>The statements a claim has still to execute.\<close>

fun statements_left :: "claim_state option \<Rightarrow> nat" where
  "statements_left (Some Begun) = 5"
| "statements_left (Some (Picked r)) = 4"
| "statements_left (Some (Chosen r w)) = 3"
| "statements_left (Some (Written r w)) = 2"
| "statements_left (Some (Joined r w c)) = 1"
| "statements_left st = 0"

fun begins_on :: "nat \<Rightarrow> tx_event \<Rightarrow> bool" where
  "begins_on i (Begin j utc now target stale) = (j = i)"
| "begins_on i e = False"

lemma advance_left:
  "statements_left (state_at (advance_claim n i s) i) \<le> statements_left (state_at s i) - 1"
proof (cases n i s rule: advance_cases [case_names stays picks chooses writes joins commits ends])
  case stays
  have "statements_left (state_at s i) = 0"
  proof (rule ccontr)
    assume "statements_left (state_at s i) \<noteq> 0"
    then obtain c where c: "tx_claims s i = Some c" "statements_left (Some (cm_state c)) \<noteq> 0"
      by (cases "tx_claims s i") (auto simp: state_at_def)
    with stays state_at_advance [of n i s i] have "snd (claim_turn (locked n s) c (tx_db s)) = cm_state c"
      by (simp add: state_at_def)
    with c(2) show False
      by (cases "cm_state c") (auto simp: claim_turn_def split: option.splits sum.splits)
  qed
  with stays show ?thesis by simp
qed (auto simp: state_at_def moved_def)

lemma other_conn:
  assumes "\<not> begins_on i e" and "e \<noteq> Advance i"
  shows "state_at (tx_step n e s) i = state_at s i"
  using assms by (cases e) (auto simp: begin_claim_def state_at_advance)

lemma left_run:
  assumes "\<forall>e\<in>set evs. \<not> begins_on i e"
  shows "statements_left (state_at (run_txs n evs s) i) \<le>
    statements_left (state_at s i) - length (filter (\<lambda>e. e = Advance i) evs)"
  using assms
proof (induction evs arbitrary: s)
  case Nil
  then show ?case by simp
next
  case (Cons e evs)
  show ?case
  proof (cases "e = Advance i")
    case True
    with Cons.IH [of "advance_claim n i s"] Cons.prems advance_left [of n i s] show ?thesis by simp
  next
    case False
    with Cons.IH [of "tx_step n e s"] Cons.prems other_conn [of i e n s] show ?thesis by simp
  qed
qed

lemma state_at_None: "state_at s i = None \<longleftrightarrow> tx_claims s i = None"
  by (simp add: state_at_def)

lemma started_stays:
  "state_at s i \<noteq> None \<Longrightarrow> state_at (run_txs n evs s) i \<noteq> None"
proof (induction evs arbitrary: s)
  case (Cons e evs)
  have "state_at (tx_step n e s) i \<noteq> None"
    using Cons.prems Cons.prems [unfolded state_at_None]
    by (cases e) (auto simp: begin_claim_def state_at_advance)
  from Cons.IH [OF this] show ?case by simp
qed simp

lemma nothing_left: "st \<noteq> None \<Longrightarrow> statements_left st = 0 \<Longrightarrow> \<exists>res. st = Some (Ended res)"
  by (cases st; cases "the st") auto

section \<open>Evaluation\<close>

text \<open>What computes a concrete run.\<close>

lemma notify_running:
  "130 \<le> payload_limit d \<Longrightarrow> notify_query_status k ''running'' None None d =
    Inr (d\<lparr>channel := channel d @ [json_dumps (notify_payload k ''running'' None None)]\<rparr>)"
  by (rule notify_fixed_succeeds) simp_all

lemmas tx_eval = begin_claim_def advance_claim_def claim_turn_def select_pending_def locked_def held_at_def
  state_at_def worker_for_query_def worker_fits_def fits_in_def load_queries_def load_rows_def order_by_def
  claimed_join_def assigned_db_def committed_db_def notify_running sql_update_def second_def Let_def

end
