(* ===== verification/Cluster.thy ===== *)
theory Cluster
  imports Fleet Transaction_Facts
begin

text \<open>
  The whole system: the coordinator's store with the dispatches that are on their way, any number of
  worker processes, and everything that can happen to them in any order. A step is a handler or the
  part of one between two awaits, as the component theories define them; a claim is one
  statement per step, on its connection of the pool. Requests and answers can be
  lost, workers can restart at any moment, claims can die, and the coordinator's other tasks use the
  store. Two history variables record what the executors returned and which queries a fault has hit; no
  step reads them.
\<close>

section \<open>The state\<close>

text \<open>A process: the application, and the tasks whose report the coordinator has handled.\<close>

record node =
  nd_app :: worker_app
  nd_arrived :: "nat list"

text \<open>A dispatch is a claimed row with the status the worker answered, if it has; \<open>cl_sent\<close> are all that
  were ever sent, since the network may deliver one when nobody waits for its answer any more.\<close>

record cluster =
  cl_db :: database
  cl_claims :: "nat \<Rightarrow> claim option"
  cl_dispatches :: "(claimed_row \<times> nat option) list"
  cl_sent :: "claimed_row list"
  cl_nodes :: "node list"
  cl_runs :: "(uuid \<times> string \<times> exec_result) list"
  cl_faults :: "uuid list"

definition new_cluster :: "database \<Rightarrow> cluster" where
  "new_cluster d = \<lparr>cl_db = d, cl_claims = Map.empty, cl_dispatches = [], cl_sent = [], cl_nodes = [],
     cl_runs = [], cl_faults = []\<rparr>"

definition new_node :: "worker_settings \<Rightarrow> worker_state \<Rightarrow> node" where
  "new_node settings st = \<lparr>nd_app = new_app settings st, nd_arrived = []\<rparr>"

text \<open>The claims and the database they work on. A handler that would change a row a claim has locked waits.\<close>

definition pool_of :: "cluster \<Rightarrow> txs" where
  "pool_of s = \<lparr>tx_db = cl_db s, tx_claims = cl_claims s, tx_log = []\<rparr>"

definition no_wait :: "database \<Rightarrow> cluster \<Rightarrow> bool" where
  "no_wait d s = keeps_locked POOL_MAX_SIZE (pool_of s) d"

section \<open>The coordinator's steps\<close>

text \<open>What the other tasks do to the store: everything but claims and completions, which have steps of
  their own. Heartbeats carry the statuses workers send.\<close>

fun other_op :: "store_op \<Rightarrow> bool" where
  "other_op (OpComplete now qid st e n) = False"
| "other_op (OpClaimNext utc now stale) = False"
| "other_op (OpClaimById utc now qid stale) = False"
| "other_op (OpHeartbeat now wid c m s st mu cu) = (st \<in> {None, Some ''running'', Some ''shutting_down''})"
| "other_op op = True"

text \<open>A worker that registers again leaves the queries it ran without anybody.\<close>

fun stranded_ids :: "store_op \<Rightarrow> database \<Rightarrow> uuid list" where
  "stranded_ids (OpRegister fr now wid ep c m s mx) d =
     map q_id (filter (\<lambda>q. q_status q = ''running'' \<and> q_worker_id q = Some (coalesce wid fr)) (queries d))"
| "stranded_ids op d = []"

definition commit_step :: "store_op \<Rightarrow> cluster \<Rightarrow> cluster" where
  "commit_step op s =
     (if other_op op \<and> no_wait (apply_op op (cl_db s)) s
      then s\<lparr>cl_db := apply_op op (cl_db s), cl_faults := stranded_ids op (cl_db s) @ cl_faults s\<rparr>
      else s)"

text \<open>A claim begins on a connection, executes its next statement, or dies and is rolled back. A claim that
  commits a query has its dispatch on its way. If the worker it chose is no longer in use when it
  commits, that is a fault.\<close>

definition live :: "uuid \<Rightarrow> database \<Rightarrow> bool" where
  "live w d =
     (case worker_of w d of None \<Rightarrow> False | Some v \<Rightarrow> w_status v \<in> {''running'', ''shutting_down''})"

definition begin_step ::
  "nat \<Rightarrow> timestamp \<Rightarrow> timestamp \<Rightarrow> uuid option \<Rightarrow> int \<Rightarrow> cluster \<Rightarrow> cluster" where
  "begin_step i utc now target stale s =
     s\<lparr>cl_claims := tx_claims (begin_claim POOL_MAX_SIZE i utc now target stale (pool_of s))\<rparr>"

definition advance_step :: "nat \<Rightarrow> cluster \<Rightarrow> cluster" where
  "advance_step i s =
     (let p = advance_claim POOL_MAX_SIZE i (pool_of s); claimed = tx_log p
      in s\<lparr>cl_db := tx_db p, cl_claims := tx_claims p,
           cl_dispatches := cl_dispatches s @ map (\<lambda>c. (c, None)) claimed, cl_sent := cl_sent s @ claimed,
           cl_faults := map c_query_id (filter (\<lambda>c. \<not> live (c_worker_id c) (cl_db s)) claimed) @ cl_faults s\<rparr>)"

definition rollback_step :: "nat \<Rightarrow> cluster \<Rightarrow> cluster" where
  "rollback_step i s = s\<lparr>cl_claims := (cl_claims s)(i := None)\<rparr>"

text \<open>A dispatch arrives at a process, which answers; the outcome the coordinator sees is any error or
  status, but 202 only if a worker said so. A dispatch also ends when its task dies.\<close>

definition deliver :: "json_obj \<Rightarrow> worker_app \<Rightarrow> worker_app" where
  "deliver payload app =
     (case read_run_body payload of None \<Rightarrow> app | Some body \<Rightarrow> fst (run_query body app))"

fun answered_status :: "unit outcome \<Rightarrow> nat option" where
  "answered_status (Reply status _) = Some status"
| "answered_status _ = None"

definition arrive_step :: "nat \<Rightarrow> nat \<Rightarrow> cluster \<Rightarrow> cluster" where
  "arrive_step j i s =
     (if j < length (cl_dispatches s) \<and> snd (cl_dispatches s ! j) = None \<and> i < length (cl_nodes s)
      then (let c = fst (cl_dispatches s ! j); nd = cl_nodes s ! i; payload = dispatch_payload c
            in s\<lparr>cl_nodes := (cl_nodes s)[i := nd\<lparr>nd_app := deliver payload (nd_app nd)\<rparr>],
                 cl_dispatches := (cl_dispatches s)
                   [j := (c, answered_status (worker_answer (nd_app nd) payload))]\<rparr>)
      else s)"

definition late_step :: "nat \<Rightarrow> nat \<Rightarrow> cluster \<Rightarrow> cluster" where
  "late_step j i s =
     (if j < length (cl_sent s) \<and> i < length (cl_nodes s)
      then (let nd = cl_nodes s ! i
            in s\<lparr>cl_nodes := (cl_nodes s)[i := nd\<lparr>nd_app :=
                   deliver (dispatch_payload (cl_sent s ! j)) (nd_app nd)\<rparr>]\<rparr>)
      else s)"

fun can_answer :: "nat option \<Rightarrow> unit outcome \<Rightarrow> bool" where
  "can_answer a (Reply status _) = (status = 202 \<longrightarrow> a = Some 202)"
| "can_answer a (HttpError e) = True"
| "can_answer a Raises = False"

definition remove_nth :: "nat \<Rightarrow> 'a list \<Rightarrow> 'a list" where
  "remove_nth j xs = take j xs @ drop (Suc j) xs"

definition answer_step :: "nat \<Rightarrow> unit outcome \<Rightarrow> cluster \<Rightarrow> cluster" where
  "answer_step j answer s =
     (if j < length (cl_dispatches s) \<and> can_answer (snd (cl_dispatches s ! j)) answer
      then (let d = fst (after_dispatch (fst (cl_dispatches s ! j)) answer (cl_db s))
            in if no_wait d s then s\<lparr>cl_db := d, cl_dispatches := remove_nth j (cl_dispatches s)\<rparr> else s)
      else s)"

definition drop_step :: "nat \<Rightarrow> cluster \<Rightarrow> cluster" where
  "drop_step j s =
     (if j < length (cl_dispatches s)
      then s\<lparr>cl_dispatches := remove_nth j (cl_dispatches s),
             cl_faults := c_query_id (fst (cl_dispatches s ! j)) # cl_faults s\<rparr>
      else s)"

section \<open>The workers' steps\<close>

definition set_app :: "nat \<Rightarrow> worker_app \<Rightarrow> cluster \<Rightarrow> cluster" where
  "set_app i app s = s\<lparr>cl_nodes := (cl_nodes s)[i := (cl_nodes s ! i)\<lparr>nd_app := app\<rparr>]\<rparr>"

text \<open>Task \<open>n\<close> of process \<open>i\<close>, if there is one.\<close>

definition task_at :: "nat \<Rightarrow> nat \<Rightarrow> cluster \<Rightarrow> query_task option" where
  "task_at i n s =
     (if i < length (cl_nodes s) \<and> n < length (wa_tasks (nd_app (cl_nodes s ! i)))
      then Some (wa_tasks (nd_app (cl_nodes s ! i)) ! n) else None)"

text \<open>The executor of a process answers a task.\<close>

definition executed_step :: "nat \<Rightarrow> nat \<Rightarrow> exec_result \<Rightarrow> cluster \<Rightarrow> cluster" where
  "executed_step i n res s =
     (case task_at i n s of
        None \<Rightarrow> s
      | Some t \<Rightarrow>
          (if tk_phase t = InExecute
           then (set_app i (executed n res (nd_app (cl_nodes s ! i))) s)
                  \<lparr>cl_runs := cl_runs s @ [(tk_query_id t, tk_query t, res)]\<rparr>
           else s))"

text \<open>A report arrives at the coordinator, and its outcome at the process. A report that never arrived
  and ends its task is a fault.\<close>

definition report_step :: "timestamp \<Rightarrow> nat \<Rightarrow> nat \<Rightarrow> cluster \<Rightarrow> cluster" where
  "report_step now i n s =
     (case task_at i n s of
        None \<Rightarrow> s
      | Some t \<Rightarrow>
          (case tk_phase t of
             InReport body in_try \<Rightarrow>
               (let d = fst (complete_query_route now (tk_query_id t) body (cl_db s))
                in if no_wait d s
                   then s\<lparr>cl_db := d, cl_nodes := (cl_nodes s)[i := (cl_nodes s ! i)
                          \<lparr>nd_arrived := n # nd_arrived (cl_nodes s ! i)\<rparr>]\<rparr>
                   else s)
           | _ \<Rightarrow> s))"

definition reported_step :: "nat \<Rightarrow> nat \<Rightarrow> unit outcome \<Rightarrow> string \<Rightarrow> cluster \<Rightarrow> cluster" where
  "reported_step i n answer text s =
     (case task_at i n s of
        None \<Rightarrow> s
      | Some t \<Rightarrow>
          (case tk_phase t of
             InReport body in_try \<Rightarrow>
               (set_app i (reported n answer text (nd_app (cl_nodes s ! i))) s)
                 \<lparr>cl_faults := (if n \<in> set (nd_arrived (cl_nodes s ! i)) \<or> answer = Raises \<and> in_try then []
                               else [tk_query_id t]) @ cl_faults s\<rparr>
           | _ \<Rightarrow> s))"

text \<open>A signal, the start of a process, and its end with or without a new start in its place.\<close>

definition signal_step :: "nat \<Rightarrow> cluster \<Rightarrow> cluster" where
  "signal_step i s =
     (if i < length (cl_nodes s) then set_app i (worker_step OpSignal (nd_app (cl_nodes s ! i))) s else s)"

definition boot_step :: "worker_settings \<Rightarrow> worker_state \<Rightarrow> cluster \<Rightarrow> cluster" where
  "boot_step settings st s = s\<lparr>cl_nodes := cl_nodes s @ [new_node settings st]\<rparr>"

definition working_ids :: "worker_app \<Rightarrow> uuid list" where
  "working_ids app = map tk_query_id (filter (\<lambda>t. tk_phase t \<noteq> TaskOver) (wa_tasks app))"

definition restart_step :: "nat \<Rightarrow> worker_settings \<Rightarrow> worker_state \<Rightarrow> cluster \<Rightarrow> cluster" where
  "restart_step i settings st s =
     (if i < length (cl_nodes s)
      then s\<lparr>cl_nodes := (cl_nodes s)[i := new_node settings st],
             cl_faults := working_ids (nd_app (cl_nodes s ! i)) @ cl_faults s\<rparr>
      else s)"

section \<open>All steps\<close>

datatype cluster_op =
    Commit store_op
  | BeginClaim nat timestamp timestamp "uuid option" int
  | AdvanceClaim nat
  | RollbackClaim nat
  | Arrive nat nat
  | Late nat nat
  | Answer nat "unit outcome"
  | DropDispatch nat
  | Execute nat nat exec_result
  | Report timestamp nat nat
  | ReportAnswer nat nat "unit outcome" string
  | Signal nat
  | Boot worker_settings worker_state
  | Restart nat worker_settings worker_state

fun cluster_step :: "cluster_op \<Rightarrow> cluster \<Rightarrow> cluster" where
  "cluster_step (Commit op) s = commit_step op s"
| "cluster_step (BeginClaim i utc now target stale) s = begin_step i utc now target stale s"
| "cluster_step (AdvanceClaim i) s = advance_step i s"
| "cluster_step (RollbackClaim i) s = rollback_step i s"
| "cluster_step (Arrive j i) s = arrive_step j i s"
| "cluster_step (Late j i) s = late_step j i s"
| "cluster_step (Answer j answer) s = answer_step j answer s"
| "cluster_step (DropDispatch j) s = drop_step j s"
| "cluster_step (Execute i n res) s = executed_step i n res s"
| "cluster_step (Report now i n) s = report_step now i n s"
| "cluster_step (ReportAnswer i n answer text) s = reported_step i n answer text s"
| "cluster_step (Signal i) s = signal_step i s"
| "cluster_step (Boot settings st) s = boot_step settings st s"
| "cluster_step (Restart i settings st) s = restart_step i settings st s"

end
