(* ===== verification/Cluster_Facts.thy ===== *)
theory Cluster_Facts
  imports Cluster
begin

text \<open>
  What the steps of the whole system do to the store and to single processes: which rows change and how,
  when the worker of a running query stays alive, and how the tasks of a process evolve.
\<close>

section \<open>The store under the steps\<close>

definition text_of :: "uuid \<Rightarrow> database \<Rightarrow> string option" where
  "text_of k d = map_option q_query (query_of k d)"

definition ended :: "uuid \<Rightarrow> database \<Rightarrow> bool" where
  "ended k d \<longleftrightarrow> (\<exists>q. query_of k d = Some q \<and> terminal (q_status q))"

text \<open>Every change of the store is a valid operation or the commit of a claim.\<close>

definition op_step :: "database \<Rightarrow> database \<Rightarrow> bool" where
  "op_step d d' \<longleftrightarrow> d' = d \<or> (\<exists>op. valid_op op \<and> d' = apply_op op d)"

definition assignable :: "query_row \<Rightarrow> worker_row \<Rightarrow> database \<Rightarrow> bool" where
  "assignable r w d \<longleftrightarrow> query_of (q_id r) d = Some r \<and> q_status r = ''pending'' \<and>
     w_id w \<in> w_id ` set (workers d)"

definition db_step :: "database \<Rightarrow> database \<Rightarrow> bool" where
  "db_step d d' \<longleftrightarrow> op_step d d' \<or> (\<exists>r w now. assignable r w d \<and> d' = committed_db r w now d)"

lemma op_stepI: "valid_op op \<Longrightarrow> d' = apply_op op d \<Longrightarrow> op_step d d'"
  by (auto simp: op_step_def)

lemma op_step_refl [simp]: "op_step d d"
  by (simp add: op_step_def)

lemma db_step_refl [simp]: "db_step d d"
  by (simp add: db_step_def)

lemma op_step_facts:
  assumes "op_step d d'" and "store_wf d"
  shows "store_wf d'" and "payload_limit d' = payload_limit d"
    and "text_of k d = Some t \<Longrightarrow> text_of k d' = Some t" and "ended k d \<Longrightarrow> ended k d'"
proof -
  show "store_wf d'" "payload_limit d' = payload_limit d"
    using assms store_wf_apply_op by (auto simp: op_step_def)
  show "text_of k d = Some t \<Longrightarrow> text_of k d' = Some t"
    using assms apply_op_row row_evolves_request by (fastforce simp: op_step_def text_of_def)
  show "ended k d \<Longrightarrow> ended k d'"
    using assms apply_op_terminal by (fastforce simp: op_step_def ended_def)
qed

lemma committed_facts:
  assumes "assignable r w d" and "store_wf d"
  shows "store_wf (committed_db r w now d)"
    and "text_of k (committed_db r w now d) = text_of k d" and "ended k (committed_db r w now d) = ended k d"
proof -
  have r: "query_of (q_id r) d = Some r" "q_status r = ''pending''" using assms(1) by (simp_all add: assignable_def)
  show "store_wf (committed_db r w now d)"
    using committed_wf [OF assms(2)] assms(1) by (simp add: assignable_def)
  show "text_of k (committed_db r w now d) = text_of k d"
    using r by (simp add: text_of_def query_of_committed del: committed_db_simps)
  show "ended k (committed_db r w now d) = ended k d"
    using r by (auto simp: ended_def query_of_committed terminal_def simp del: committed_db_simps)
qed

lemma db_step_facts:
  assumes "db_step d d'" and "store_wf d"
  shows "store_wf d'" and "payload_limit d' = payload_limit d"
    and "text_of k d = Some t \<Longrightarrow> text_of k d' = Some t" and "ended k d \<Longrightarrow> ended k d'"
proof -
  consider "op_step d d'" | (claimed) r w now where "assignable r w d" "d' = committed_db r w now d"
    using assms(1) unfolding db_step_def by blast
  then have "store_wf d' \<and> payload_limit d' = payload_limit d \<and>
    (text_of k d = Some t \<longrightarrow> text_of k d' = Some t) \<and> (ended k d \<longrightarrow> ended k d')"
  proof cases
    case 1
    with op_step_facts [OF 1 assms(2)] show ?thesis by blast
  next
    case claimed
    with committed_facts [OF claimed(1) assms(2)] show ?thesis by simp
  qed
  then show "store_wf d'" "payload_limit d' = payload_limit d"
    "text_of k d = Some t \<Longrightarrow> text_of k d' = Some t" "ended k d \<Longrightarrow> ended k d'" by blast+
qed

lemma other_op_valid: "other_op op \<Longrightarrow> valid_op op"
  by (cases op) auto

text \<open>What a failed dispatch does to the store.\<close>

lemma after_dispatch_db:
  "fst (after_dispatch c answer d) =
    (case answer of
       Reply status _ \<Rightarrow>
         if status = 202 then d
         else if status = 502 \<or> status = 503 then apply_op (OpUnreachable (c_worker_id c)) d
         else apply_op (OpRevert (c_query_id c)) d
     | HttpError _ \<Rightarrow> apply_op (OpUnreachable (c_worker_id c)) d
     | Raises \<Rightarrow> d)"
  by (auto simp: after_dispatch_def split: outcome.split)

lemma op_step_answer: "op_step d (fst (after_dispatch c answer d))"
  unfolding after_dispatch_db
  by (auto intro: op_stepI [of "OpUnreachable _"] op_stepI [of "OpRevert _"] split: outcome.split)

lemma op_step_report:
  "valid_complete_body body \<Longrightarrow> op_step d (fst (complete_query_route now k body d))"
  by (rule op_stepI [of "OpComplete now k (cb_status body) (cb_error body) (cb_result_row_count body)"])
     (auto simp: fst_complete_query_route valid_complete_body_def terminal_def)

section \<open>Rows under the steps\<close>

text \<open>The other tasks leave a row as it is, give it back, cancel it, or insert it.\<close>

lemma other_op_row:
  assumes "store_wf d" and "other_op op" and "query_of k (apply_op op d) = Some q'"
  obtains (new) "query_of k d = None" "q_status q' = ''pending''" "q_result_row_count q' = None"
  | (same) "query_of k d = Some q'"
  | (moved) q where "query_of k d = Some q" "\<not> terminal (q_status q)"
      "q' = lost_row q \<or> q' = requeued_row q \<or> (\<exists>now e. q' = cancelled_row now e q)"
proof -
  have upd: thesis
    if qs: "queries (apply_op op d) = sql_update cond f (queries d)"
      and f: "\<And>q. q_id (f q) = q_id q" and cond: "\<And>q. cond q \<Longrightarrow> \<not> terminal (q_status q)"
      and g: "\<And>q. f q = lost_row q \<or> f q = requeued_row q \<or> (\<exists>now e. f q = cancelled_row now e q)"
    for cond f
  proof -
    have "query_of k (apply_op op d) = map_option (\<lambda>q. if cond q then f q else q) (query_of k d)"
      unfolding qs by (rule row_of_update) (rule f)
    with assms(3) obtain q where "query_of k d = Some q" "q' = (if cond q then f q else q)" by auto
    with same moved cond g show thesis by (cases "cond q") auto
  qed
  have unchanged: thesis if "queries (apply_op op d) = queries d"
    using that assms(3) same by simp
  show thesis
  proof (cases op)
    case (OpUnreachable wid)
    then show thesis
      using queries_unreachable [of wid d] upd [of _ lost_row] unchanged by (auto simp: terminal_def)
  next
    case (OpSweep utc stale)
    then show thesis
      using queries_sweep [of utc stale d] unchanged
        upd [of "lost_in_sweep (utc - stale * second) d" lost_row]
      by (auto simp: terminal_def lost_in_sweep_def)
  next
    case (OpCancel now qid e)
    show thesis
    proof (rule upd)
      show "queries (apply_op op d) = sql_update (\<lambda>q. q_id q = qid \<and> q_status q \<in> {''pending'', ''running''})
          (cancelled_row now e) (queries d)"
        using OpCancel queries_cancelled by simp
    qed (auto simp: terminal_def)
  next
    case (OpRevert qid)
    then show thesis
      using queries_revert [of qid d] upd [of _ requeued_row] by (auto simp: terminal_def)
  next
    case (OpCreate fr now q c m sp u)
    show thesis
    proof (cases "query_of k d")
      case None
      then have "q_status q' = ''pending'' \<and> q_result_row_count q' = None"
        using assms(3) OpCreate
        by (auto simp: create_query_def Let_def sql_insert_def row_of_append row_of_Cons split: if_splits)
      with None new show thesis by simp
    next
      case (Some p)
      then have "query_of k (apply_op op d) = Some p"
        using OpCreate
        by (auto simp: create_query_def Let_def sql_insert_def row_of_append split: if_splits)
      with Some assms(3) same show thesis by simp
    qed
  qed (use assms(2) unchanged in simp_all)
qed

text \<open>The change of the store by a step that neither claims nor completes; the queries it strands are
  among the faults \<open>F\<close>.\<close>

definition quiet :: "uuid set \<Rightarrow> database \<Rightarrow> database \<Rightarrow> bool" where
  "quiet F d d' \<longleftrightarrow>
     d' = d \<or> (\<exists>op. other_op op \<and> d' = apply_op op d \<and> set (stranded_ids op d) \<subseteq> F)"

lemma quiet_answer: "quiet F d (fst (after_dispatch c answer d))"
proof -
  have step: "other_op op \<Longrightarrow> stranded_ids op d = [] \<Longrightarrow> quiet F d (apply_op op d)" for op
    by (auto simp: quiet_def)
  have "quiet F d (apply_op (OpUnreachable (c_worker_id c)) d)" "quiet F d (apply_op (OpRevert (c_query_id c)) d)"
    by (rule step; simp)+
  then show ?thesis
    unfolding after_dispatch_db by (auto simp: quiet_def split: outcome.split)
qed

lemma quiet_row:
  assumes "store_wf d" and "quiet F d d'" and "query_of k d' = Some q'"
  obtains (new) "query_of k d = None" "q_status q' = ''pending''" "q_result_row_count q' = None"
  | (same) "query_of k d = Some q'"
  | (moved) q where "query_of k d = Some q" "\<not> terminal (q_status q)"
      "q' = lost_row q \<or> q' = requeued_row q \<or> (\<exists>now e. q' = cancelled_row now e q)"
proof (cases "d' = d")
  case True
  with assms(3) same show thesis by simp
next
  case False
  with assms(2) obtain op where op: "other_op op" "d' = apply_op op d" by (auto simp: quiet_def)
  show thesis
    by (rule other_op_row [OF assms(1) op(1) assms(3) [unfolded op(2)]]) (use that in blast)+
qed

section \<open>Workers of running queries\<close>

lemma live_iff: "live w d \<longleftrightarrow> (\<exists>v. worker_of w d = Some v \<and> w_status v \<in> {''running'', ''shutting_down''})"
  by (auto simp: live_def split: option.split)

definition runs_on :: "uuid \<Rightarrow> uuid \<Rightarrow> database \<Rightarrow> bool" where
  "runs_on k w d \<longleftrightarrow>
     (\<exists>q. query_of k d = Some q \<and> q_status q = ''running'' \<and> q_worker_id q = Some w)"

lemma live_update:
  assumes "live w d" and "workers d' = sql_update cond f (workers d)" and "\<And>v. w_id (f v) = w_id v"
    and "\<And>v. worker_of w d = Some v \<Longrightarrow> cond v \<Longrightarrow> w_id v = w \<Longrightarrow>
      w_status v \<in> {''running'', ''shutting_down''} \<Longrightarrow> w_status (f v) \<in> {''running'', ''shutting_down''}"
  shows "live w d'"
proof -
  obtain v where v: "worker_of w d = Some v" "w_status v \<in> {''running'', ''shutting_down''}"
    using assms(1) by (auto simp: live_iff)
  moreover have "worker_of w d' = map_option (\<lambda>v. if cond v then f v else v) (worker_of w d)"
    unfolding assms(2) by (rule row_of_update) (rule assms(3))
  ultimately show ?thesis
    using assms(4) row_of_Some [OF v(1)] by (simp add: live_iff)
qed

text \<open>A worker that runs a query stays alive, unless it registers again or its queries are given back.\<close>

lemma live_kept:
  assumes "store_wf d" and "130 \<le> payload_limit d" and "other_op op" and live: "live w d"
    and before: "runs_on k w d" and after: "runs_on k w (apply_op op d)"
  shows "live w (apply_op op d) \<or> k \<in> set (stranded_ids op d)"
proof -
  obtain q where q: "query_of k d = Some q" "q_status q = ''running''" "q_worker_id q = Some w"
    using before by (auto simp: runs_on_def)
  then have mem: "q \<in> set (queries d)" "q_id q = k" using row_of_Some [OF q(1)] by auto
  obtain v where v: "worker_of w d = Some v" "w_status v \<in> {''running'', ''shutting_down''}"
    using live by (auto simp: live_iff)
  then have w: "w_id v = w" "v \<in> set (workers d)" using row_of_Some [OF v(1)] by auto
  have lost: False if "queries (apply_op op d) = sql_update cond lost_row (queries d)" "cond q" for cond
    using that q after row_of_update [of q_id lost_row k cond "queries d"] by (auto simp: runs_on_def)
  have same: ?thesis if "workers (apply_op op d) = workers d"
    using live that by (simp add: live_iff)
  show ?thesis
  proof (cases op)
    case (OpRegister fr now wid ep c m sp mx)
    show ?thesis
    proof (cases "coalesce wid fr = w")
      case True
      with OpRegister q mem show ?thesis by auto
    next
      case False
      have id: "(case wid of Some w \<Rightarrow> w | None \<Rightarrow> fr) = coalesce wid fr" by (cases wid) auto
      have "worker_of w (apply_op op d) = Some v"
      proof (cases "coalesce wid fr \<in> w_id ` set (workers d)")
        case in_use: True
        have "workers (apply_op op d) = sql_update (\<lambda>w. w_id w = coalesce wid fr)
            (\<lambda>w. w\<lparr>w_endpoint := ep, w_status := ''initializing'', w_cpus := c, w_memory := m,
               w_disk_space := sp, w_max_concurrent_queries := mx, w_last_heartbeat_at := now\<rparr>) (workers d)"
          using OpRegister in_use by (simp add: register_worker_def Let_def id)
        with False v w show ?thesis by (simp add: row_of_update)
      next
        case False
        with OpRegister v show ?thesis by (simp add: register_worker_def Let_def id row_of_append)
      qed
      with v(2) show ?thesis by (simp add: live_iff)
    qed
  next
    case (OpHeartbeat now wid c m sp st mu cu)
    have "live w (apply_op op d)"
      by (rule live_update [OF live], simp add: OpHeartbeat heartbeat_worker_def Let_def) (use OpHeartbeat assms(3) in auto)
    then show ?thesis ..
  next
    case (OpReady now wid)
    have "live w (apply_op op d)"
      by (rule live_update [OF live], simp add: OpReady ready_worker_def Let_def) (use OpReady in auto)
    then show ?thesis ..
  next
    case (OpShutdown now wid)
    have "live w (apply_op op d)"
      by (rule live_update [OF live], simp add: OpShutdown shutdown_worker_def Let_def) (use OpShutdown in auto)
    then show ?thesis ..
  next
    case (OpUnreachable wid)
    show ?thesis
    proof (cases "wid = w")
      case True
      have "w_status v = ''running'' \<or> w_status v = ''shutting_down''" using v(2) by simp
      from lost [of "\<lambda>q. q_worker_id q = Some w \<and> q_status q = ''running''"]
        unreachable_effect(3) [OF store_wf_pk(2) [OF assms(1)] assms(2) v(1) this] OpUnreachable True q
      show ?thesis by simp
    next
      case False
      consider "workers (apply_op op d) = workers d"
        | "workers (apply_op op d) = sql_update (\<lambda>w. w_id w = wid \<and> w_status w \<in> {''running'', ''shutting_down''})
             (\<lambda>w. w\<lparr>w_status := ''unreachable''\<rparr>) (workers d)"
        using workers_unreachable [of wid d] OpUnreachable by auto
      then show ?thesis
      proof cases
        case 1
        then show ?thesis by (rule same)
      next
        case 2
        have "live w (apply_op op d)" by (rule live_update [OF live 2]) (use False in auto)
        then show ?thesis ..
      qed
    qed
  next
    case (OpSweep utc stale)
    have "\<not> is_stale (utc - stale * second) v"
      using lost [of "lost_in_sweep (utc - stale * second) d"] sweep_effect(3) [OF assms(2)] OpSweep q w
      by (auto simp: lost_in_sweep_def)
    then have "live w (apply_op op d)"
      by (intro live_update [OF live]) (simp add: OpSweep sweep_effect(2) [OF assms(2)], use v(1) in auto)
    then show ?thesis ..
  qed (use assms(3) same in \<open>simp_all add: frame_lemmas\<close>)
qed

section \<open>Processes\<close>

definition node_ok :: "database \<Rightarrow> (uuid \<times> string \<times> exec_result) set \<Rightarrow> node \<Rightarrow> bool" where
  "node_ok d runs nd \<longleftrightarrow>
     app_inv (nd_app nd) \<and>
     (\<forall>n\<in>set (nd_arrived nd). n < length (wa_tasks (nd_app nd)) \<and>
        ended (tk_query_id (wa_tasks (nd_app nd) ! n)) d) \<and>
     (\<forall>t\<in>set (wa_tasks (nd_app nd)). text_of (tk_query_id t) d = Some (tk_query t) \<and>
        (\<forall>res. tk_result t = Some res \<longrightarrow> (tk_query_id t, tk_query t, res) \<in> runs))"

lemma node_ok_mono:
  assumes "node_ok d runs nd" and "db_step d d'" and "store_wf d" and "runs \<subseteq> runs'"
  shows "node_ok d' runs' nd"
  using assms(1,4) db_step_facts(3,4) [OF assms(2,3)] unfolding node_ok_def by blast

lemma node_ok_new: "node_ok d runs (new_node settings st)"
  by (simp add: node_ok_def new_node_def new_app_inv) (simp add: new_app_def)

text \<open>A delivery adds at most one task, for the dispatched query.\<close>

lemma deliver_cases:
  obtains (same) "deliver (dispatch_payload c) app = app"
  | (task) "wa_tasks (deliver (dispatch_payload c) app) = wa_tasks app @
      [\<lparr>tk_query_id = c_query_id c, tk_query = c_query c, tk_phase = InExecute, tk_result = None\<rparr>]"
  by (cases "wk_shutting_down (wa_state app) \<or>
        max_concurrent_queries (wa_settings app) \<le> int (running_task_count app)")
     (auto simp: deliver_def read_dispatch_payload run_query_def body_of_claim_def)

lemma deliver_inv: "app_inv app \<Longrightarrow> app_inv (deliver payload app)"
  by (simp add: deliver_def run_query_inv split: option.split)

lemma deliver_node_ok:
  assumes "node_ok d runs nd" and "text_of (c_query_id c) d = Some (c_query c)"
  shows "node_ok d runs (nd\<lparr>nd_app := deliver (dispatch_payload c) (nd_app nd)\<rparr>)"
proof (cases rule: deliver_cases [of c "nd_app nd"])
  case same
  then show ?thesis using assms(1) by (simp add: node_ok_def)
next
  case task
  with assms deliver_inv [of "nd_app nd" "dispatch_payload c"] show ?thesis
    by (auto simp: node_ok_def nth_append)
qed

text \<open>The executor's answer and the outcome of a report change one task, not its query.\<close>

lemma executed_tasks:
  assumes "n < length (wa_tasks app)" and "tk_phase (wa_tasks app ! n) = InExecute"
  shows "wa_tasks (executed n res app) = (wa_tasks app)[n := (wa_tasks app ! n)
    \<lparr>tk_phase := case_prod InReport (report_of res), tk_result := Some res\<rparr>]"
  using assms by (simp add: executed_def)

lemma reported_tasks:
  assumes "n < length (wa_tasks app)" and "tk_phase (wa_tasks app ! n) = InReport body in_try"
  shows "wa_tasks (reported n answer text app) = (wa_tasks app)[n := (wa_tasks app ! n)
    \<lparr>tk_phase := if answer = Raises \<and> in_try then InReport (failed_body text) False else TaskOver\<rparr>]"
  using assms by (simp add: reported_def Let_def)

lemma node_ok_update:
  assumes "node_ok d runs nd" and "app_inv app'"
    and "wa_tasks app' = (wa_tasks (nd_app nd))[n := t']" and "n < length (wa_tasks (nd_app nd))"
    and "tk_query_id t' = tk_query_id (wa_tasks (nd_app nd) ! n)"
    and "tk_query t' = tk_query (wa_tasks (nd_app nd) ! n)"
    and "\<And>res. tk_result t' = Some res \<Longrightarrow> (tk_query_id t', tk_query t', res) \<in> runs'" and "runs \<subseteq> runs'"
  shows "node_ok d runs' (nd\<lparr>nd_app := app'\<rparr>)"
proof -
  let ?ts = "wa_tasks (nd_app nd)"
  have n: "?ts ! n \<in> set ?ts" using assms(4) by simp
  have "text_of (tk_query_id t) d = Some (tk_query t) \<and>
      (\<forall>res. tk_result t = Some res \<longrightarrow> (tk_query_id t, tk_query t, res) \<in> runs')"
    if "t \<in> set (?ts[n := t'])" for t
  proof -
    from that consider "t = t'" | "t \<in> set ?ts"
      using set_update_subset_insert [of ?ts n t'] by blast
    then show ?thesis
    proof cases
      case 1
      with assms(1,5-7) n show ?thesis by (auto simp: node_ok_def)
    next
      case 2
      with assms(1,8) show ?thesis by (auto simp: node_ok_def)
    qed
  qed
  moreover have "m < length (?ts[n := t']) \<and> ended (tk_query_id (?ts[n := t'] ! m)) d"
    if "m \<in> set (nd_arrived nd)" for m
    using that assms(1,5) by (cases "m = n") (auto simp: node_ok_def)
  ultimately show ?thesis
    using assms(2,3) by (simp add: node_ok_def)
qed

lemma report_body:
  assumes "app_inv app" and "n < length (wa_tasks app)" and "tk_phase (wa_tasks app ! n) = InReport body in_try"
  obtains res where "tk_result (wa_tasks app ! n) = Some res"
    and "body = fst (report_of res) \<or> (\<exists>s. body = failed_body s)"
proof -
  from assms have fit: "reports_fit (InReport body in_try) (tk_result (wa_tasks app ! n)) (reports_of n app)"
    by (auto simp: app_inv_def tasks_ok_def task_ok_def)
  then obtain res where res: "tk_result (wa_tasks app ! n) = Some res"
    by (cases "tk_result (wa_tasks app ! n)") auto
  with fit have "body = fst (report_of res) \<or> (\<exists>s. body = failed_body s)"
    by auto
  with res that show ?thesis by blast
qed

lemma report_body_valid:
  assumes "app_inv app" and "n < length (wa_tasks app)" and "tk_phase (wa_tasks app ! n) = InReport body in_try"
  shows "valid_complete_body body"
proof -
  from report_body [OF assms] obtain res where "body = fst (report_of res) \<or> (\<exists>s. body = failed_body s)" .
  with report_valid [of res] show ?thesis by (auto simp: valid_complete_body_def failed_body_def)
qed

text \<open>A report that arrives ends its query.\<close>

lemma report_ends:
  assumes "store_wf d" and "query_of k d \<noteq> None" and "valid_complete_body body"
  shows "ended k (fst (complete_query_route now k body d))"
proof -
  from assms(2) obtain q where q: "query_of k d = Some q" by blast
  with row_of_iff [OF store_wf_pk(1) [OF assms(1)]] have mem: "q \<in> set (queries d)" and id: "q_id q = k" by auto
  have "query_of k (fst (complete_query_route now k body d)) =
      Some (if q_status q \<in> {''running'', ''pending''}
        then completed_row now (cb_status body) (cb_error body) (cb_result_row_count body) q else q)"
    using q id by (simp add: fst_complete_query_route queries_complete row_of_update)
  moreover have "q_status q \<in> {''running'', ''pending''} \<or> terminal (q_status q)"
    using assms(1) mem by (auto simp: store_wf_def query_ok_def)
  ultimately show ?thesis
    using assms(3) by (auto simp: ended_def valid_complete_body_def)
qed

end
