(* ===== verification/Cluster_Invariant.thy ===== *)
theory Cluster_Invariant
  imports Cluster_Facts
begin

text \<open>
  The invariants of the whole system, each with the lemma that every step keeps it: the store and the
  processes are in order, dispatches and tasks carry the texts of their queries, final rows hold results
  of executions, running queries have live workers, and a running query is awaited or settled.
\<close>

section \<open>The invariants\<close>

definition basic_ok :: "cluster \<Rightarrow> bool" where
  "basic_ok s \<longleftrightarrow> tx_inv POOL_MAX_SIZE (pool_of s) \<and> 130 \<le> payload_limit (cl_db s)"

lemma pool_of_db [simp]: "tx_db (pool_of s) = cl_db s"
  by (simp add: pool_of_def)

lemma basic_okD:
  assumes "basic_ok s"
  shows "tx_inv POOL_MAX_SIZE (pool_of s)" and "store_wf (cl_db s)" and "130 \<le> payload_limit (cl_db s)"
  using assms tx_invD(1) [of POOL_MAX_SIZE "pool_of s"] by (simp_all add: basic_ok_def)

definition nodes_ok :: "cluster \<Rightarrow> bool" where
  "nodes_ok s \<longleftrightarrow> (\<forall>nd\<in>set (cl_nodes s). node_ok (cl_db s) (set (cl_runs s)) nd)"

definition sent_ok :: "cluster \<Rightarrow> bool" where
  "sent_ok s \<longleftrightarrow> (\<forall>c\<in>set (cl_sent s). text_of (c_query_id c) (cl_db s) = Some (c_query c)) \<and>
     fst ` set (cl_dispatches s) \<subseteq> set (cl_sent s)"

lemmas step_defs = commit_step_def begin_step_def advance_step_def rollback_step_def arrive_step_def late_step_def answer_step_def drop_step_def
  executed_step_def report_step_def reported_step_def signal_step_def boot_step_def restart_step_def
  set_app_def Let_def

text \<open>A statement of a claim changes nothing but its claim, or commits the claim.\<close>

lemma advance_step_same [simp]: "cl_nodes (advance_step i s) = cl_nodes s" "cl_runs (advance_step i s) = cl_runs s"
  by (simp_all add: advance_step_def Let_def)

lemma advance_step_cases:
  assumes "basic_ok s"
  obtains (same) "cl_db (advance_step i s) = cl_db s" "cl_dispatches (advance_step i s) = cl_dispatches s"
      "cl_sent (advance_step i s) = cl_sent s" "cl_faults (advance_step i s) = cl_faults s"
  | (claimed) r w now c where "assignable r w (cl_db s)"
      "cl_db (advance_step i s) = committed_db r w now (cl_db s)"
      "c_query_id c = q_id r" "c_query c = q_query r" "c_worker_id c = w_id w"
      "cl_dispatches (advance_step i s) = cl_dispatches s @ [(c, None)]"
      "cl_sent (advance_step i s) = cl_sent s @ [c]"
      "cl_faults (advance_step i s) = (if live (w_id w) (cl_db s) then [] else [q_id r]) @ cl_faults s"
proof -
  note inv = basic_okD(1) [OF assms]
  show thesis
  proof (cases rule: advance_db [OF inv, of i, case_names same assigned])
    case same
    then show thesis
      by (intro that(1)) (simp_all add: advance_step_def Let_def pool_of_def)
  next
    case (assigned r w now)
    from assigned(4) obtain c where c: "tx_log (advance_claim POOL_MAX_SIZE i (pool_of s)) = [c]"
        "c_query_id c = q_id r" "c_query c = q_query r" "c_worker_id c = w_id w"
      by (auto simp: pool_of_def)
    have "assignable r w (cl_db s)"
      using tx_invD(3,4) [OF inv assigned(1)] tx_invD(6) [OF inv assigned(2)] by (simp add: assignable_def)
    with assigned(3) c show thesis
      by (intro that(2)) (auto simp: advance_step_def Let_def)
  qed
qed

lemma answer_step_cases:
  obtains (none) "answer_step j answer s = s"
  | (answered) c a where "j < length (cl_dispatches s)" "cl_dispatches s ! j = (c, a)" "can_answer a answer"
      "no_wait (fst (after_dispatch c answer (cl_db s))) s"
      "answer_step j answer s = s\<lparr>cl_db := fst (after_dispatch c answer (cl_db s)),
         cl_dispatches := remove_nth j (cl_dispatches s)\<rparr>"
proof (cases "j < length (cl_dispatches s) \<and> can_answer (snd (cl_dispatches s ! j)) answer \<and>
    no_wait (fst (after_dispatch (fst (cl_dispatches s ! j)) answer (cl_db s))) s")
  case True
  with answered show thesis by (cases "cl_dispatches s ! j") (simp add: answer_step_def)
next
  case False
  then have "answer_step j answer s = s" by (auto simp: answer_step_def Let_def)
  with none show thesis .
qed

text \<open>The steps of a task either do nothing or meet the task in the phase they wait for.\<close>

lemma task_at_Some:
  assumes "task_at i n s = Some t"
  shows "i < length (cl_nodes s)" and "n < length (wa_tasks (nd_app (cl_nodes s ! i)))"
    and "t = wa_tasks (nd_app (cl_nodes s ! i)) ! n"
  using assms by (auto simp: task_at_def split: if_splits)

lemma arrive_step_cases:
  obtains (none) "arrive_step j i s = s"
  | (task) nd c where "j < length (cl_dispatches s)" "cl_dispatches s ! j = (c, None)" "i < length (cl_nodes s)"
      "nd = cl_nodes s ! i" "arrive_step j i s =
        s\<lparr>cl_nodes := (cl_nodes s)[i := nd\<lparr>nd_app := deliver (dispatch_payload c) (nd_app nd)\<rparr>],
          cl_dispatches := (cl_dispatches s)
            [j := (c, answered_status (worker_answer (nd_app nd) (dispatch_payload c)))]\<rparr>"
proof (cases "j < length (cl_dispatches s) \<and> snd (cl_dispatches s ! j) = None \<and> i < length (cl_nodes s)")
  case True
  with task show thesis by (cases "cl_dispatches s ! j") (simp add: arrive_step_def Let_def)
next
  case False
  then have "arrive_step j i s = s" unfolding arrive_step_def by (rule if_not_P)
  with none show thesis .
qed

lemma executed_step_cases:
  obtains (none) "executed_step i n res s = s"
  | (task) nd t where "i < length (cl_nodes s)" "nd = cl_nodes s ! i" "n < length (wa_tasks (nd_app nd))"
      "t = wa_tasks (nd_app nd) ! n" "tk_phase t = InExecute"
      "executed_step i n res s = s\<lparr>cl_nodes := (cl_nodes s)[i := nd\<lparr>nd_app := executed n res (nd_app nd)\<rparr>],
        cl_runs := cl_runs s @ [(tk_query_id t, tk_query t, res)]\<rparr>"
proof (cases "task_at i n s")
  case None
  with none show ?thesis by (simp add: executed_step_def)
next
  case (Some t)
  with none task task_at_Some [OF Some] show ?thesis
    by (cases "tk_phase t") (simp_all add: executed_step_def set_app_def)
qed

lemma report_step_cases:
  obtains (none) "report_step now i n s = s"
  | (task) nd t body in_try where "i < length (cl_nodes s)" "nd = cl_nodes s ! i"
      "n < length (wa_tasks (nd_app nd))" "t = wa_tasks (nd_app nd) ! n" "tk_phase t = InReport body in_try"
      "no_wait (fst (complete_query_route now (tk_query_id t) body (cl_db s))) s"
      "report_step now i n s = s\<lparr>cl_db := fst (complete_query_route now (tk_query_id t) body (cl_db s)),
         cl_nodes := (cl_nodes s)[i := nd\<lparr>nd_arrived := n # nd_arrived nd\<rparr>]\<rparr>"
proof (cases "task_at i n s")
  case None
  with none show ?thesis by (simp add: report_step_def)
next
  case (Some t)
  note at = task_at_Some [OF Some]
  show ?thesis
  proof (cases "\<exists>body in_try. tk_phase t = InReport body in_try \<and>
      no_wait (fst (complete_query_route now (tk_query_id t) body (cl_db s))) s")
    case True
    with Some task [OF at(1) refl at(2,3)] show ?thesis by (auto simp: report_step_def)
  next
    case False
    with Some have "report_step now i n s = s"
      by (auto simp: report_step_def Let_def split: task_phase.split)
    with none show ?thesis .
  qed
qed

lemma reported_step_cases:
  obtains (none) "reported_step i n answer text s = s"
  | (task) nd t body in_try where "i < length (cl_nodes s)" "nd = cl_nodes s ! i"
      "n < length (wa_tasks (nd_app nd))" "t = wa_tasks (nd_app nd) ! n" "tk_phase t = InReport body in_try"
      "reported_step i n answer text s =
        s\<lparr>cl_nodes := (cl_nodes s)[i := nd\<lparr>nd_app := reported n answer text (nd_app nd)\<rparr>],
          cl_faults := (if n \<in> set (nd_arrived nd) \<or> answer = Raises \<and> in_try then []
                        else [tk_query_id t]) @ cl_faults s\<rparr>"
proof (cases "task_at i n s")
  case None
  with none show ?thesis by (simp add: reported_step_def)
next
  case (Some t)
  with none task task_at_Some [OF Some] show ?thesis
    by (cases "tk_phase t") (simp_all add: reported_step_def set_app_def)
qed

lemma nodes_okD: "nodes_ok s \<Longrightarrow> i < length (cl_nodes s) \<Longrightarrow> node_ok (cl_db s) (set (cl_runs s)) (cl_nodes s ! i)"
  by (simp add: nodes_ok_def)

lemma nodes_ok_app: "nodes_ok s \<Longrightarrow> i < length (cl_nodes s) \<Longrightarrow> app_inv (nd_app (cl_nodes s ! i))"
  using nodes_okD by (auto simp: node_ok_def)

lemma cluster_db_step:
  assumes "basic_ok s" and "nodes_ok s"
  shows "db_step (cl_db s) (cl_db (cluster_step op s))"
proof (cases op)
  case (Commit op')
  then show ?thesis
    using other_op_valid by (auto simp: step_defs db_step_def intro: op_stepI)
next
  case (AdvanceClaim i)
  from assms(1) show ?thesis
  proof (cases rule: advance_step_cases [where i = i, consumes 1, case_names same claimed])
    case (claimed r w now c)
    with AdvanceClaim show ?thesis by (auto simp: db_step_def)
  qed (simp add: AdvanceClaim)
next
  case (Answer j answer)
  show ?thesis
  proof (cases rule: answer_step_cases [of j answer s])
    case (answered c a)
    with Answer op_step_answer show ?thesis by (simp add: db_step_def)
  qed (simp add: Answer)
next
  case (Report now i n)
  show ?thesis
  proof (cases rule: report_step_cases [of now i n s])
    case (task nd t body in_try)
    then show ?thesis
      using Report report_body_valid [OF nodes_ok_app [OF assms(2)]] op_step_report by (auto simp: db_step_def)
  qed (simp add: Report)
qed (simp_all add: step_defs split: option.split task_phase.split)

text \<open>What a step does to the claims: none of them notices a change of rows they have not locked.\<close>

lemma kept_rows_inv:
  assumes "tx_inv n p" and "op_step (tx_db p) d" and "keeps_locked n p d"
  shows "tx_inv n (p\<lparr>tx_db := d\<rparr>)"
proof (cases "d = tx_db p")
  case False
  with assms(2) obtain op where op: "valid_op op" "d = apply_op op (tx_db p)" by (auto simp: op_step_def)
  with commit_inv [OF assms(1) op(1)] assms(3) show ?thesis by (simp add: commit_op_def Let_def)
qed (use assms(1) in simp)

lemma pool_of_upd [simp]:
  "pool_of (s\<lparr>cl_db := d\<rparr>) = (pool_of s)\<lparr>tx_db := d\<rparr>"
  "pool_of (s\<lparr>cl_claims := cs\<rparr>) = (pool_of s)\<lparr>tx_claims := cs\<rparr>"
  "pool_of (s\<lparr>cl_dispatches := ds\<rparr>) = pool_of s" "pool_of (s\<lparr>cl_sent := l\<rparr>) = pool_of s"
  "pool_of (s\<lparr>cl_nodes := nds\<rparr>) = pool_of s" "pool_of (s\<lparr>cl_runs := rs\<rparr>) = pool_of s"
  "pool_of (s\<lparr>cl_faults := fs\<rparr>) = pool_of s"
  by (simp_all add: pool_of_def)

lemma rollback_inv:
  assumes inv: "tx_inv n p"
  shows "tx_inv n (p\<lparr>tx_claims := (tx_claims p)(i := None)\<rparr>)"
proof -
  let ?p = "p\<lparr>tx_claims := (tx_claims p)(i := None)\<rparr>"
  have at: "state_at ?p j = (if j = i then None else state_at p j)"
      "held_at ?p j = (if j = i then None else held_at p j)"
      "chosen_at ?p j = (if j = i then None else chosen_at p j)" for j
    by (simp_all add: state_at_def held_at_def chosen_at_def)
  note I = tx_invD [OF inv]
  have "claims_ok n ?p"
    by (rule claims_okI) (use I(2-5,7,8) in \<open>auto simp: at split: if_splits\<close>, use I(6) in blast)
  with I(1) show ?thesis by (simp add: tx_inv_def)
qed

lemma tx_inv_log [simp]: "tx_inv n (p\<lparr>tx_log := l\<rparr>) = tx_inv n p"
  by (simp add: tx_inv_def)

lemma claims_kept:
  assumes "basic_ok s" and "nodes_ok s"
  shows "tx_inv POOL_MAX_SIZE (pool_of (cluster_step op s))"
proof -
  note inv = basic_okD(1) [OF assms(1)]
  have moved: "tx_inv POOL_MAX_SIZE ((pool_of s)\<lparr>tx_db := d\<rparr>)" if "op_step (cl_db s) d" "no_wait d s" for d
    by (rule kept_rows_inv [OF inv]) (use that in \<open>simp_all add: no_wait_def\<close>)
  have whole: "tx_inv POOL_MAX_SIZE (pool_of s')"
    if "tx_inv POOL_MAX_SIZE p" "cl_db s' = tx_db p" "cl_claims s' = tx_claims p" for p s'
  proof -
    have "pool_of s' = p\<lparr>tx_log := []\<rparr>" using that(2,3) by (simp add: pool_of_def)
    with that(1) show ?thesis by simp
  qed
  show ?thesis
  proof (cases op)
    case (Commit op')
    then show ?thesis
      using inv moved [OF op_stepI [OF other_op_valid refl]] by (auto simp: step_defs)
  next
    case (BeginClaim i utc now target stale)
    show ?thesis by (rule whole [OF begin_inv [OF inv, of i utc now target stale]]) (simp_all add: BeginClaim step_defs)
  next
    case (AdvanceClaim i)
    show ?thesis by (rule whole [OF advance_inv [OF inv, of i]]) (simp_all add: AdvanceClaim step_defs)
  next
    case (RollbackClaim i)
    with rollback_inv [OF inv, of i] show ?thesis by (simp add: step_defs) (simp add: pool_of_def)
  next
    case (Answer j answer)
    show ?thesis
    proof (cases rule: answer_step_cases [of j answer s])
      case (answered c a)
      with Answer moved [OF op_step_answer] show ?thesis by simp
    qed (use inv Answer in simp)
  next
    case (Report now i n)
    show ?thesis
    proof (cases rule: report_step_cases [of now i n s])
      case (task nd t body in_try)
      then show ?thesis
        using Report report_body_valid [OF nodes_ok_app [OF assms(2)]] moved [OF op_step_report] by auto
    qed (use inv Report in simp)
  qed (use inv in \<open>simp_all add: step_defs split: option.split task_phase.split\<close>)
qed

lemma basic_step:
  assumes "basic_ok s" and "nodes_ok s"
  shows "basic_ok (cluster_step op s)"
  using claims_kept [OF assms] db_step_facts(2) [OF cluster_db_step [OF assms] basic_okD(2) [OF assms(1)]]
    basic_okD(3) [OF assms(1)]
  by (simp add: basic_ok_def)

lemma nodes_okI:
  assumes "nodes_ok s" and "basic_ok s" and "db_step (cl_db s) (cl_db s')" and "set (cl_runs s) \<subseteq> set (cl_runs s')"
    and "\<And>nd. nd \<in> set (cl_nodes s') \<Longrightarrow> nd \<in> set (cl_nodes s) \<or>
      node_ok (cl_db s) (set (cl_runs s')) nd \<or> node_ok (cl_db s') (set (cl_runs s')) nd"
  shows "nodes_ok s'"
  unfolding nodes_ok_def
proof
  fix nd assume nd: "nd \<in> set (cl_nodes s')"
  have wf: "store_wf (cl_db s)" by (rule basic_okD(2) [OF assms(2)])
  from assms(5) [OF nd] show "node_ok (cl_db s') (set (cl_runs s')) nd"
    using node_ok_mono [OF _ assms(3) wf] assms(1,4) unfolding nodes_ok_def by blast
qed

lemma cluster_runs: "set (cl_runs s) \<subseteq> set (cl_runs (cluster_step op s))"
  by (cases op) (auto simp: step_defs split: option.split task_phase.split)

lemma nodes_step:
  assumes "basic_ok s" and "nodes_ok s" and "sent_ok s"
  shows "nodes_ok (cluster_step op s)"
proof (rule nodes_okI [OF assms(2,1) cluster_db_step [OF assms(1,2)] cluster_runs])
  fix nd' assume nd': "nd' \<in> set (cl_nodes (cluster_step op s))"
  have upd: "nd' \<in> set (cl_nodes s) \<or> nd' = nd" if "nd' \<in> set ((cl_nodes s)[i := nd])" for i nd
    using set_update_subset_insert [of "cl_nodes s" i nd] that by blast
  have sent: "text_of (c_query_id c) (cl_db s) = Some (c_query c)" if "c \<in> set (cl_sent s)" for c
    using assms(3) that by (simp add: sent_ok_def)
  note ok = nodes_okD [OF assms(2)]
  show "nd' \<in> set (cl_nodes s) \<or> node_ok (cl_db s) (set (cl_runs (cluster_step op s))) nd' \<or>
      node_ok (cl_db (cluster_step op s)) (set (cl_runs (cluster_step op s))) nd'"
  proof (cases op)
    case (Arrive j i)
    show ?thesis
    proof (cases rule: arrive_step_cases [of j i s])
      case none
      with nd' Arrive show ?thesis by simp
    next
      case (task nd c)
      have "c \<in> set (cl_sent s)"
        using assms(3) nth_mem [OF task(1)] task(2) by (force simp: sent_ok_def)
      from deliver_node_ok [OF _ sent [OF this]] ok [OF task(3)] task(4)
      have "node_ok (cl_db s) (set (cl_runs s)) (nd\<lparr>nd_app := deliver (dispatch_payload c) (nd_app nd)\<rparr>)"
        by simp
      with nd' Arrive task(5) show ?thesis by (auto dest: upd)
    qed
  next
    case (Late j i)
    then show ?thesis
      using nd' deliver_node_ok [OF ok sent] by (auto simp: step_defs dest!: upd split: if_splits)
  next
    case (Execute i n res)
    show ?thesis
    proof (cases rule: executed_step_cases [of i n res s])
      case none
      with nd' Execute show ?thesis by simp
    next
      case (task nd t)
      have "node_ok (cl_db s) (set (cl_runs (cluster_step op s))) (nd\<lparr>nd_app := executed n res (nd_app nd)\<rparr>)"
      proof (rule node_ok_update [OF _ _ executed_tasks])
        show "node_ok (cl_db s) (set (cl_runs s)) nd" using ok [OF task(1)] task(2) by simp
        then show "app_inv (executed n res (nd_app nd))" by (simp add: node_ok_def executed_inv)
      qed (use task Execute in auto)
      with nd' Execute task(6) show ?thesis by (auto dest: upd)
    qed
  next
    case (Report now i n)
    show ?thesis
    proof (cases rule: report_step_cases [of now i n s])
      case none
      with nd' Report show ?thesis by simp
    next
      case (task nd t body in_try)
      let ?d = "cl_db (cluster_step op s)"
      have nd: "node_ok (cl_db s) (set (cl_runs s)) nd" using ok [OF task(1)] task(2) by simp
      have "node_ok ?d (set (cl_runs s)) nd"
        using node_ok_mono [OF nd cluster_db_step [OF assms(1,2), of op]] basic_okD(2) [OF assms(1)] by simp
      moreover have "ended (tk_query_id t) ?d"
      proof -
        have "t \<in> set (wa_tasks (nd_app nd))" using task(3,4) by simp
        with nd have "query_of (tk_query_id t) (cl_db s) \<noteq> None" by (auto simp: node_ok_def text_of_def)
        moreover have "valid_complete_body body"
          using report_body_valid [OF nodes_ok_app [OF assms(2) task(1)]] task(2-5) by auto
        ultimately show ?thesis
          using report_ends basic_okD(2) [OF assms(1)] task(7) Report by simp
      qed
      ultimately have "node_ok ?d (set (cl_runs s)) (nd\<lparr>nd_arrived := n # nd_arrived nd\<rparr>)"
        using task(3,4) by (simp add: node_ok_def)
      with nd' Report task(7) show ?thesis by (auto dest: upd)
    qed
  next
    case (ReportAnswer i n answer msg)
    show ?thesis
    proof (cases rule: reported_step_cases [of i n answer msg s])
      case none
      with nd' ReportAnswer show ?thesis by simp
    next
      case (task nd t body in_try)
      have "node_ok (cl_db s) (set (cl_runs s)) (nd\<lparr>nd_app := reported n answer msg (nd_app nd)\<rparr>)"
      proof (rule node_ok_update [OF _ _ reported_tasks])
        show nd: "node_ok (cl_db s) (set (cl_runs s)) nd" using ok [OF task(1)] task(2) by simp
        then show "app_inv (reported n answer msg (nd_app nd))" by (simp add: node_ok_def reported_inv)
      qed (use task ok [OF task(1)] in \<open>auto simp: node_ok_def\<close>)
      with nd' ReportAnswer task(6) show ?thesis by (auto dest: upd)
    qed
  next
    case (Signal i)
    then show ?thesis
      using nd' ok by (auto simp: step_defs node_ok_def signal_inv dest!: upd split: if_splits)
    next
    case (AdvanceClaim i)
    with nd' show ?thesis by simp
  next
    case (Answer j answer)
    with nd' show ?thesis
      by (cases rule: answer_step_cases [of j answer s]) simp_all
  qed (use nd' node_ok_new in \<open>auto simp: step_defs dest!: upd split: if_splits\<close>)
qed

text \<open>Every step is quiet, commits a claim, or handles a report.\<close>

lemma cluster_db_cases:
  assumes "basic_ok s"
  obtains (quiet) "quiet (set (cl_faults (cluster_step op s))) (cl_db s) (cl_db (cluster_step op s))"
  | (claim) i r w now c where "op = AdvanceClaim i" "assignable r w (cl_db s)"
      "cl_db (cluster_step op s) = committed_db r w now (cl_db s)"
      "c_query_id c = q_id r" "c_worker_id c = w_id w"
      "(c, None) \<in> set (cl_dispatches (cluster_step op s))"
      "live (w_id w) (cl_db s) \<or> q_id r \<in> set (cl_faults (cluster_step op s))"
  | (report) now i n nd t body in_try where "op = Report now i n" "i < length (cl_nodes s)"
      "nd = cl_nodes s ! i" "n < length (wa_tasks (nd_app nd))" "t = wa_tasks (nd_app nd) ! n"
      "tk_phase t = InReport body in_try"
      "cl_db (cluster_step op s) = fst (complete_query_route now (tk_query_id t) body (cl_db s))"
proof (cases op)
  case (Commit op')
  then have "quiet (set (cl_faults (cluster_step op s))) (cl_db s) (cl_db (cluster_step op s))"
    by (auto simp: step_defs quiet_def)
  with quiet show thesis .
next
  case (AdvanceClaim i)
  from assms show thesis
  proof (cases rule: advance_step_cases [where i = i, consumes 1, case_names same claimed])
    case same
    with AdvanceClaim quiet show thesis by (simp add: quiet_def)
  next
    case (claimed r w now c)
    with AdvanceClaim show thesis by (intro claim [of i r w now c]) auto
  qed
next
  case (Answer j answer)
  show thesis
  proof (cases rule: answer_step_cases [of j answer s])
    case none
    with Answer quiet show thesis by (simp add: quiet_def)
  next
    case (answered c a)
    with Answer quiet quiet_answer show thesis by simp
  qed
next
  case (Report now i n)
  show thesis
  proof (cases rule: report_step_cases [of now i n s])
    case none
    with Report quiet show thesis by (simp add: quiet_def)
  next
    case (task nd t body in_try)
    with Report report show thesis by simp
  qed
qed (use quiet in \<open>simp_all add: step_defs quiet_def split: option.splits task_phase.splits if_splits\<close>)

section \<open>Texts of dispatches\<close>

lemma set_remove_nth: "set (remove_nth j xs) \<subseteq> set xs"
  by (auto simp: remove_nth_def dest: in_set_takeD in_set_dropD)

lemma sent_step:
  assumes "basic_ok s" and "nodes_ok s" and "sent_ok s"
  shows "sent_ok (cluster_step op s)"
proof -
  have wf: "store_wf (cl_db s)" "130 \<le> payload_limit (cl_db s)" using basic_okD [OF assms(1)] by simp_all
  let ?d' = "cl_db (cluster_step op s)"
  have old: "text_of (c_query_id c) ?d' = Some (c_query c)" if "c \<in> set (cl_sent s)" for c
    using that assms(3) db_step_facts(3) [OF cluster_db_step [OF assms(1,2)] wf(1)] by (simp add: sent_ok_def)
  have same: ?thesis if "cl_sent (cluster_step op s) = cl_sent s"
    "fst ` set (cl_dispatches (cluster_step op s)) \<subseteq> set (cl_sent s)"
    using that old by (simp add: sent_ok_def)
  have ds: "fst ` set (cl_dispatches s) \<subseteq> set (cl_sent s)" using assms(3) by (simp add: sent_ok_def)
  show ?thesis
  proof (cases op)
    case (AdvanceClaim i)
    from assms(1) show ?thesis
    proof (cases rule: advance_step_cases [where i = i, consumes 1, case_names stays claimed])
      case stays
      with AdvanceClaim ds show ?thesis by (intro same) simp_all
    next
      case (claimed r w now c)
      have "text_of (c_query_id c) (cl_db s) = Some (c_query c)"
        using claimed(1,3,4) by (simp add: text_of_def assignable_def)
      then have "text_of (c_query_id c) ?d' = Some (c_query c)"
        by (rule db_step_facts(3) [OF cluster_db_step [OF assms(1,2)] wf(1)])
      with AdvanceClaim claimed(6,7) old ds show ?thesis
        by (auto simp: sent_ok_def)
    qed
  next
    case (Arrive j i)
    have "fst ` set ((cl_dispatches s)[j := (fst (cl_dispatches s ! j), a)]) \<subseteq> set (cl_sent s)"
      if "j < length (cl_dispatches s)" for a
      using ds that set_update_subset_insert [of "cl_dispatches s" j "(fst (cl_dispatches s ! j), a)"]
        nth_mem [OF that] by fastforce
    with Arrive ds show ?thesis by (intro same) (auto simp: step_defs)
  next
    case (Answer j answer)
    with ds set_remove_nth [of j "cl_dispatches s"] show ?thesis
      by (intro same; cases rule: answer_step_cases [of j answer s]) auto
  next
    case (DropDispatch j)
    with ds set_remove_nth [of j "cl_dispatches s"] show ?thesis
      by (intro same) (auto simp: step_defs split: if_splits)
  qed (rule same; use ds in \<open>auto simp: step_defs split: option.splits task_phase.splits if_splits\<close>)+
qed

section \<open>Results\<close>

definition result_ok :: "(uuid \<times> string \<times> exec_result) set \<Rightarrow> query_row \<Rightarrow> bool" where
  "result_ok runs q \<longleftrightarrow>
     (q_status q = ''completed'' \<longrightarrow>
        (\<exists>v. (q_id q, q_query q, Inr v) \<in> runs \<and> row_count_field v = Inr (q_result_row_count q))) \<and>
     (q_status q = ''failed'' \<longrightarrow> (\<exists>res. (q_id q, q_query q, res) \<in> runs)) \<and>
     (\<not> terminal (q_status q) \<longrightarrow> q_result_row_count q = None)"

definition results_ok :: "cluster \<Rightarrow> bool" where
  "results_ok s \<longleftrightarrow> (\<forall>k q. query_of k (cl_db s) = Some q \<longrightarrow> result_ok (set (cl_runs s)) q)"

lemma result_ok_mono: "result_ok runs q \<Longrightarrow> runs \<subseteq> runs' \<Longrightarrow> result_ok runs' q"
  unfolding result_ok_def by blast

lemma result_ok_active:
  "\<not> terminal (q_status q) \<Longrightarrow> result_ok runs q \<longleftrightarrow> q_result_row_count q = None"
  by (auto simp: result_ok_def terminal_def)

lemma result_ok_report:
  assumes "result_ok runs q" and "\<not> terminal (q_status q)" and "(q_id q, q_query q, res) \<in> runs"
    and "body = fst (report_of res) \<or> (\<exists>s. body = failed_body s)"
  shows "result_ok runs (completed_row now (cb_status body) (cb_error body) (cb_result_row_count body) q)"
proof -
  have n: "q_result_row_count q = None" using assms(1,2) by (simp add: result_ok_active)
  from assms(4) consider s where "body = failed_body s" | v n where "res = Inr v" "row_count_field v = Inr n"
      "body = \<lparr>cb_status = ''completed'', cb_error = None, cb_result_row_count = n\<rparr>"
    | s where "body = \<lparr>cb_status = ''cancelled'', cb_error = Some s, cb_result_row_count = None\<rparr>"
    by (cases res rule: report_of.cases) (auto split: sum.splits)
  then show ?thesis
    using assms(3) n by cases (auto simp: result_ok_def completed_row_def failed_body_def)
qed

lemma results_step:
  assumes "basic_ok s" and "nodes_ok s" and "results_ok s"
  shows "results_ok (cluster_step op s)"
  unfolding results_ok_def
proof (intro allI impI)
  fix k q' assume q': "query_of k (cl_db (cluster_step op s)) = Some q'"
  have wf: "store_wf (cl_db s)" "130 \<le> payload_limit (cl_db s)" using basic_okD [OF assms(1)] by simp_all
  have old: "result_ok (set (cl_runs s)) q" if "query_of k (cl_db s) = Some q" for q
    using that assms(3) by (simp add: results_ok_def)
  have "result_ok (set (cl_runs s)) q'"
  proof (cases rule: cluster_db_cases [OF assms(1), where op = op, case_names quiet claim report])
    case quiet
    from wf(1) quiet q' show ?thesis
    proof (cases rule: quiet_row)
      case new
      then show ?thesis by (simp add: result_ok_def)
    next
      case same
      then show ?thesis by (rule old)
    next
      case (moved q)
      with old [OF moved(1)] show ?thesis
        by (auto simp: result_ok_active) (auto simp: result_ok_def row_update_defs)
    qed
  next
    case (claim i r w now c)
    show ?thesis
    proof (cases "k = q_id r")
      case True
      with claim(2,3) q' have q: "query_of k (cl_db s) = Some r" "q' = assigned_row now (w_id w) r"
        "q_status r = ''pending''"
        by (auto simp: assignable_def query_of_committed simp del: committed_db_simps)
      with old [OF q(1)] show ?thesis
        by (simp add: result_ok_active) (simp add: result_ok_def assigned_row_def)
    next
      case False
      with claim(3) q' have "query_of k (cl_db s) = Some q'"
        by (simp add: query_of_committed del: committed_db_simps)
      then show ?thesis by (rule old)
    qed
  next
    case (report now i n nd t body in_try)
    have nd: "node_ok (cl_db s) (set (cl_runs s)) nd" using nodes_okD [OF assms(2) report(2)] report(3) by simp
    then have inv: "app_inv (nd_app nd)" by (simp add: node_ok_def)
    from report_body [OF inv report(4)] report(5,6) obtain res where
      res: "tk_result t = Some res" "body = fst (report_of res) \<or> (\<exists>s. body = failed_body s)" by auto
    have t: "t \<in> set (wa_tasks (nd_app nd))" using report(4,5) by simp
    from q' report(7) obtain q where q: "query_of k (cl_db s) = Some q"
      "q' = (if q_id q = tk_query_id t \<and> q_status q \<in> {''running'', ''pending''}
         then completed_row now (cb_status body) (cb_error body) (cb_result_row_count body) q else q)"
      by (auto simp: fst_complete_query_route queries_complete row_of_update)
    show ?thesis
    proof (cases "q_id q = tk_query_id t \<and> q_status q \<in> {''running'', ''pending''}")
      case True
      with q(1) row_of_Some [OF q(1)] have "text_of (tk_query_id t) (cl_db s) = Some (q_query q)"
        by (simp add: text_of_def)
      with nd t res(1) True have "(q_id q, q_query q, res) \<in> set (cl_runs s)"
        by (auto simp: node_ok_def)
      with True q result_ok_report [OF old [OF q(1)] _ _ res(2)] show ?thesis
        by (auto simp: terminal_def)
    qed (use q old in auto)
  qed
  then show "result_ok (set (cl_runs (cluster_step op s))) q'"
    by (rule result_ok_mono) (rule cluster_runs)
qed

section \<open>Live workers\<close>

definition hosts_ok :: "cluster \<Rightarrow> bool" where
  "hosts_ok s \<longleftrightarrow> (\<forall>k w. runs_on k w (cl_db s) \<longrightarrow> k \<in> set (cl_faults s) \<or> live w (cl_db s))"

lemma cluster_faults: "set (cl_faults s) \<subseteq> set (cl_faults (cluster_step op s))"
  by (cases op) (auto simp: step_defs split: option.split task_phase.split)

text \<open>A query that runs on a worker after a step ran there before, or the step claimed it.\<close>

lemma runs_on_before:
  assumes "basic_ok s" and "nodes_ok s" and "runs_on k w (cl_db (cluster_step op s))"
  obtains (quiet) "runs_on k w (cl_db s)"
      "quiet (set (cl_faults (cluster_step op s))) (cl_db s) (cl_db (cluster_step op s))"
  | (claimed) i c where "op = AdvanceClaim i" "(c, None) \<in> set (cl_dispatches (cluster_step op s))"
      "c_query_id c = k" "c_worker_id c = w"
      "live w (cl_db (cluster_step op s)) \<or> k \<in> set (cl_faults (cluster_step op s))"
  | (kept) "runs_on k w (cl_db s)" "workers (cl_db (cluster_step op s)) = workers (cl_db s)"
proof -
  have wf: "store_wf (cl_db s)" "130 \<le> payload_limit (cl_db s)" using basic_okD [OF assms(1)] by simp_all
  obtain q' where q': "query_of k (cl_db (cluster_step op s)) = Some q'" "q_status q' = ''running''"
      "q_worker_id q' = Some w"
    using assms(3) by (auto simp: runs_on_def)
  show thesis
  proof (cases rule: cluster_db_cases [OF assms(1), where op = op, case_names quiet claim report])
    case quiet
    from wf(1) quiet q'(1) show thesis
    proof (cases rule: quiet_row)
      case same
      with q' quiet that(1) show thesis by (simp add: runs_on_def)
    qed (use q'(2) in auto)
  next
    case (claim i r v now c)
    have workers: "workers (cl_db (cluster_step op s)) = workers (cl_db s)" by (simp add: claim(3))
    show thesis
    proof (cases "k = q_id r")
      case True
      with claim(2,3) q' have "w_id v = w"
        by (auto simp: assignable_def query_of_committed simp del: committed_db_simps)
      with claim True workers show thesis
        by (intro that(2) [OF claim(1,6)]) (simp_all add: live_def)
    next
      case False
      with claim(3) q' have "runs_on k w (cl_db s)"
        by (simp add: runs_on_def query_of_committed del: committed_db_simps)
      then show thesis using workers by (rule that(3))
    qed
  next
    case (report now i n nd t body in_try)
    have "query_of k (cl_db s) = Some q'"
    proof -
      from q'(1) report(7) obtain q where q: "query_of k (cl_db s) = Some q"
        "q' = (if q_id q = tk_query_id t \<and> q_status q \<in> {''running'', ''pending''}
           then completed_row now (cb_status body) (cb_error body) (cb_result_row_count body) q else q)"
        by (auto simp: fst_complete_query_route queries_complete row_of_update)
      show ?thesis
      proof (cases "q_id q = tk_query_id t \<and> q_status q \<in> {''running'', ''pending''}")
        case True
        have "valid_complete_body body"
          using report_body_valid [OF nodes_ok_app [OF assms(2) report(2)]] report(3-6) by auto
        with True q q' show ?thesis by (auto simp: valid_complete_body_def)
      qed (use q in auto)
    qed
    with q' report(7) that(3) show thesis
      by (simp add: runs_on_def fst_complete_query_route frame_finish)
  qed
qed

lemma hosts_step:
  assumes "basic_ok s" and "nodes_ok s" and "hosts_ok s"
  shows "hosts_ok (cluster_step op s)"
  unfolding hosts_ok_def
proof (intro allI impI)
  fix k w assume run: "runs_on k w (cl_db (cluster_step op s))"
  have wf: "store_wf (cl_db s)" "130 \<le> payload_limit (cl_db s)" using basic_okD [OF assms(1)] by simp_all
  have old: "k \<in> set (cl_faults (cluster_step op s)) \<or> live w (cl_db s)" if "runs_on k w (cl_db s)"
    using that assms(3) subsetD [OF cluster_faults [of s op]] by (auto simp: hosts_ok_def)
  from assms(1,2) run
  show "k \<in> set (cl_faults (cluster_step op s)) \<or> live w (cl_db (cluster_step op s))"
  proof (cases rule: runs_on_before)
    case quiet
    from old [OF quiet(1)] show ?thesis
    proof
      assume live: "live w (cl_db s)"
      show ?thesis
      proof (cases "cl_db (cluster_step op s) = cl_db s")
        case False
        with quiet(2) obtain op' where op': "other_op op'" "cl_db (cluster_step op s) = apply_op op' (cl_db s)"
            "set (stranded_ids op' (cl_db s)) \<subseteq> set (cl_faults (cluster_step op s))"
          by (auto simp: quiet_def)
        from live_kept [OF wf op'(1) live quiet(1)] run op' show ?thesis by auto
      qed (use live in simp)
    qed simp
  next
    case kept
    with old show ?thesis by (auto simp: live_def)
  next
    case claimed
    then show ?thesis by blast
  qed
qed

section \<open>Queries in somebody's hands\<close>

definition busy :: "uuid \<Rightarrow> cluster \<Rightarrow> bool" where
  "busy k s \<longleftrightarrow> (\<exists>nd\<in>set (cl_nodes s). k \<in> set (working_ids (nd_app nd)))"

text \<open>A query is settled when a process works on it, it has a final status, or a fault hit it.\<close>

definition settled :: "uuid \<Rightarrow> cluster \<Rightarrow> bool" where
  "settled k s \<longleftrightarrow> k \<in> set (cl_faults s) \<or> busy k s \<or> ended k (cl_db s)"

definition accepted_ok :: "cluster \<Rightarrow> bool" where
  "accepted_ok s \<longleftrightarrow> (\<forall>c. (c, Some 202) \<in> set (cl_dispatches s) \<longrightarrow> settled (c_query_id c) s)"

definition awaited :: "uuid \<Rightarrow> uuid \<Rightarrow> cluster \<Rightarrow> bool" where
  "awaited k w s \<longleftrightarrow> (\<exists>p\<in>set (cl_dispatches s). c_query_id (fst p) = k \<and> c_worker_id (fst p) = w)"

definition hands_ok :: "cluster \<Rightarrow> bool" where
  "hands_ok s \<longleftrightarrow> (\<forall>k w. runs_on k w (cl_db s) \<longrightarrow> awaited k w s \<or> settled k s)"

lemma working_idsI: "t \<in> set (wa_tasks app) \<Longrightarrow> tk_phase t \<noteq> TaskOver \<Longrightarrow> tk_query_id t \<in> set (working_ids app)"
  by (auto simp: working_ids_def)

lemma working_deliver:
  "k \<in> set (working_ids app) \<Longrightarrow> k \<in> set (working_ids (deliver (dispatch_payload c) app))"
  by (cases rule: deliver_cases [of c app]) (auto simp: working_ids_def)

lemma accepted_working:
  assumes "answered_status (worker_answer app (dispatch_payload c)) = Some 202"
  shows "c_query_id c \<in> set (working_ids (deliver (dispatch_payload c) app))"
proof -
  let ?t = "\<lparr>tk_query_id = c_query_id c, tk_query = c_query c, tk_phase = InExecute, tk_result = None\<rparr>"
  have "?t \<in> set (wa_tasks (deliver (dispatch_payload c) app))"
    using assms
    by (auto simp: worker_answer_dispatch deliver_def read_dispatch_payload run_query_def body_of_claim_def
        split: if_splits)
  from working_idsI [OF this] show ?thesis by simp
qed

lemma in_set_update: "x \<in> set xs \<Longrightarrow> x \<in> set (xs[j := y]) \<or> x = xs ! j"
  by (metis in_set_conv_nth length_list_update nth_list_update_neq)

lemma working_update:
  assumes "wa_tasks app' = (wa_tasks app)[n := t']" and "n < length (wa_tasks app)"
    and "tk_query_id t' = tk_query_id (wa_tasks app ! n)" and "k \<in> set (working_ids app)"
    and "tk_phase t' = TaskOver \<Longrightarrow> tk_query_id t' \<noteq> k"
  shows "k \<in> set (working_ids app')"
proof -
  obtain m where m: "m < length (wa_tasks app)" "tk_query_id (wa_tasks app ! m) = k"
      "tk_phase (wa_tasks app ! m) \<noteq> TaskOver"
    using assms(4) by (auto simp: working_ids_def in_set_conv_nth)
  have "tk_query_id (wa_tasks app' ! m) = k" "tk_phase (wa_tasks app' ! m) \<noteq> TaskOver"
    using m assms(1-3,5) by (cases "m = n"; auto)+
  with m(1) assms(1) working_idsI [of "wa_tasks app' ! m" app'] show ?thesis by simp
qed

lemma busy_update:
  assumes "busy k s" and "cl_nodes s' = (cl_nodes s)[i := nd']" and "i < length (cl_nodes s)"
    and "k \<in> set (working_ids (nd_app (cl_nodes s ! i))) \<Longrightarrow> k \<in> set (working_ids (nd_app nd')) \<or> settled k s'"
  shows "settled k s'"
proof -
  obtain j where j: "j < length (cl_nodes s)" "k \<in> set (working_ids (nd_app (cl_nodes s ! j)))"
    using assms(1) unfolding busy_def by (metis in_set_conv_nth)
  have "k \<in> set (working_ids (nd_app (cl_nodes s' ! j))) \<or> settled k s'"
    using j assms(2-4) by (cases "j = i") auto
  moreover have "cl_nodes s' ! j \<in> set (cl_nodes s')"
    using j(1) assms(2) by simp
  ultimately show ?thesis
    by (auto simp: settled_def busy_def)
qed

lemma settled_step:
  assumes "basic_ok s" and "nodes_ok s" and "settled k s"
  shows "settled k (cluster_step op s)"
proof -
  have wf: "store_wf (cl_db s)" by (rule basic_okD(2) [OF assms(1)])
  consider "k \<in> set (cl_faults s)" | "ended k (cl_db s)" | (busy) "busy k s"
    using assms(3) by (auto simp: settled_def)
  then show ?thesis
  proof cases
    case 1
    then show ?thesis using cluster_faults by (auto simp: settled_def)
  next
    case 2
    then show ?thesis
      using db_step_facts(4) [OF cluster_db_step [OF assms(1,2)] wf] by (auto simp: settled_def)
  next
    case busy
    have same: ?thesis if "cl_nodes (cluster_step op s) = cl_nodes s"
      using busy that by (simp add: settled_def busy_def)
    show ?thesis
    proof (cases op)
      case (Arrive j i)
      show ?thesis
      proof (cases rule: arrive_step_cases [of j i s])
        case none
        with Arrive show ?thesis by (intro same) simp
      next
        case (task nd c)
        with Arrive show ?thesis
          by (intro busy_update [OF busy, where i = i]) (auto intro: working_deliver)
      qed
    next
      case (Late j i)
      show ?thesis
      proof (cases "j < length (cl_sent s) \<and> i < length (cl_nodes s)")
        case True
        then show ?thesis
          using Late by (intro busy_update [OF busy, where i = i]) (auto simp: step_defs intro: working_deliver)
      next
        case False
        with Late show ?thesis by (intro same) (auto simp: step_defs)
      qed
    next
      case (Execute i n res)
      show ?thesis
      proof (cases rule: executed_step_cases [of i n res s])
        case none
        with Execute show ?thesis by (intro same) simp
      next
        case (task nd t)
        have "k \<in> set (working_ids (executed n res (nd_app nd)))" if "k \<in> set (working_ids (nd_app nd))"
          using task(3-5) that
          by (intro working_update [OF executed_tasks]) (auto split: prod.splits)
        with task Execute show ?thesis
          by (intro busy_update [OF busy, where i = i]) auto
      qed
    next
      case (Report now i n)
      show ?thesis
      proof (cases rule: report_step_cases [of now i n s])
        case none
        with Report show ?thesis by (intro same) simp
      next
        case (task nd t body in_try)
        with Report show ?thesis by (intro busy_update [OF busy, where i = i]) auto
      qed
    next
      case (ReportAnswer i n answer msg)
      show ?thesis
      proof (cases rule: reported_step_cases [of i n answer msg s])
        case none
        with ReportAnswer show ?thesis by (intro same) simp
      next
        case (task nd t body in_try)
        have nd: "node_ok (cl_db s) (set (cl_runs s)) nd" using nodes_okD [OF assms(2) task(1)] task(2) by simp
        have "k \<in> set (working_ids (reported n answer msg (nd_app nd))) \<or> settled k (cluster_step op s)"
          if w: "k \<in> set (working_ids (nd_app nd))"
        proof (cases "tk_query_id t = k \<and> \<not> (answer = Raises \<and> in_try)")
          case True
          show ?thesis
          proof (cases "n \<in> set (nd_arrived nd)")
            case arrived: True
            with nd task(4) True have "ended k (cl_db s)" by (auto simp: node_ok_def)
            with task(6) ReportAnswer show ?thesis by (simp add: settled_def)
          next
            case False
            with True have "\<not> (n \<in> set (nd_arrived nd) \<or> answer = Raises \<and> in_try)" "tk_query_id t = k"
              by blast+
            with task(6) ReportAnswer have "k \<in> set (cl_faults (cluster_step op s))" by simp
            then show ?thesis by (simp add: settled_def)
          qed
        next
          case False
          with task(3-5) w have "k \<in> set (working_ids (reported n answer msg (nd_app nd)))"
            by (intro working_update [OF reported_tasks]) auto
          then show ?thesis ..
        qed
        with task ReportAnswer show ?thesis
          by (intro busy_update [OF busy, where i = i]) auto
      qed
    next
      case (Signal i)
      show ?thesis
      proof (cases "i < length (cl_nodes s)")
        case True
        with Signal show ?thesis
          by (intro busy_update [OF busy, where i = i]) (auto simp: step_defs working_ids_def)
      next
        case False
        with Signal show ?thesis by (intro same) (simp add: step_defs)
      qed
    next
      case (Boot settings st)
      with busy show ?thesis by (auto simp: step_defs settled_def busy_def)
    next
      case (Restart i settings st)
      show ?thesis
      proof (cases "i < length (cl_nodes s)")
        case True
        with Restart show ?thesis
          by (intro busy_update [OF busy, where i = i]) (auto simp: step_defs settled_def)
      next
        case False
        with Restart show ?thesis by (intro same) (simp add: step_defs)
      qed
    qed (use same in \<open>auto simp: step_defs split: if_splits\<close>)
  qed
qed

lemma accepted_step:
  assumes "basic_ok s" and "nodes_ok s" and "accepted_ok s"
  shows "accepted_ok (cluster_step op s)"
  unfolding accepted_ok_def
proof (intro allI impI)
  fix c assume c: "(c, Some 202) \<in> set (cl_dispatches (cluster_step op s))"
  have old: "settled (c_query_id c) (cluster_step op s)" if "(c, Some 202) \<in> set (cl_dispatches s)"
    using that assms(3) settled_step [OF assms(1,2)] by (simp add: accepted_ok_def)
  show "settled (c_query_id c) (cluster_step op s)"
  proof (cases op)
    case (AdvanceClaim i)
    from assms(1) have "(c, Some 202) \<in> set (cl_dispatches s)"
      by (cases rule: advance_step_cases [where i = i, consumes 1]) (use c AdvanceClaim in auto)
    then show ?thesis by (rule old)
  next
    case (Arrive j i)
    show ?thesis
    proof (cases rule: arrive_step_cases [of j i s])
      case none
      with c Arrive old show ?thesis by simp
    next
      case (task nd c')
      show ?thesis
      proof (cases "(c, Some 202) \<in> set (cl_dispatches s)")
        case False
        then have new: "c = c'" "answered_status (worker_answer (nd_app nd) (dispatch_payload c)) = Some 202"
          using c Arrive task(5) set_update_subset_insert [of "cl_dispatches s" j] by force+
        have "nd\<lparr>nd_app := deliver (dispatch_payload c) (nd_app nd)\<rparr> \<in> set (cl_nodes (cluster_step op s))"
          using task(3,5) new(1) Arrive by (auto intro: set_update_memI)
        with accepted_working [OF new(2)] have "busy (c_query_id c) (cluster_step op s)"
          by (force simp: busy_def)
        then show ?thesis by (simp add: settled_def)
      qed (rule old)
    qed
  next
    case (Answer j answer)
    with c old set_remove_nth [of j "cl_dispatches s"] show ?thesis
      by (cases rule: answer_step_cases [of j answer s]) auto
  next
    case (DropDispatch j)
    with c old set_remove_nth [of j "cl_dispatches s"] show ?thesis
      by (auto simp: step_defs split: if_splits)
  qed (use c old in \<open>auto simp: step_defs split: option.splits task_phase.splits if_splits\<close>)
qed

text \<open>Answering a dispatch of a query leaves the query to a process or takes it from the worker.\<close>

lemma answer_takes:
  assumes "basic_ok s" and "hosts_ok s" and "accepted_ok s"
    and "(c, a) \<in> set (cl_dispatches s)" and "can_answer a answer"
    and "runs_on (c_query_id c) (c_worker_id c) (cl_db s)"
    and after: "runs_on (c_query_id c) (c_worker_id c) (fst (after_dispatch c answer (cl_db s)))"
  shows "settled (c_query_id c) s"
proof -
  let ?d = "cl_db s" and ?k = "c_query_id c" and ?w = "c_worker_id c"
  have wf: "store_wf ?d" "130 \<le> payload_limit ?d" using basic_okD [OF assms(1)] by simp_all
  obtain q where q: "query_of ?k ?d = Some q" "q_status q = ''running''" "q_worker_id q = Some ?w"
    using assms(6) by (auto simp: runs_on_def)
  have id: "q_id q = ?k" using row_of_Some [OF q(1)] by simp
  have unreachable: "settled ?k s" if "runs_on ?k ?w (apply_op (OpUnreachable ?w) ?d)"
  proof (cases "live ?w ?d")
    case True
    then obtain v where v: "worker_of ?w ?d = Some v" "w_status v = ''running'' \<or> w_status v = ''shutting_down''"
      by (auto simp: live_iff)
    have "query_of ?k (apply_op (OpUnreachable ?w) ?d) = Some (lost_row q)"
      using unreachable_effect(3) [OF store_wf_pk(2) [OF wf(1)] wf(2) v] q by (simp add: row_of_update)
    with that show ?thesis by (simp add: runs_on_def)
  next
    case False
    with assms(2,6) show ?thesis by (auto simp: hosts_ok_def settled_def)
  qed
  have revert: False if "runs_on ?k ?w (apply_op (OpRevert ?k) ?d)"
    using that q id by (auto simp: runs_on_def queries_revert row_of_update)
  show ?thesis
  proof (cases answer)
    case (Reply status b)
    show ?thesis
    proof (cases "status = 202")
      case True
      with assms(3-5) Reply show ?thesis by (auto simp: accepted_ok_def)
    next
      case False
      with Reply after revert unreachable show ?thesis
        by (auto simp: after_dispatch_db split: if_splits)
    qed
  next
    case (HttpError e)
    with after unreachable show ?thesis by (simp add: after_dispatch_db)
  next
    case Raises
    with assms(5) show ?thesis by simp
  qed
qed

lemma in_remove_nth: "x \<in> set xs \<Longrightarrow> x \<in> set (remove_nth j xs) \<or> (j < length xs \<and> x = xs ! j)"
proof -
  assume "x \<in> set xs"
  then obtain m where m: "m < length xs" "x = xs ! m" by (auto simp: in_set_conv_nth)
  consider "m < j" | "m = j" | "j < m" by linarith
  then show ?thesis
  proof cases
    case 1
    with m have "x \<in> set (take j xs)" by (auto simp: in_set_conv_nth intro!: exI [of _ m])
    then show ?thesis by (simp add: remove_nth_def)
  next
    case 2
    with m show ?thesis by simp
  next
    case 3
    then have "drop (Suc j) xs ! (m - Suc j) = x" using m by simp
    with 3 m have "x \<in> set (drop (Suc j) xs)" by (auto simp: in_set_conv_nth intro!: exI [of _ "m - Suc j"])
    then show ?thesis by (simp add: remove_nth_def)
  qed
qed

lemma hands_step:
  assumes "basic_ok s" and "nodes_ok s" and "hosts_ok s" and "accepted_ok s" and "hands_ok s"
  shows "hands_ok (cluster_step op s)"
  unfolding hands_ok_def
proof (intro allI impI)
  fix k w assume run: "runs_on k w (cl_db (cluster_step op s))"
  let ?s' = "cluster_step op s"
  have settled: "settled k s \<Longrightarrow> settled k ?s'" by (rule settled_step [OF assms(1,2)])
  have old: "awaited k w ?s' \<or> settled k ?s'" if before: "runs_on k w (cl_db s)"
  proof -
    from assms(5) before consider "settled k s"
      | (aw) c a where "(c, a) \<in> set (cl_dispatches s)" "c_query_id c = k" "c_worker_id c = w"
      by (fastforce simp: hands_ok_def awaited_def)
    then show ?thesis
    proof cases
      case aw
      have kept: ?thesis if "(c, a') \<in> set (cl_dispatches ?s')" for a'
        using that aw(2,3) by (force simp: awaited_def)
      show ?thesis
      proof (cases op)
        case (AdvanceClaim i)
        from assms(1) have "(c, a) \<in> set (cl_dispatches ?s')"
          by (cases rule: advance_step_cases [where i = i, consumes 1]) (use aw(1) AdvanceClaim in auto)
        then show ?thesis by (rule kept)
      next
        case (Arrive j i)
        show ?thesis
        proof (cases rule: arrive_step_cases [of j i s])
          case none
          with Arrive aw(1) kept show ?thesis by simp
        next
          case (task nd c')
          show ?thesis
          proof (cases "c' = c")
            case True
            with task(1,5) Arrive show ?thesis by (intro kept) (auto intro: set_update_memI)
          next
            case False
            with in_set_update [OF aw(1), of j] task(2,5) Arrive show ?thesis by (intro kept) auto
          qed
        qed
      next
        case (Answer j answer)
        show ?thesis
        proof (cases rule: answer_step_cases [of j answer s])
          case none
          with Answer aw(1) kept show ?thesis by simp
        next
          case (answered c' a')
          show ?thesis
          proof (cases "(c', a') = (c, a)")
            case True
            then have "runs_on (c_query_id c) (c_worker_id c) (fst (after_dispatch c answer (cl_db s)))"
              using run aw(2,3) Answer answered(5) by simp
            from answer_takes [OF assms(1,3,4) aw(1) _ _ this] answered(3) True before aw(2,3) settled
            show ?thesis by auto
          next
            case False
            with in_remove_nth [OF aw(1), of j] Answer answered(2,5) have "(c, a) \<in> set (cl_dispatches ?s')"
              by auto
            then show ?thesis by (rule kept)
          qed
        qed
      next
        case (DropDispatch j)
        show ?thesis
        proof (cases "j < length (cl_dispatches s) \<and> cl_dispatches s ! j = (c, a)")
          case True
          with aw(2) DropDispatch show ?thesis by (simp add: drop_step_def settled_def)
        next
          case False
          with in_remove_nth [OF aw(1), of j] DropDispatch aw(1) have "(c, a) \<in> set (cl_dispatches ?s')"
            by (auto simp: drop_step_def)
          then show ?thesis by (rule kept)
        qed
      qed (use aw(1) kept in \<open>auto simp: step_defs split: option.splits task_phase.splits if_splits\<close>)
    qed (use settled in simp)
  qed
  from assms(1,2) run show "awaited k w ?s' \<or> settled k ?s'"
  proof (cases rule: runs_on_before)
    case (claimed i c)
    then show ?thesis by (force simp: awaited_def)
  qed (use old in simp_all)
qed

end
