(* ===== verification/Cluster_Safety.thy ===== *)
theory Cluster_Safety
  imports Cluster_Invariant
begin

text \<open>
  The theorems about the whole system: the results clients are given are those of executions of their own
  queries, and a running query is always in somebody's hands unless one of the recorded faults has hit
  it.
\<close>

section \<open>The system\<close>

definition cluster_inv :: "cluster \<Rightarrow> bool" where
  "cluster_inv s \<longleftrightarrow> basic_ok s \<and> nodes_ok s \<and> sent_ok s \<and> results_ok s \<and> hosts_ok s \<and> accepted_ok s \<and> hands_ok s"

interpretation system: machine cluster_step "\<lambda>_. True" cluster_inv
  by unfold_locales
     (simp add: cluster_inv_def basic_step nodes_step sent_step results_step hosts_step accepted_step hands_step)

lemma new_cluster_inv:
  assumes "store_wf d" and "queries d = []" and "130 \<le> payload_limit d"
  shows "cluster_inv (new_cluster d)"
  using assms tx_inv_idle [OF assms(1), of POOL_MAX_SIZE]
  by (simp add: cluster_inv_def basic_ok_def nodes_ok_def sent_ok_def results_ok_def hosts_ok_def accepted_ok_def
      hands_ok_def new_cluster_def runs_on_def pool_of_def idle_pool_def)

lemma cluster_run_inv:
  assumes "store_wf d" and "queries d = []" and "130 \<le> payload_limit d"
  shows "cluster_inv (run_steps cluster_step ops (new_cluster d))"
  by (rule system.run_inv [OF new_cluster_inv [OF assms]]) simp

section \<open>Results are authentic\<close>

text \<open>C11. Results are those of executions. Start the whole system with no query and let anything happen: requests
  lost or late, workers restarted, tasks of the coordinator dying. If a query is then completed, a worker's
  executor ran exactly the text its user submitted, under the query's id, and returned without an error,
  and the row holds that execution's row count; if it failed, an executor ran its text.\<close>

theorem results_authentic:
  assumes "store_wf d" and "queries d = []" and "130 \<le> payload_limit d"
    and "s = run_steps cluster_step ops (new_cluster d)" and "query_of k (cl_db s) = Some q"
  shows "(q_status q = ''completed'' \<longrightarrow>
      (\<exists>v. (k, q_query q, Inr v) \<in> set (cl_runs s) \<and> row_count_field v = Inr (q_result_row_count q))) \<and>
    (q_status q = ''failed'' \<longrightarrow> (\<exists>res. (k, q_query q, res) \<in> set (cl_runs s)))"
proof -
  have "results_ok s"
    using cluster_run_inv [OF assms(1-3)] assms(4) by (simp add: cluster_inv_def)
  with assms(5) row_of_Some [OF assms(5)] show ?thesis
    by (auto simp: results_ok_def result_ok_def)
qed

section \<open>No query is lost\<close>

text \<open>C12. No query is lost silently. In every run of the whole system, a query that the store shows as running
  has a dispatch that the coordinator still waits for, or a worker process with an unfinished task for it, or
  one of the recorded faults has hit it: its process ended, its report never arrived, its dispatch died,
  its worker registered again while it ran, or its claim committed when the worker it had chosen was no longer
  in use. Claims of several batches interleave statement by statement.\<close>

theorem no_query_lost:
  assumes "store_wf d" and "queries d = []" and "130 \<le> payload_limit d"
    and "s = run_steps cluster_step ops (new_cluster d)" and "query_of k (cl_db s) = Some q"
    and "q_status q = ''running''" and "k \<notin> set (cl_faults s)"
  shows "(\<exists>c a. (c, a) \<in> set (cl_dispatches s) \<and> c_query_id c = k \<and> Some (c_worker_id c) = q_worker_id q) \<or>
    (\<exists>nd\<in>set (cl_nodes s). \<exists>t\<in>set (wa_tasks (nd_app nd)). tk_query_id t = k \<and> tk_query t = q_query q \<and>
       tk_phase t \<noteq> TaskOver)"
proof -
  have inv: "basic_ok s" "nodes_ok s" "hands_ok s"
    using cluster_run_inv [OF assms(1-3)] assms(4) by (simp_all add: cluster_inv_def)
  have "q \<in> set (queries (cl_db s))" using row_of_Some [OF assms(5)] by simp
  with basic_okD(2) [OF inv(1)] have "query_ok q" by (simp add: store_wf_def)
  with assms(6) obtain w where w: "q_worker_id q = Some w" by (auto simp: query_ok_def)
  with assms(5,6) have "runs_on k w (cl_db s)" by (simp add: runs_on_def)
  with inv(3) have "awaited k w s \<or> settled k s" by (auto simp: hands_ok_def)
  moreover have "\<not> ended k (cl_db s)" using assms(5,6) by (simp add: ended_def)
  ultimately have "awaited k w s \<or> busy k s" using assms(7) by (auto simp: settled_def)
  then show ?thesis
  proof
    assume "busy k s"
    then obtain nd t where nd: "nd \<in> set (cl_nodes s)" and t: "t \<in> set (wa_tasks (nd_app nd))"
        "tk_query_id t = k" "tk_phase t \<noteq> TaskOver"
      by (auto simp: busy_def working_ids_def)
    from inv(2) nd t(1) have "text_of (tk_query_id t) (cl_db s) = Some (tk_query t)"
      by (simp add: nodes_ok_def node_ok_def)
    with t(2) assms(5) have "tk_query t = q_query q" by (simp add: text_of_def)
    with nd t show ?thesis by blast
  qed (use w in \<open>force simp: awaited_def\<close>)
qed

section \<open>A run\<close>

text \<open>A worker with two slots serves one query: it is submitted, claimed, dispatched, executed and
  reported.\<close>

definition sample_start_db :: database where
  "sample_start_db = sample_db [sample_worker 7 2 0] []"

definition sample_worker_settings :: worker_settings where
  "sample_worker_settings = (default_worker_settings (parse_path ''/root''))\<lparr>max_concurrent_queries := 2\<rparr>"

definition sample_arrival :: "cluster_op list" where
  "sample_arrival = [Boot sample_worker_settings new_worker_state,
     Commit (OpCreate 100 1 ''SELECT 1'' (Some 1) None None None)]"

definition sample_claiming :: "cluster_op list" where
  "sample_claiming = BeginClaim 0 20 20 None 30 # replicate 5 (AdvanceClaim 0)"

definition sample_dispatch :: "cluster_op list" where
  "sample_dispatch = [Arrive 0 0, Answer 0 (Reply 202 ())]"

definition sample_run :: "cluster_op list" where
  "sample_run = sample_arrival @ sample_claiming @ sample_dispatch"

definition sample_rest :: "cluster_op list" where
  "sample_rest = [Execute 0 0 (Inr (Some (DInt 3))), Report 9 0 0, ReportAnswer 0 0 (Reply 200 ()) []]"

lemma sample_start_ok: "store_wf sample_start_db" "queries sample_start_db = []" "130 \<le> payload_limit sample_start_db"
  by (simp_all add: sample_start_db_def store_wf_def pk_def)

lemma sample_created: "apply_op (OpCreate 100 1 ''SELECT 1'' (Some 1) None None None) sample_start_db = idle_db"
  by (simp add: create_query_def sample_start_db_def idle_db_def sample_db_def empty_db_def sql_insert_def
      sample_query_def Let_def)

abbreviation sample_row :: query_row where
  "sample_row \<equiv> sample_query 100 1 (Some 1)"

abbreviation sample_commit :: database where
  "sample_commit \<equiv> committed_db sample_row (sample_worker 7 2 0) 20 idle_db"

lemma advance_lone:
  assumes "cl_claims s = [i \<mapsto> c]" and "claim_turn (locked POOL_MAX_SIZE (pool_of s)) c (cl_db s) = (d, st)"
  shows "advance_step i s = s\<lparr>cl_db := d, cl_claims := [i \<mapsto> c\<lparr>cm_state := st\<rparr>],
    cl_dispatches := cl_dispatches s @ map (\<lambda>c. (c, None)) (committing (cm_state c)),
    cl_sent := cl_sent s @ committing (cm_state c),
    cl_faults := map c_query_id (filter (\<lambda>c. \<not> live (c_worker_id c) (cl_db s)) (committing (cm_state c))) @ cl_faults s\<rparr>"
  using assms by (simp add: advance_step_def advance_claim_def pool_of_def Let_def)

lemma lone_unlocked: "cl_claims s = [i \<mapsto> c] \<Longrightarrow> held (cm_state c) = None \<Longrightarrow> locked n (pool_of s) = (\<lambda>_. False)"
  by (auto simp: locked_def held_at_def state_at_def pool_of_def fun_eq_iff)

abbreviation sample_at :: "claim_state \<Rightarrow> claim" where
  "sample_at st \<equiv> \<lparr>cm_target = None, cm_cutoff = 20 - 30 * second, cm_now = 20, cm_state = st\<rparr>"

lemma sample_turns:
  "claim_turn (\<lambda>_. False) (sample_at Begun) idle_db = (idle_db, Picked sample_row)"
  "claim_turn taken (sample_at (Picked sample_row)) idle_db = (idle_db, Chosen sample_row (sample_worker 7 2 0))"
  "claim_turn taken (sample_at (Chosen sample_row (sample_worker 7 2 0))) idle_db =
     (idle_db, Written sample_row (sample_worker 7 2 0))"
  "claim_turn taken (sample_at (Written sample_row (sample_worker 7 2 0))) idle_db =
     (idle_db, Joined sample_row (sample_worker 7 2 0) (Some sample_claim))"
  "claim_turn taken (sample_at (Joined sample_row (sample_worker 7 2 0) (Some sample_claim))) idle_db =
     (sample_commit, Ended (Inr (Some sample_claim)))"
  by (simp_all add: tx_eval load_sum_def idle_db_def sample_claim_def sample_query_def
      sample_worker_def row_of_Cons del: committed_db_simps)

lemma sample_turn:
  assumes "cl_db s = idle_db" and "cl_claims s = Map.empty"
  shows "run_steps cluster_step sample_claiming s =
    s\<lparr>cl_db := sample_commit, cl_claims := [0 \<mapsto> sample_at (Ended (Inr (Some sample_claim)))],
      cl_dispatches := cl_dispatches s @ [(sample_claim, None)], cl_sent := cl_sent s @ [sample_claim]\<rparr>"
proof -
  let ?at = "\<lambda>st. s\<lparr>cl_claims := [0 \<mapsto> sample_at st]\<rparr>"
  have begin_s: "begin_step 0 20 20 None 30 s = ?at Begun"
    using assms by (simp add: begin_step_def begin_claim_def pool_of_def state_at_def POOL_MAX_SIZE_def)
  have free: "locked POOL_MAX_SIZE (pool_of (?at Begun)) = (\<lambda>_. False)"
    by (rule lone_unlocked [where i = 0 and c = "sample_at Begun"]) simp_all
  have alive: "live (c_worker_id sample_claim) idle_db"
    by (simp add: live_def idle_db_def sample_claim_def row_of_Cons)
  have turn: "advance_step 0 (?at st) = s\<lparr>cl_db := d, cl_claims := [0 \<mapsto> sample_at st'],
      cl_dispatches := cl_dispatches s @ map (\<lambda>c. (c, None)) (committing st),
      cl_sent := cl_sent s @ committing st,
      cl_faults := map c_query_id (filter (\<lambda>c. \<not> live (c_worker_id c) idle_db) (committing st)) @ cl_faults s\<rparr>"
    if "claim_turn (locked POOL_MAX_SIZE (pool_of (?at st))) (sample_at st) idle_db = (d, st')" for st st' d
    using advance_lone [of "?at st" 0 "sample_at st" d st'] that assms(1) by simp
  have quiet_turn: "advance_step 0 (?at st) = ?at st'" if "committing st = []"
    "claim_turn (locked POOL_MAX_SIZE (pool_of (?at st))) (sample_at st) idle_db = (idle_db, st')" for st st'
    using turn [OF that(2)] that(1) assms(1) by (cases s) simp
  have first_turn: "advance_step 0 (?at Begun) = ?at (Picked sample_row)"
    by (rule quiet_turn) (simp, simp only: free sample_turns)
  note turns = first_turn quiet_turn [OF _ sample_turns(2)] quiet_turn [OF _ sample_turns(3)]
    quiet_turn [OF _ sample_turns(4)] turn [OF sample_turns(5)]
  show ?thesis
    by (simp add: sample_claiming_def numeral_eq_Suc begin_s turns alive)
qed

lemma sample_running:
  obtains nd where "run_steps cluster_step sample_run (new_cluster sample_start_db) =
      \<lparr>cl_db = sample_commit, cl_claims = [0 \<mapsto> sample_at (Ended (Inr (Some sample_claim)))],
       cl_dispatches = [], cl_sent = [sample_claim], cl_nodes = [nd], cl_runs = [], cl_faults = []\<rparr>"
    and "query_of 100 sample_commit = Some (assigned_row 20 7 sample_row)"
    and "wa_tasks (nd_app nd) = [\<lparr>tk_query_id = 100, tk_query = ''SELECT 1'', tk_phase = InExecute, tk_result = None\<rparr>]"
proof -
  have k: "c_query_id sample_claim = 100" "c_query sample_claim = ''SELECT 1''"
    by (simp_all add: sample_claim_def)
  let ?st = sample_worker_settings
  let ?app = "new_app ?st new_worker_state"
  have room: "answered_status (worker_answer ?app (dispatch_payload sample_claim)) = Some 202"
    by (simp add: worker_answer_dispatch new_app_def new_worker_state_def running_task_count_def
        sample_worker_settings_def)
  have task: "wa_tasks (deliver (dispatch_payload sample_claim) ?app) =
      [\<lparr>tk_query_id = 100, tk_query = ''SELECT 1'', tk_phase = InExecute, tk_result = None\<rparr>]"
    by (simp add: deliver_def read_dispatch_payload run_query_def body_of_claim_def new_app_def
        new_worker_state_def running_task_count_def sample_worker_settings_def k)
  have row: "query_of 100 sample_commit = Some (assigned_row 20 7 sample_row)"
    by (simp add: query_of_committed idle_db_def row_of_Cons del: committed_db_simps)
  let ?s0 = "\<lparr>cl_db = idle_db, cl_claims = Map.empty, cl_dispatches = [], cl_sent = [],
    cl_nodes = [new_node ?st new_worker_state], cl_runs = [], cl_faults = []\<rparr>"
  have "run_steps cluster_step sample_arrival (new_cluster sample_start_db) = ?s0"
    using sample_created
    by (simp add: sample_arrival_def step_defs new_cluster_def no_wait_def keeps_locked_def held_at_def
        state_at_def pool_of_def)
  then have "run_steps cluster_step sample_run (new_cluster sample_start_db) =
      run_steps cluster_step sample_dispatch
        (?s0\<lparr>cl_db := sample_commit, cl_claims := [0 \<mapsto> sample_at (Ended (Inr (Some sample_claim)))],
           cl_dispatches := [(sample_claim, None)], cl_sent := [sample_claim]\<rparr>)"
    unfolding sample_run_def run_steps_append by (simp add: sample_turn)
  then show thesis
    by (intro that [OF _ row, where nd = "(new_node ?st new_worker_state)
        \<lparr>nd_app := deliver (dispatch_payload sample_claim) ?app\<rparr>"])
       (simp_all add: sample_dispatch_def step_defs new_node_def room task after_dispatch_def remove_nth_def no_wait_def
         keeps_locked_def split: option.split)
qed

theorem no_query_lost_witness:
  "\<exists>nd\<in>set (cl_nodes (run_steps cluster_step sample_run (new_cluster sample_start_db))).
     \<exists>t\<in>set (wa_tasks (nd_app nd)). tk_query_id t = 100 \<and> tk_query t = ''SELECT 1''"
proof -
  let ?s = "run_steps cluster_step sample_run (new_cluster sample_start_db)"
  obtain nd where s: "?s = \<lparr>cl_db = sample_commit, cl_claims = [0 \<mapsto> sample_at (Ended (Inr (Some sample_claim)))],
      cl_dispatches = [], cl_sent = [sample_claim], cl_nodes = [nd], cl_runs = [], cl_faults = []\<rparr>"
    and q: "query_of 100 sample_commit = Some (assigned_row 20 7 sample_row)"
    by (rule sample_running)
  have "query_of 100 (cl_db ?s) = Some (assigned_row 20 7 sample_row)"
    "100 \<notin> set (cl_faults ?s)" "cl_dispatches ?s = []"
    using q by (simp_all add: s)
  with no_query_lost [OF sample_start_ok refl this(1) _ this(2)] show ?thesis
    by (auto simp: sample_query_def)
qed

theorem results_authentic_witness:
  "\<exists>v. (100, ''SELECT 1'', Inr v) \<in>
     set (cl_runs (run_steps cluster_step (sample_run @ sample_rest) (new_cluster sample_start_db)))"
proof -
  let ?s = "run_steps cluster_step sample_run (new_cluster sample_start_db)"
  let ?s' = "run_steps cluster_step (sample_run @ sample_rest) (new_cluster sample_start_db)"
  obtain nd where s: "?s = \<lparr>cl_db = sample_commit, cl_claims = [0 \<mapsto> sample_at (Ended (Inr (Some sample_claim)))],
      cl_dispatches = [], cl_sent = [sample_claim], cl_nodes = [nd], cl_runs = [], cl_faults = []\<rparr>"
    and q: "query_of 100 sample_commit = Some (assigned_row 20 7 sample_row)"
    and t: "wa_tasks (nd_app nd) = [\<lparr>tk_query_id = 100, tk_query = ''SELECT 1'', tk_phase = InExecute,
      tk_result = None\<rparr>]"
    by (rule sample_running)
  have "query_of 100 (cl_db ?s') = Some (completed_row 9 ''completed'' None (Some 3)
      (assigned_row 20 7 sample_row))"
    using q unfolding run_steps_append s
    by (simp add: sample_rest_def step_defs task_at_def t executed_def row_count_field_def
        fst_complete_query_route queries_complete row_of_update no_wait_def keeps_locked_def pool_of_def
        held_at_def state_at_def del: committed_db_simps)
  from results_authentic [OF sample_start_ok refl this] show ?thesis
    by (auto simp: sample_query_def)
qed

section \<open>A report that is lost\<close>

text \<open>A lost report is not repeated. When the request that reports a finished query fails, the task ends with it:
  the row stays running, although no process has a task and the coordinator waits for no dispatch.\<close>

theorem lost_report_strands:
  "let s = run_steps cluster_step (sample_run @ [Execute 0 0 (Inr (Some (DInt 3))), ReportAnswer 0 0 (HttpError e) msg])
       (new_cluster sample_start_db)
   in query_of 100 (cl_db s) = Some (assigned_row 20 7 sample_row) \<and> cl_dispatches s = [] \<and>
      (\<forall>nd\<in>set (cl_nodes s). working_ids (nd_app nd) = []) \<and> (100, ''SELECT 1'', Inr (Some (DInt 3))) \<in> set (cl_runs s)"
proof -
  let ?s = "run_steps cluster_step sample_run (new_cluster sample_start_db)"
  obtain nd where s: "?s = \<lparr>cl_db = sample_commit, cl_claims = [0 \<mapsto> sample_at (Ended (Inr (Some sample_claim)))],
      cl_dispatches = [], cl_sent = [sample_claim], cl_nodes = [nd], cl_runs = [], cl_faults = []\<rparr>"
    and q: "query_of 100 sample_commit = Some (assigned_row 20 7 sample_row)"
    and t: "wa_tasks (nd_app nd) = [\<lparr>tk_query_id = 100, tk_query = ''SELECT 1'', tk_phase = InExecute,
      tk_result = None\<rparr>]"
    by (rule sample_running)
  show ?thesis
    using q unfolding run_steps_append s
    by (simp add: step_defs task_at_def t executed_def reported_def row_count_field_def working_ids_def
        del: committed_db_simps)
qed

end
