(* ===== verification/Transaction_Safety.thy ===== *)
theory Transaction_Safety
  imports Transaction_Facts
begin

text \<open>
  The properties of interleaved claims: what locking guarantees, what it does not, and that a claim
  which runs alone is the claim of \<open>Query_Store\<close>.
\<close>

section \<open>A claim that runs alone\<close>

lemma claimed_join_queries:
  "queries d = queries d' \<Longrightarrow> workers d = workers d' \<Longrightarrow> claimed_join k d = claimed_join k d'"
  by (simp add: claimed_join_def)

lemma locked_none: "(\<And>j. held_at s j = None) \<Longrightarrow> \<not> locked n s k"
  by (simp add: locked_def)

text \<open>The statements of one claim, one after the other, on one database.\<close>

fun run_claim :: "nat \<Rightarrow> claim \<Rightarrow> database \<Rightarrow> database \<times> claim_state" where
  "run_claim 0 c d = (d, cm_state c)"
| "run_claim (Suc m) c d =
     (case claim_turn (\<lambda>_. False) c d of (d1, st) \<Rightarrow> run_claim m (c\<lparr>cm_state := st\<rparr>) d1)"

lemma run_claim_ended: "cm_state c = Ended res \<Longrightarrow> run_claim m c d = (d, Ended res)"
proof (induction m arbitrary: c)
  case (Suc m)
  then show ?case by (simp add: claim_turn_def)
qed simp

lemma run_claim_picked:
  assumes "cm_state c = Picked r"
  shows "run_claim 4 c d = (case in_transaction d (claim_query (cm_now c) r (cm_cutoff c) d) of
    (d', res) \<Rightarrow> (d', Ended res))"
proof (cases "worker_for_query (cm_cutoff c) (q_cpus r) (q_memory r) (q_disk_space r) d")
  case None
  with assms show ?thesis
    by (simp add: numeral_eq_Suc claim_turn_def claim_query_def in_transaction_def)
next
  case (Some w)
  let ?d1 = "assigned_db r w (cm_now c) d"
  show ?thesis
  proof (cases "notify_query_status (q_id r) ''running'' None None ?d1")
    case (Inl e)
    with assms Some show ?thesis
      by (simp add: numeral_eq_Suc claim_turn_def claim_query_def in_transaction_def assigned_db_def)
  next
    case (Inr d2)
    have d2: "d2 = committed_db r w (cm_now c) d"
      using notify_query_status_Inr [OF Inr] by (simp add: committed_db_def) (simp add: assigned_db_def)
    have "claimed_join (q_id r) ?d1 = claimed_join (q_id r) d2"
      by (rule claimed_join_queries) (simp_all add: d2)
    moreover have "claim_query (cm_now c) r (cm_cutoff c) d = Inr (d2, claimed_join (q_id r) d2)"
      using Some Inr by (simp add: claim_query_def Let_def assigned_db_def)
    ultimately show ?thesis
      using assms Some Inr d2 by (simp add: numeral_eq_Suc claim_turn_def in_transaction_def)
  qed
qed

definition store_claim :: "uuid option \<Rightarrow> timestamp \<Rightarrow> timestamp \<Rightarrow> int \<Rightarrow> database
    \<Rightarrow> database \<times> (sql_error + claimed_row option)" where
  "store_claim target utc now stale d =
     (case target of
        None \<Rightarrow> claim_pending_query utc now stale d
      | Some query_id \<Rightarrow> claim_query_by_id utc now query_id stale d)"

lemma run_claim_begun:
  assumes "cm_state c = Begun" and "cm_cutoff c = utc - stale * second"
  shows "run_claim 5 c d = (case store_claim (cm_target c) utc (cm_now c) stale d of (d', res) \<Rightarrow> (d', Ended res))"
proof -
  have store: "store_claim (cm_target c) utc (cm_now c) stale d = in_transaction d
      (case select_pending (cm_target c) (\<lambda>_. False) d of None \<Rightarrow> Inr (d, None)
       | Some r \<Rightarrow> claim_query (cm_now c) r (utc - stale * second) d)"
    by (cases "cm_target c")
       (simp_all add: store_claim_def claim_pending_query_def claim_query_by_id_def select_pending_def conj_commute)
  have five: "run_claim 5 c d = (case claim_turn (\<lambda>_. False) c d of
      (d1, st) \<Rightarrow> run_claim 4 (c\<lparr>cm_state := st\<rparr>) d1)"
    using run_claim.simps(2) [of 4 c d] by simp
  show ?thesis
  proof (cases "select_pending (cm_target c) (\<lambda>_. False) d")
    case None
    with assms show ?thesis
      by (simp add: five store claim_turn_def run_claim_ended in_transaction_def)
  next
    case (Some r)
    with assms run_claim_picked [of "c\<lparr>cm_state := Picked r\<rparr>" r d] show ?thesis
      by (simp add: five store claim_turn_def)
  qed
qed


text \<open>On a connection nobody competes with, the steps of a claim are these.\<close>

lemma claim_turn_alone:
  assumes "\<And>j. j \<noteq> i \<Longrightarrow> held_at s j = None" and "tx_claims s i = Some c"
  shows "claim_turn (locked n s) c d = claim_turn (\<lambda>_. False) c d"
proof (cases "cm_state c = Begun")
  case True
  with assms(2) have "held_at s i = None" by (simp add: held_at_def state_at_def)
  with assms(1) have "held_at s j = None" for j by (cases "j = i") simp_all
  then have "locked n s = (\<lambda>_. False)" by (simp add: fun_eq_iff locked_none)
  then show ?thesis by simp
next
  case False
  then show ?thesis by (cases "cm_state c") (simp_all add: claim_turn_def)
qed

lemma advances_alone:
  assumes "\<And>j. j \<noteq> i \<Longrightarrow> held_at s j = None" and "tx_claims s i = Some c"
  shows "tx_db (run_txs n (replicate m (Advance i)) s) = fst (run_claim m c (tx_db s)) \<and>
    state_at (run_txs n (replicate m (Advance i)) s) i = Some (snd (run_claim m c (tx_db s)))"
  using assms
proof (induction m arbitrary: s c)
  case 0
  then show ?case by (simp add: state_at_def)
next
  case (Suc m)
  let ?s = "advance_claim n i s"
  obtain d st where turn: "claim_turn (\<lambda>_. False) c (tx_db s) = (d, st)" by fastforce
  have s': "tx_db ?s = d" "tx_claims ?s = (tx_claims s)(i \<mapsto> c\<lparr>cm_state := st\<rparr>)"
    using Suc.prems(2) turn claim_turn_alone [OF Suc.prems(1,2)] by (simp_all add: advance_claim_def)
  have "held_at ?s j = None" if "j \<noteq> i" for j
    using Suc.prems(1) [OF that] that by (simp add: held_at_def state_at_def s'(2))
  from Suc.IH [OF this, of "c\<lparr>cm_state := st\<rparr>"] show ?case
    by (simp add: s' turn)
qed

text \<open>C9. A claim that runs alone is the claim of the store. When no other connection holds a row, a claim
  that begins on a free connection and executes its five statements ends with the database and the
  result of \<open>claim_pending_query\<close> or \<open>claim_query_by_id\<close>, an error and its rollback included.\<close>

theorem claim_alone_is_store_claim:
  assumes "\<And>j. j \<noteq> i \<Longrightarrow> held_at s j = None" and "i < n" and "free_conn (state_at s i)"
  shows "let s' = run_txs n (Begin i utc now target stale # replicate 5 (Advance i)) s
    in (tx_db s', state_at s' i) =
      (case store_claim target utc now stale (tx_db s) of (d, res) \<Rightarrow> (d, Some (Ended res)))"
proof -
  let ?c = "\<lparr>cm_target = target, cm_cutoff = utc - stale * second, cm_now = now, cm_state = Begun\<rparr>"
  let ?s = "begin_claim n i utc now target stale s"
  have c: "tx_claims ?s i = Some ?c"
    using assms(2,3) by (simp add: begin_claim_def)
  have "held_at ?s j = None" if "j \<noteq> i" for j
    using assms that by (simp add: begin_claim_def)
  from advances_alone [OF this c, of n 5] run_claim_begun [of ?c utc stale "tx_db s"] show ?thesis
    by (simp add: Let_def case_prod_beta)
qed

theorem claim_alone_is_store_claim_witness:
  "tx_db (run_txs 10 (Begin 3 20 20 None 30 # replicate 5 (Advance 3)) (idle_pool idle_db)) =
     fst (claim_pending_query 20 20 30 idle_db)"
  using claim_alone_is_store_claim [of 3 "idle_pool idle_db" 10 20 20 None 30]
  by (simp add: Let_def store_claim_def case_prod_beta)

section \<open>Any number of claims\<close>

text \<open>C5. Interleaved claims are safe. Whatever the statements of concurrent claims and the other
  operations of the store are interleaved like, the store stays well formed, its statuses follow the life cycle,
  no two claims hold the same row, and a row a claim holds is pending and as it was when it was
  selected.\<close>

theorem interleaved_claims_safe:
  assumes "store_wf d" and "\<forall>e\<in>set evs. valid_event e"
  shows "let s = run_txs n evs (idle_pool d)
    in store_wf (tx_db s) \<and> board_step\<^sup>*\<^sup>* (board_of d) (board_of (tx_db s)) \<and>
      (\<forall>i r. held_at s i = Some r \<longrightarrow> query_of (q_id r) (tx_db s) = Some r \<and> q_status r = ''pending'') \<and>
      (\<forall>i j r r'. held_at s i = Some r \<and> held_at s j = Some r' \<and> q_id r = q_id r' \<longrightarrow> i = j)"
proof -
  have inv: "tx_inv n (run_txs n evs (idle_pool d))"
    by (rule txs.run_inv [OF tx_inv_idle [OF assms(1)] assms(2)])
  have "board_step\<^sup>*\<^sup>* (board_of (tx_db (idle_pool d))) (board_of (tx_db (run_txs n evs (idle_pool d))))"
    by (rule tx_board.run_refines [OF tx_inv_idle [OF assms(1)] assms(2)])
  then show ?thesis
    unfolding Let_def using tx_invD(1,3,4,5) [OF inv] by simp
qed


text \<open>C7. How far concurrent claims can exceed a worker's limit. While a worker does not register again, the
  queries that run on it exceed its limit by less than the number of connections that claim: with a
  single connection never, with the pool's ten by nine at most.\<close>

theorem overcommit_bounded:
  assumes "store_wf d" and "\<forall>e\<in>set evs. valid_event e \<and> \<not> registers_event k e" and "0 < n"
    and "worker_of k d = Some w" and "load_queries k d \<le> w_max_concurrent_queries w"
  shows "load_queries k (tx_db (run_txs n evs (idle_pool d))) \<le> w_max_concurrent_queries w + int n - 1"
proof -
  have "within_pool n k (w_max_concurrent_queries w) (idle_pool d)"
    using assms(3-5) by (simp add: within_pool_def limit_of_def choosers_def)
  from pool_load.run_fact [OF tx_inv_idle [OF assms(1)] assms(2) this] show ?thesis
    by (simp add: within_pool_def)
qed



section \<open>Two claims at once\<close>

definition rivals_db :: database where
  "rivals_db = sample_db [sample_worker 7 1 0] [sample_query 100 1 None, sample_query 101 2 None]"

definition rivals :: "tx_event list" where
  "rivals = [Begin 0 20 20 None 30, Begin 1 20 20 None 30, Advance 0, Advance 1, Advance 0, Advance 1,
     Advance 0, Advance 0, Advance 0, Advance 1, Advance 1, Advance 1]"

lemma rivals_db_wf: "store_wf rivals_db"
  by (simp add: store_wf_def rivals_db_def pk_def)

lemma rivals_end:
  "queries (tx_db (run_txs 2 rivals (idle_pool rivals_db))) =
    [assigned_row 20 7 (sample_query 100 1 None), assigned_row 20 7 (sample_query 101 2 None)]"
  by (simp add: rivals_def rivals_db_def idle_pool_def tx_eval numeral_2_eq_2)


text \<open>Two claims can exceed a limit. On a worker with room for one query, two claims that read its load
  before either commits both choose it: locking keeps them from taking the same query, not from taking
  the same room.\<close>

theorem concurrent_claims_overcommit:
  "let s = run_txs 2 rivals (idle_pool rivals_db)
   in limit_of 7 (tx_db s) = Some 1 \<and> load_queries 7 (tx_db s) = 2 \<and>
      map (\<lambda>c. (c_query_id c, c_worker_id c)) (tx_log s) = [(100, 7), (101, 7)]"
proof -
  have "limit_of 7 (tx_db (run_txs 2 rivals (idle_pool rivals_db))) = Some 1"
    by (simp add: rivals_def rivals_db_def idle_pool_def tx_eval numeral_2_eq_2 limit_of_def row_of_Cons)
  moreover have "map (\<lambda>c. (c_query_id c, c_worker_id c)) (tx_log (run_txs 2 rivals (idle_pool rivals_db))) =
      [(100, 7), (101, 7)]"
    by (simp add: rivals_def rivals_db_def idle_pool_def tx_eval numeral_2_eq_2)
  ultimately show ?thesis
    by (simp add: Let_def load_queries_def load_rows_def rivals_end)
qed

text \<open>A claim and a sweep. A worker whose heartbeats stop is chosen just before the sweep that stops it; the
  sweep does not see the claim's uncommitted row, and the claim does not look at the worker again. The
  query then runs on a stopped worker: neither the report that the worker is unreachable, when the dispatch
  fails, nor any later sweep takes it back.\<close>

definition race_db :: database where
  "race_db = sample_db [sample_worker 7 2 0] [sample_query 100 1 None]"

definition race :: "tx_event list" where
  "race = [Begin 0 (29 * second) 29 None 30, Advance 0, Advance 0, Commit (OpSweep (31 * second) 30),
     Advance 0, Advance 0, Advance 0]"

lemma race_end:
  "workers (tx_db (run_txs 2 race (idle_pool race_db))) = [(sample_worker 7 2 0)\<lparr>w_status := ''stopped''\<rparr>]"
  "queries (tx_db (run_txs 2 race (idle_pool race_db))) = [assigned_row 29 7 (sample_query 100 1 None)]"
  by (simp_all add: race_def race_db_def idle_pool_def tx_eval numeral_2_eq_2 commit_op_def keeps_locked_def
      sweep_stale_workers_def is_stale_def returning_def row_of_Cons)

theorem claim_races_sweep:
  "let s = run_txs 2 race (idle_pool race_db)
   in parked 7 (tx_db s) \<and>
      (\<forall>ops. (\<forall>op\<in>set ops. valid_op op \<and> silent_about 7 100 op) \<longrightarrow>
         query_of 100 (run_ops ops (tx_db s)) = Some (assigned_row 29 7 (sample_query 100 1 None)))"
proof -
  let ?d = "tx_db (run_txs 2 race (idle_pool race_db))"
  have wf: "store_wf race_db"
    by (simp add: store_wf_def race_db_def pk_def)
  have "store_wf ?d"
    by (rule tx_invD(1) [OF txs.run_inv [OF tx_inv_idle [OF wf]]]) (simp add: race_def)
  moreover have "parked 7 ?d"
    by (simp add: parked_def race_end row_of_Cons)
  moreover have "query_of 100 ?d = Some (assigned_row 29 7 (sample_query 100 1 None))"
    by (simp add: race_end row_of_Cons)
  ultimately show ?thesis
    unfolding Let_def run_ops_def
    using stranded.run_fact [of ?d _ 7 100 "assigned_row 29 7 (sample_query 100 1 None)"] by simp
qed

section \<open>The properties at concrete runs\<close>

lemma rivals_valid: "\<forall>e\<in>set rivals. valid_event e \<and> \<not> registers_event 7 e"
  by (simp add: rivals_def)

theorem interleaved_claims_safe_witness:
  "store_wf (tx_db (run_txs 2 rivals (idle_pool rivals_db)))"
  using interleaved_claims_safe [OF rivals_db_wf, of rivals 2] rivals_valid by (simp add: Let_def)


theorem overcommit_bounded_witness:
  "load_queries 7 (tx_db (run_txs 2 rivals (idle_pool rivals_db))) \<le>
    w_max_concurrent_queries (sample_worker 7 1 0) + int 2 - 1"
  by (rule overcommit_bounded [OF rivals_db_wf rivals_valid])
     (simp_all add: rivals_db_def row_of_Cons load_queries_def load_rows_def)


end
