(* ===== verification/Migrations.thy ===== *)
theory Migrations
  imports Schema
begin

text \<open>
  \<^verbatim>\<open>ducklauncher/db/pool.py\<close>: the pool of connections, and the execution of \<^verbatim>\<open>db/migrations.sql\<close> at every start
  of the coordinator, on whatever an earlier version left in the database. Here the database is seen from its
  catalog: extensions, tables with their columns and rows, and indexes. A value is of an arbitrary
  type, \<^verbatim>\<open>NULL\<close> is \<open>None\<close>.
\<close>

section \<open>The catalog\<close>

record reference =
  rf_table :: string
  rf_column :: string

record column =
  cl_name :: string
  cl_type :: string
  cl_constraints :: "string list"
  cl_references :: "reference option"

record 'v table =
  tb_columns :: "column list"
  tb_rows :: "'v option list list"

record index =
  ix_table :: string
  ix_columns :: "string list"
  ix_where :: "string option"

record 'v catalog =
  ct_available :: "string set"
  ct_extensions :: "string set"
  ct_tables :: "string \<Rightarrow> 'v table option"
  ct_indexes :: "string \<Rightarrow> index option"

text \<open>The statements of the file. A column it adds is nullable and has no default; \<open>CreateIndex\<close> lists the
  columns its predicate reads with the predicate.\<close>

datatype ddl =
    CreateExtension string
  | CreateTable string "column list"
  | AddColumn string column
  | CreateIndex string string "string list" "(string list \<times> string) option"

datatype ddl_error = UndefinedExtension | UndefinedTable string | UndefinedColumn

definition relation_exists :: "string \<Rightarrow> 'v catalog \<Rightarrow> bool" where
  "relation_exists n c \<longleftrightarrow> ct_tables c n \<noteq> None \<or> ct_indexes c n \<noteq> None"

definition column_names :: "'v table \<Rightarrow> string list" where
  "column_names tb = map cl_name (tb_columns tb)"

definition has_column :: "'v catalog \<Rightarrow> string \<Rightarrow> string \<Rightarrow> bool" where
  "has_column c t n \<longleftrightarrow> (case ct_tables c t of None \<Rightarrow> False | Some tb \<Rightarrow> n \<in> set (column_names tb))"

definition references_ok :: "'v catalog \<Rightarrow> column list \<Rightarrow> bool" where
  "references_ok c cols \<longleftrightarrow>
     (\<forall>col\<in>set cols. case cl_references col of None \<Rightarrow> True | Some r \<Rightarrow> has_column c (rf_table r) (rf_column r))"

section \<open>Executing a statement\<close>

text \<open>Every statement says \<^verbatim>\<open>IF NOT EXISTS\<close>: what is there is left alone.\<close>

fun exec_ddl :: "ddl \<Rightarrow> 'v catalog \<Rightarrow> ddl_error + 'v catalog" where
  "exec_ddl (CreateExtension e) c =
     (if e \<in> ct_extensions c then Inr c
      else if e \<in> ct_available c then Inr (c\<lparr>ct_extensions := insert e (ct_extensions c)\<rparr>)
      else Inl UndefinedExtension)"
| "exec_ddl (CreateTable n cols) c =
     (if relation_exists n c then Inr c
      else if references_ok c cols
      then Inr (c\<lparr>ct_tables := (ct_tables c)(n \<mapsto> \<lparr>tb_columns = cols, tb_rows = []\<rparr>)\<rparr>)
      else Inl UndefinedColumn)"
| "exec_ddl (AddColumn t col) c =
     (case ct_tables c t of
        None \<Rightarrow> Inl (UndefinedTable t)
      | Some tb \<Rightarrow>
          if cl_name col \<in> set (column_names tb) then Inr c
          else if references_ok c [col]
          then Inr (c\<lparr>ct_tables := (ct_tables c)(t \<mapsto> \<lparr>tb_columns = tb_columns tb @ [col],
                 tb_rows = map (\<lambda>r. r @ [None]) (tb_rows tb)\<rparr>)\<rparr>)
          else Inl UndefinedColumn)"
| "exec_ddl (CreateIndex n t cols pred) c =
     (if relation_exists n c then Inr c
      else if ct_tables c t = None then Inl (UndefinedTable t)
      else if \<forall>col\<in>set (cols @ (case pred of None \<Rightarrow> [] | Some (used, _) \<Rightarrow> used)). has_column c t col
      then Inr (c\<lparr>ct_indexes := (ct_indexes c)(n \<mapsto>
             \<lparr>ix_table = t, ix_columns = cols, ix_where = map_option snd pred\<rparr>)\<rparr>)
      else Inl UndefinedColumn)"

fun exec_script :: "ddl list \<Rightarrow> 'v catalog \<Rightarrow> ddl_error + 'v catalog" where
  "exec_script [] c = Inr c"
| "exec_script (s # ss) c = (case exec_ddl s c of Inl e \<Rightarrow> Inl e | Inr c' \<Rightarrow> exec_script ss c')"

section \<open>The file\<close>

abbreviation quoted :: "string \<Rightarrow> string" where
  "quoted s \<equiv> CHR 0x27 # s @ [CHR 0x27]"

abbreviation plain :: "string \<Rightarrow> string \<Rightarrow> string list \<Rightarrow> column" where
  "plain n ty cs \<equiv> \<lparr>cl_name = n, cl_type = ty, cl_constraints = cs, cl_references = None\<rparr>"

abbreviation refers :: "string \<Rightarrow> string \<Rightarrow> string list \<Rightarrow> string \<Rightarrow> string \<Rightarrow> column" where
  "refers n ty cs t k \<equiv> \<lparr>cl_name = n, cl_type = ty, cl_constraints = cs,
     cl_references = Some \<lparr>rf_table = t, rf_column = k\<rparr>\<rparr>"

definition workers_columns :: "column list" where
  "workers_columns =
     [plain ''worker_id'' ''uuid'' [''PRIMARY KEY''],
      plain ''endpoint'' ''text'' [''NOT NULL''],
      plain ''status'' ''text'' [''NOT NULL'', ''DEFAULT '' @ quoted ''running''],
      plain ''cpus'' ''int'' [''NOT NULL''],
      plain ''memory'' ''int'' [''NOT NULL''],
      plain ''disk_space'' ''int'' [''NOT NULL''],
      plain ''max_concurrent_queries'' ''int'' [''NOT NULL'', ''DEFAULT 10''],
      plain ''memory_used_mb'' ''int'' [],
      plain ''cpu_usage'' ''double precision'' [],
      plain ''started_at'' ''timestamptz'' [''NOT NULL'', ''DEFAULT now()''],
      plain ''last_heartbeat_at'' ''timestamptz'' [''NOT NULL'', ''DEFAULT now()'']]"

definition users_columns :: "column list" where
  "users_columns =
     [plain ''user_id'' ''uuid'' [''PRIMARY KEY'', ''DEFAULT gen_random_uuid()''],
      plain ''sub'' ''text'' [''NOT NULL'', ''UNIQUE''],
      plain ''email'' ''text'' [],
      plain ''name'' ''text'' [],
      plain ''created_at'' ''timestamptz'' [''NOT NULL'', ''DEFAULT now()''],
      plain ''last_login_at'' ''timestamptz'' [''NOT NULL'', ''DEFAULT now()'']]"

definition sessions_columns :: "column list" where
  "sessions_columns =
     [plain ''session_id'' ''uuid'' [''PRIMARY KEY'', ''DEFAULT gen_random_uuid()''],
      refers ''user_id'' ''uuid'' [''NOT NULL'', ''ON DELETE CASCADE''] ''users'' ''user_id'',
      plain ''expires_at'' ''timestamptz'' [''NOT NULL''],
      plain ''created_at'' ''timestamptz'' [''NOT NULL'', ''DEFAULT now()'']]"

definition queries_columns :: "column list" where
  "queries_columns =
     [plain ''query_id'' ''uuid'' [''PRIMARY KEY'', ''DEFAULT gen_random_uuid()''],
      refers ''worker_id'' ''uuid'' [] ''workers'' ''worker_id'',
      refers ''user_id'' ''uuid'' [] ''users'' ''user_id'',
      plain ''status'' ''text'' [''NOT NULL'', ''DEFAULT '' @ quoted ''pending''],
      plain ''query'' ''text'' [''NOT NULL''],
      plain ''error'' ''text'' [],
      plain ''cpus'' ''int'' [],
      plain ''memory'' ''int'' [],
      plain ''disk_space'' ''int'' [],
      plain ''created_at'' ''timestamptz'' [''NOT NULL'', ''DEFAULT now()''],
      plain ''started_at'' ''timestamptz'' [],
      plain ''completed_at'' ''timestamptz'' [],
      plain ''result_row_count'' ''bigint'' []]"

definition sheets_columns :: "column list" where
  "sheets_columns =
     [plain ''sheet_id'' ''uuid'' [''PRIMARY KEY'', ''DEFAULT gen_random_uuid()''],
      refers ''user_id'' ''uuid'' [''NOT NULL'', ''ON DELETE CASCADE''] ''users'' ''user_id'',
      plain ''name'' ''text'' [''NOT NULL''],
      plain ''sql'' ''text'' [''NOT NULL''],
      plain ''created_at'' ''timestamptz'' [''NOT NULL'', ''DEFAULT now()''],
      plain ''updated_at'' ''timestamptz'' [''NOT NULL'', ''DEFAULT now()'']]"

definition migrations_sql :: "ddl list" where
  "migrations_sql =
     [CreateExtension ''pgcrypto'',
      CreateTable ''workers'' workers_columns,
      CreateTable ''users'' users_columns,
      CreateTable ''sessions'' sessions_columns,
      CreateTable ''queries'' queries_columns,
      CreateTable ''sheets'' sheets_columns,
      AddColumn ''workers'' (plain ''memory_used_mb'' ''int'' []),
      AddColumn ''workers'' (plain ''cpu_usage'' ''double precision'' []),
      AddColumn ''queries'' (plain ''result_row_count'' ''bigint'' []),
      AddColumn ''queries'' (refers ''user_id'' ''uuid'' [] ''users'' ''user_id''),
      CreateIndex ''idx_queries_pending'' ''queries'' [''created_at''] (Some ([''status''], ''status = '' @ quoted ''pending'')),
      CreateIndex ''idx_queries_running_worker'' ''queries'' [''worker_id'']
        (Some ([''status''], ''status = '' @ quoted ''running'')),
      CreateIndex ''idx_workers_heartbeat'' ''workers'' [''last_heartbeat_at'']
        (Some ([''status''], ''status = '' @ quoted ''running'')),
      CreateIndex ''idx_sessions_expires'' ''sessions'' [''expires_at''] None,
      CreateIndex ''idx_queries_user_created'' ''queries'' [''user_id'', ''created_at'']
        (Some ([''user_id''], ''user_id IS NOT NULL'')),
      CreateIndex ''idx_sheets_user'' ''sheets'' [''user_id'', ''updated_at''] None]"

text \<open>\<^verbatim>\<open>conn.execute(sql)\<close> without arguments sends the whole text at once, which the server runs as one
  transaction: an error in any statement undoes the others.\<close>

definition run_migrations :: "'v catalog \<Rightarrow> 'v catalog \<times> (ddl_error + unit)" where
  "run_migrations c =
     (case exec_script migrations_sql c of Inl e \<Rightarrow> (c, Inl e) | Inr c' \<Rightarrow> (c', Inr ()))"


section \<open>What a statement changes\<close>

text \<open>What is there stays, with its columns first and its rows extended by nulls.\<close>

definition extended :: "'v table \<Rightarrow> 'v table \<Rightarrow> bool" where
  "extended tb tb' \<longleftrightarrow> (\<exists>new. tb_columns tb' = tb_columns tb @ new \<and>
     tb_rows tb' = map (\<lambda>r. r @ replicate (length new) None) (tb_rows tb))"

definition keeps :: "'v catalog \<Rightarrow> 'v catalog \<Rightarrow> bool" where
  "keeps c c' \<longleftrightarrow>
     ct_available c' = ct_available c \<and> ct_extensions c \<subseteq> ct_extensions c' \<and>
     (\<forall>t tb. ct_tables c t = Some tb \<longrightarrow> (\<exists>tb'. ct_tables c' t = Some tb' \<and> extended tb tb')) \<and>
     (\<forall>n ix. ct_indexes c n = Some ix \<longrightarrow> ct_indexes c' n = Some ix)"

lemma extended_refl [simp]: "extended tb tb"
  by (simp add: extended_def)

lemma extended_trans: "extended a b \<Longrightarrow> extended b c \<Longrightarrow> extended a c"
  by (force simp: extended_def replicate_add)

lemma keeps_refl [simp]: "keeps c c"
  by (simp add: keeps_def)

lemma keeps_trans: "keeps a b \<Longrightarrow> keeps b c \<Longrightarrow> keeps a c"
  unfolding keeps_def
  by (intro conjI) (simp, blast, meson extended_trans, simp)

lemma exec_ddl_keeps: "exec_ddl s c = Inr c' \<Longrightarrow> keeps c c'"
  by (cases s) (auto simp: keeps_def relation_exists_def extended_def split: if_splits option.splits)

lemma exec_script_keeps: "exec_script ss c = Inr c' \<Longrightarrow> keeps c c'"
  by (induction ss arbitrary: c) (auto split: sum.splits intro: keeps_trans exec_ddl_keeps)

text \<open>Whether what a statement asks for is there. Then it does nothing, it is so after the statement, and
  it stays so.\<close>

fun satisfied :: "ddl \<Rightarrow> 'v catalog \<Rightarrow> bool" where
  "satisfied (CreateExtension e) c = (e \<in> ct_extensions c)"
| "satisfied (CreateTable n cols) c = relation_exists n c"
| "satisfied (AddColumn t col) c = has_column c t (cl_name col)"
| "satisfied (CreateIndex n t cols pred) c = relation_exists n c"

lemma exec_satisfied: "satisfied s c \<Longrightarrow> exec_ddl s c = Inr c"
  by (cases s) (auto simp: has_column_def split: option.splits)

lemma exec_satisfies: "exec_ddl s c = Inr c' \<Longrightarrow> satisfied s c'"
  by (cases s) (auto simp: relation_exists_def has_column_def column_names_def split: if_splits option.splits)

lemma keeps_relation: "keeps c c' \<Longrightarrow> relation_exists n c \<Longrightarrow> relation_exists n c'"
  unfolding keeps_def relation_exists_def by blast

lemma keeps_column: "keeps c c' \<Longrightarrow> has_column c t n \<Longrightarrow> has_column c' t n"
  by (force simp: keeps_def has_column_def column_names_def extended_def split: option.splits)

lemma keeps_satisfied: "keeps c c' \<Longrightarrow> satisfied s c \<Longrightarrow> satisfied s c'"
  by (cases s) (auto intro: keeps_relation keeps_column simp: keeps_def)

lemma exec_script_satisfied: "\<forall>s\<in>set ss. satisfied s c \<Longrightarrow> exec_script ss c = Inr c"
  by (induction ss) (simp_all add: exec_satisfied)

lemma exec_script_satisfies: "exec_script ss c = Inr c' \<Longrightarrow> s \<in> set ss \<Longrightarrow> satisfied s c'"
  by (induction ss arbitrary: c)
     (auto split: sum.splits intro: keeps_satisfied [OF exec_script_keeps exec_satisfies])

section \<open>When a script succeeds\<close>

text \<open>A static check: \<open>old\<close> gives, for each table, the columns every version of it has had, and \<open>known\<close> the
  columns that are there for certain when the statement runs.\<close>

fun created :: "ddl list \<Rightarrow> string list" where
  "created [] = []"
| "created (CreateTable n cols # ss) = n # created ss"
| "created (s # ss) = created ss"

lemma created: "CreateTable n cols \<in> set ss \<Longrightarrow> n \<in> set (created ss)"
  by (induction ss rule: created.induct) auto

fun check_script :: "(string \<Rightarrow> string list) \<Rightarrow> ddl list \<Rightarrow> (string \<times> string) list \<Rightarrow> bool" where
  "check_script old [] known = True"
| "check_script old (CreateExtension e # ss) known = check_script old ss known"
| "check_script old (CreateTable n cols # ss) known =
     ((\<forall>c\<in>set cols. case cl_references c of None \<Rightarrow> True | Some r \<Rightarrow> (rf_table r, rf_column r) \<in> set known) \<and>
      set (old n) \<subseteq> cl_name ` set cols \<and> check_script old ss (map (Pair n) (old n) @ known))"
| "check_script old (AddColumn t c # ss) known =
     (t \<in> fst ` set known \<and>
      (case cl_references c of None \<Rightarrow> True | Some r \<Rightarrow> (rf_table r, rf_column r) \<in> set known) \<and>
      check_script old ss ((t, cl_name c) # known))"
| "check_script old (CreateIndex n t cols pred # ss) known =
     (t \<in> fst ` set known \<and>
      (\<forall>c\<in>set (cols @ (case pred of None \<Rightarrow> [] | Some (used, _) \<Rightarrow> used)). (t, c) \<in> set known) \<and>
      n \<notin> set (created ss) \<and> check_script old ss known)"

text \<open>A database an earlier version left behind: extensions can be had, a table the script creates is absent,
  name included, or has the columns every version had.\<close>

definition compatible :: "(string \<Rightarrow> string list) \<Rightarrow> ddl list \<Rightarrow> 'v catalog \<Rightarrow> bool" where
  "compatible old ss c \<longleftrightarrow>
     (\<forall>e. CreateExtension e \<in> set ss \<longrightarrow> e \<in> ct_available c \<union> ct_extensions c) \<and>
     (\<forall>n cols. CreateTable n cols \<in> set ss \<longrightarrow>
        \<not> relation_exists n c \<or> (\<forall>k\<in>set (old n). has_column c n k) \<and> ct_tables c n \<noteq> None)"

lemma has_column_table: "has_column c t n \<Longrightarrow> \<exists>tb. ct_tables c t = Some tb"
  by (auto simp: has_column_def split: option.splits)

lemma keeps_table: "keeps c c' \<Longrightarrow> ct_tables c t \<noteq> None \<Longrightarrow> ct_tables c' t \<noteq> None"
  unfolding keeps_def by fastforce

lemma known_table:
  "t \<in> fst ` set known \<Longrightarrow> \<forall>(t, n)\<in>set known. has_column c t n \<Longrightarrow> \<exists>tb. ct_tables c t = Some tb"
  by (force dest: has_column_table)

lemma compatible_tl:
  assumes "compatible old (s # ss) c" and "exec_ddl s c = Inr c'"
    and "\<And>n t cols pred. s = CreateIndex n t cols pred \<Longrightarrow> n \<notin> set (created ss)"
    and "\<And>n cols. s = CreateTable n cols \<Longrightarrow> set (old n) \<subseteq> cl_name ` set cols"
  shows "compatible old ss c'"
  unfolding compatible_def
proof (intro conjI allI impI)
  note k = exec_ddl_keeps [OF assms(2)]
  fix e assume "CreateExtension e \<in> set ss"
  with assms(1) k show "e \<in> ct_available c' \<union> ct_extensions c'"
    by (auto simp: compatible_def keeps_def)
next
  note k = exec_ddl_keeps [OF assms(2)]
  fix n cols assume n: "CreateTable n cols \<in> set ss"
  have "\<not> relation_exists n c \<or> (\<forall>k\<in>set (old n). has_column c n k) \<and> ct_tables c n \<noteq> None"
    using assms(1) n by (auto simp: compatible_def)
  then show "\<not> relation_exists n c' \<or> (\<forall>k\<in>set (old n). has_column c' n k) \<and> ct_tables c' n \<noteq> None"
  proof
    assume there: "(\<forall>k\<in>set (old n). has_column c n k) \<and> ct_tables c n \<noteq> None"
    with keeps_table [OF k] keeps_column [OF k] show ?thesis by blast
  next
    assume new: "\<not> relation_exists n c"
    show ?thesis
    proof (cases s)
      case (CreateTable m cols')
      with assms(2,4) new show ?thesis
        by (auto simp: relation_exists_def has_column_def column_names_def split: if_splits)
    qed (use assms(2,3) created [OF n] new in \<open>auto simp: relation_exists_def split: if_splits option.splits\<close>)
  qed
qed


text \<open>One statement that passes the check succeeds, and what the check then knows holds.\<close>

lemma exec_known:
  assumes "compatible old (s # ss) c" and "check_script old (s # ss) known"
    and known: "\<forall>(t, n)\<in>set known. has_column c t n"
  shows "\<exists>c' known'. exec_ddl s c = Inr c' \<and> check_script old ss known' \<and> set known \<subseteq> set known' \<and>
    (\<forall>(t, n)\<in>set known'. has_column c' t n) \<and>
    (\<forall>n cols. s = CreateTable n cols \<longrightarrow> (\<forall>k\<in>set (old n). (n, k) \<in> set known'))"
proof -
  have refs: "references_ok c cols"
    if "\<forall>c\<in>set cols. case cl_references c of None \<Rightarrow> True | Some r \<Rightarrow> (rf_table r, rf_column r) \<in> set known"
    for cols
    using that known by (force simp: references_ok_def split: option.splits)
  show ?thesis
  proof (cases s)
    case (CreateExtension e)
    with assms have "e \<in> ct_available c \<union> ct_extensions c" by (auto simp: compatible_def)
    then obtain c' where c': "exec_ddl s c = Inr c'"
      using CreateExtension by (cases "e \<in> ct_extensions c") auto
    have "\<forall>(t, n)\<in>set known. has_column c' t n"
      using known keeps_column [OF exec_ddl_keeps [OF c']] by blast
    with CreateExtension assms(2) c' show ?thesis
      by (intro exI [of _ c'] exI [of _ known]) auto
  next
    case (CreateTable n cols)
    have r: "references_ok c cols" using refs assms(2) CreateTable by simp
    obtain c' where c': "exec_ddl s c = Inr c'"
      using r CreateTable by (cases "relation_exists n c") simp_all
    have "has_column c' n k" if "k \<in> set (old n)" for k
    proof (cases "relation_exists n c")
      case True
      with assms(1) CreateTable that have "has_column c n k" by (auto simp: compatible_def)
      with keeps_column [OF exec_ddl_keeps [OF c']] show ?thesis by blast
    next
      case False
      with c' CreateTable r that assms(2) show ?thesis
        by (auto simp: has_column_def column_names_def)
    qed
    moreover have "\<forall>(t, n)\<in>set known. has_column c' t n"
      using known keeps_column [OF exec_ddl_keeps [OF c']] by blast
    ultimately show ?thesis
      using CreateTable assms(2) c' by (intro exI [of _ c'] exI [of _ "map (Pair n) (old n) @ known"]) auto
  next
    case (AddColumn t k)
    have "references_ok c [k]" using refs [of "[k]"] assms(2) AddColumn by simp
    moreover obtain tb where "ct_tables c t = Some tb"
      using known_table [OF _ known] assms(2) AddColumn by auto
    ultimately obtain c' where c': "exec_ddl s c = Inr c'"
      using AddColumn by (cases "cl_name k \<in> set (column_names tb)") simp_all
    have "has_column c' t (cl_name k)"
      using exec_satisfies [OF c'] AddColumn by simp
    moreover have "\<forall>(t, n)\<in>set known. has_column c' t n"
      using known keeps_column [OF exec_ddl_keeps [OF c']] by blast
    ultimately show ?thesis
      using AddColumn assms(2) c' by (intro exI [of _ c'] exI [of _ "(t, cl_name k) # known"]) auto
  next
    case (CreateIndex n t cols pred)
    have "\<exists>tb. ct_tables c t = Some tb"
      using known_table [OF _ known] assms(2) CreateIndex by simp
    moreover have "\<forall>k\<in>set (cols @ (case pred of None \<Rightarrow> [] | Some (used, _) \<Rightarrow> used)). has_column c t k"
      using assms(2) CreateIndex known by fastforce
    ultimately obtain c' where c': "exec_ddl s c = Inr c'"
      using CreateIndex by (cases "relation_exists n c") auto
    have "\<forall>(t, n)\<in>set known. has_column c' t n"
      using known keeps_column [OF exec_ddl_keeps [OF c']] by blast
    with CreateIndex assms(2) c' show ?thesis
      by (intro exI [of _ c'] exI [of _ known]) auto
  qed
qed

lemma check_script_sound:
  assumes "compatible old ss c" and "check_script old ss known" and "\<forall>(t, n)\<in>set known. has_column c t n"
  shows "\<exists>c'. exec_script ss c = Inr c' \<and>
    (\<forall>n cols. CreateTable n cols \<in> set ss \<longrightarrow> (\<forall>k\<in>set (old n). has_column c' n k))"
  using assms
proof (induction ss arbitrary: c known)
  case Nil
  then show ?case by simp
next
  case (Cons s ss)
  from exec_known [OF Cons.prems] obtain c1 known' where
    c1: "exec_ddl s c = Inr c1" "check_script old ss known'" "\<forall>(t, n)\<in>set known'. has_column c1 t n" and
    here: "\<forall>n cols. s = CreateTable n cols \<longrightarrow> (\<forall>k\<in>set (old n). (n, k) \<in> set known')"
    by blast
  have "compatible old ss c1"
    using Cons.prems(2) by (intro compatible_tl [OF Cons.prems(1) c1(1)]) auto
  from Cons.IH [OF this c1(2,3)] obtain c' where
    c': "exec_script ss c1 = Inr c'" "\<forall>n cols. CreateTable n cols \<in> set ss \<longrightarrow> (\<forall>k\<in>set (old n). has_column c' n k)"
    by blast
  have "has_column c' n k" if "s = CreateTable n cols" "k \<in> set (old n)" for n cols k
    using here that c1(3) keeps_column [OF exec_script_keeps [OF c'(1)]] by blast
  with c' c1(1) show ?case by auto
qed

section \<open>The columns of the file\<close>

text \<open>What each table has had from the first: all columns but the four the file adds.\<close>

definition first_columns :: "string \<Rightarrow> string list" where
  "first_columns t =
     (if t = ''workers'' then filter (\<lambda>n. n \<notin> {''memory_used_mb'', ''cpu_usage''}) (map cl_name workers_columns)
      else if t = ''queries'' then filter (\<lambda>n. n \<notin> {''result_row_count'', ''user_id''}) (map cl_name queries_columns)
      else if t = ''users'' then map cl_name users_columns
      else if t = ''sessions'' then map cl_name sessions_columns
      else if t = ''sheets'' then map cl_name sheets_columns
      else [])"

lemmas columns_defs = workers_columns_def users_columns_def sessions_columns_def queries_columns_def
  sheets_columns_def

definition added_columns :: "(string \<times> column) list" where
  "added_columns =
     [(''workers'', plain ''memory_used_mb'' ''int'' []), (''workers'', plain ''cpu_usage'' ''double precision'' []),
      (''queries'', plain ''result_row_count'' ''bigint'' []),
      (''queries'', refers ''user_id'' ''uuid'' [] ''users'' ''user_id'')]"

lemma added_columns: "(t, k) \<in> set added_columns \<Longrightarrow> AddColumn t k \<in> set migrations_sql"
  by (auto simp: added_columns_def migrations_sql_def)

lemma tables_of_migrations:
  "CreateTable n cols \<in> set migrations_sql \<Longrightarrow>
    (n, cols) \<in> {(''workers'', workers_columns), (''users'', users_columns), (''sessions'', sessions_columns),
      (''queries'', queries_columns), (''sheets'', sheets_columns)}"
  by (simp add: migrations_sql_def)

lemma column_origin:
  assumes "CreateTable n cols \<in> set migrations_sql"
  shows "\<forall>k\<in>cl_name ` set cols. k \<in> set (first_columns n) \<or> (\<exists>c. (n, c) \<in> set added_columns \<and> cl_name c = k)"
proof -
  have w: "\<forall>k\<in>cl_name ` set workers_columns. k \<in> set (first_columns ''workers'') \<or>
      (\<exists>c\<in>set (map snd (filter (\<lambda>(t, c). t = ''workers'') added_columns)). cl_name c = k)"
    by (simp add: first_columns_def added_columns_def workers_columns_def)
  have q: "\<forall>k\<in>cl_name ` set queries_columns. k \<in> set (first_columns ''queries'') \<or>
      (\<exists>c\<in>set (map snd (filter (\<lambda>(t, c). t = ''queries'') added_columns)). cl_name c = k)"
    by (simp add: first_columns_def added_columns_def queries_columns_def)
  have member: "\<exists>c. (n, c) \<in> set added_columns \<and> cl_name c = k"
    if "\<exists>c\<in>set (map snd (filter (\<lambda>(t, c). t = n) added_columns)). cl_name c = k" for n k
    using that by auto
  from tables_of_migrations [OF assms] consider "n = ''workers''" "cols = workers_columns" |
    "n = ''queries''" "cols = queries_columns" | "cl_name ` set cols \<subseteq> set (first_columns n)"
    by (auto simp: first_columns_def)
  then show ?thesis
  proof cases
    case 1
    with w member show ?thesis by blast
  next
    case 2
    with q member show ?thesis by blast
  next
    case 3
    then show ?thesis by blast
  qed
qed

lemma migrations_checked: "check_script first_columns migrations_sql []"
  by code_simp

text \<open>A database of an earlier version: one of its tables, with a row.\<close>

definition earlier_catalog :: "nat catalog" where
  "earlier_catalog =
     \<lparr>ct_available = {''pgcrypto''}, ct_extensions = {},
      ct_tables = [''workers'' \<mapsto>
        \<lparr>tb_columns = filter (\<lambda>c. cl_name c \<in> set (first_columns ''workers'')) workers_columns,
         tb_rows = [map Some [1..<10]]\<rparr>],
      ct_indexes = Map.empty\<rparr>"

lemma earlier_compatible: "compatible first_columns migrations_sql earlier_catalog"
proof -
  have "set (first_columns ''workers'') \<subseteq> cl_name ` set workers_columns"
    by (auto simp: first_columns_def)
  then have here: "\<forall>k\<in>set (first_columns ''workers''). has_column earlier_catalog ''workers'' k"
    by (fastforce simp: earlier_catalog_def has_column_def column_names_def)
  have there: "ct_tables earlier_catalog ''workers'' \<noteq> None"
    by (simp add: earlier_catalog_def)
  have absent: "\<not> relation_exists n earlier_catalog" if "n \<noteq> ''workers''" for n
    using that by (simp add: earlier_catalog_def relation_exists_def)
  have "e \<in> ct_available earlier_catalog" if "CreateExtension e \<in> set migrations_sql" for e
    using that by (simp add: migrations_sql_def earlier_catalog_def)
  moreover have "\<not> relation_exists n earlier_catalog \<or>
      (\<forall>k\<in>set (first_columns n). has_column earlier_catalog n k) \<and> ct_tables earlier_catalog n \<noteq> None" for n
    using here there absent [of n] by (cases "n = ''workers''") blast+
  ultimately show ?thesis
    unfolding compatible_def by simp
qed

section \<open>Properties\<close>

text \<open>Migrating again changes nothing. The migrations run at every start of the coordinator: once they
  have succeeded, running them on the result succeeds and leaves it as it is.\<close>

lemma migrations_idempotent:
  assumes "run_migrations c = (c', Inr ())"
  shows "run_migrations c' = (c', Inr ())"
proof -
  from assms have "exec_script migrations_sql c = Inr c'"
    by (simp add: run_migrations_def split: sum.splits)
  then have "\<forall>s\<in>set migrations_sql. satisfied s c'"
    using exec_script_satisfies by blast
  then show ?thesis
    by (simp add: run_migrations_def exec_script_satisfied)
qed

text \<open>Migrations lose nothing. Whatever the database held, and whether they succeed or fail, every table
  keeps its columns in their places and its rows, with nulls in the columns that were added, and every index
  is kept.\<close>

lemma migrations_keep_data: "keeps c (fst (run_migrations c))"
  by (cases "exec_script migrations_sql c") (simp_all add: run_migrations_def exec_script_keeps)

text \<open>C10. The migrations bring every earlier version up to date. On a database where each of the five tables
  is absent or has at least its first columns, and the extension can be had, they succeed; every
  column of the file's tables, and so every column the store's statements name, is there; every table that was there keeps
  its columns in their places and its rows, with nulls in the columns that were added; and a second run
  changes nothing.\<close>

theorem migrations_upgrade:
  assumes "compatible first_columns migrations_sql c"
  shows "\<exists>c'. run_migrations c = (c', Inr ()) \<and> run_migrations c' = (c', Inr ()) \<and> keeps c c' \<and>
    (\<forall>n cols. CreateTable n cols \<in> set migrations_sql \<longrightarrow> (\<forall>k\<in>cl_name ` set cols. has_column c' n k))"
proof -
  from check_script_sound [OF assms migrations_checked] obtain c' where
    c': "exec_script migrations_sql c = Inr c'" and
    first: "\<forall>n cols. CreateTable n cols \<in> set migrations_sql \<longrightarrow> (\<forall>k\<in>set (first_columns n). has_column c' n k)"
    by auto
  have added: "has_column c' t (cl_name k)" if "AddColumn t k \<in> set migrations_sql" for t k
    using exec_script_satisfies [OF c' that] by simp
  have "has_column c' n k" if "CreateTable n cols \<in> set migrations_sql" "k \<in> cl_name ` set cols" for n cols k
    using column_origin [OF that(1), rule_format, OF that(2)]
  proof
    assume "k \<in> set (first_columns n)"
    with first that(1) show ?thesis by blast
  next
    assume "\<exists>c. (n, c) \<in> set added_columns \<and> cl_name c = k"
    with added [OF added_columns] show ?thesis by blast
  qed
  moreover have run: "run_migrations c = (c', Inr ())"
    using c' by (simp add: run_migrations_def)
  moreover have "keeps c c'"
    using migrations_keep_data [of c] run by simp
  ultimately show ?thesis
    using migrations_idempotent [OF run] by blast
qed

theorem migrations_upgrade_witness:
  "\<exists>c'. run_migrations earlier_catalog = (c', Inr ()) \<and> has_column c' ''workers'' ''cpu_usage''"
proof -
  have "CreateTable ''workers'' workers_columns \<in> set migrations_sql" "''cpu_usage'' \<in> cl_name ` set workers_columns"
    by (simp_all add: migrations_sql_def workers_columns_def)
  with migrations_upgrade [OF earlier_compatible] show ?thesis by blast
qed

end
