(* ===== verification/Coordinator_App.thy ===== *)
theory Coordinator_App
  imports Migrations Event_Hub Scheduler Init_Scripts
begin

text \<open>
  The coordinator as a process: the command \<^verbatim>\<open>coordinator\<close> of \<^verbatim>\<open>ducklauncher/cli.py\<close>, which resolves its
  settings, the lifespan of \<^verbatim>\<open>ducklauncher/apps/coordinator.py\<close> with the connections it opens and
  closes, the listener of \<^verbatim>\<open>coordinator/events.py\<close> around its callback, and \<^verbatim>\<open>init_database\<close> of
  \<^verbatim>\<open>db/pool.py\<close>. Whether the driver connects is given.
\<close>

section \<open>The command\<close>

text \<open>What a source of settings says about the coordinator: the options of the command and the environment
  are two such sources.\<close>

record coordinator_source =
  src_database_url :: "string option"
  src_init_scripts_path :: "string option"
  src_co_heartbeat_interval_sec :: "int option"
  src_worker_stale_sec :: "int option"
  src_scheduler_interval_sec :: "real option"
  src_dispatch_timeout_sec :: "real option"
  src_oidc_issuer_url :: "string option"
  src_oidc_client_id :: "string option"
  src_oidc_client_secret :: "string option"
  src_oidc_redirect_uri :: "string option"
  src_session_secret :: "string option"
  src_session_ttl_hours :: "int option"
  src_public_base_url :: "string option"

definition no_source :: coordinator_source where
  "no_source = \<lparr>src_database_url = None, src_init_scripts_path = None, src_co_heartbeat_interval_sec = None,
     src_worker_stale_sec = None, src_scheduler_interval_sec = None, src_dispatch_timeout_sec = None,
     src_oidc_issuer_url = None, src_oidc_client_id = None, src_oidc_client_secret = None,
     src_oidc_redirect_uri = None, src_session_secret = None, src_session_ttl_hours = None,
     src_public_base_url = None\<rparr>"

text \<open>\<^verbatim>\<open>CoordinatorSettings(...)\<close>: an argument, else the environment, else the default.\<close>

definition build_coordinator_settings ::
  "coordinator_source \<Rightarrow> coordinator_source \<Rightarrow> coordinator_settings" where
  "build_coordinator_settings env overrides =
     (let d = default_coordinator_settings
      in \<lparr>database_url = coalesce (src_database_url overrides)
             (coalesce (src_database_url env) (database_url d)),
          init_scripts_path = coalesce_opt (src_init_scripts_path overrides) (src_init_scripts_path env),
          co_heartbeat_interval_sec = coalesce (src_co_heartbeat_interval_sec overrides)
             (coalesce (src_co_heartbeat_interval_sec env) (co_heartbeat_interval_sec d)),
          worker_stale_sec = coalesce (src_worker_stale_sec overrides)
             (coalesce (src_worker_stale_sec env) (worker_stale_sec d)),
          scheduler_interval_sec = coalesce (src_scheduler_interval_sec overrides)
             (coalesce (src_scheduler_interval_sec env) (scheduler_interval_sec d)),
          dispatch_timeout_sec = coalesce (src_dispatch_timeout_sec overrides)
             (coalesce (src_dispatch_timeout_sec env) (dispatch_timeout_sec d)),
          oidc_issuer_url = coalesce_opt (src_oidc_issuer_url overrides) (src_oidc_issuer_url env),
          oidc_client_id = coalesce_opt (src_oidc_client_id overrides) (src_oidc_client_id env),
          oidc_client_secret = coalesce_opt (src_oidc_client_secret overrides) (src_oidc_client_secret env),
          oidc_redirect_uri = coalesce_opt (src_oidc_redirect_uri overrides) (src_oidc_redirect_uri env),
          session_secret = coalesce_opt (src_session_secret overrides) (src_session_secret env),
          session_ttl_hours = coalesce (src_session_ttl_hours overrides)
             (coalesce (src_session_ttl_hours env) (session_ttl_hours d)),
          public_base_url = coalesce (src_public_base_url overrides)
             (coalesce (src_public_base_url env) (public_base_url d))\<rparr>)"

text \<open>The options of the command, and what it hands to the server: settings, host and port.\<close>

record coordinator_options =
  op_init_scripts :: "posix_path option"
  op_database_url :: "string option"
  op_host :: "string option"
  op_port :: "int option"
  op_heartbeat_interval_sec :: "int option"
  op_worker_stale_sec :: "int option"
  op_scheduler_interval_sec :: "real option"

definition coordinator_command ::
  "file_system \<Rightarrow> coordinator_source \<Rightarrow> coordinator_options \<Rightarrow> coordinator_settings \<times> string \<times> int" where
  "coordinator_command fs env args =
     (let resolved_init_scripts = resolve_init_scripts_path fs (map_option str_path (op_init_scripts args));
          settings = build_coordinator_settings env
            (no_source\<lparr>src_init_scripts_path := resolved_init_scripts,
               src_database_url := op_database_url args,
               src_co_heartbeat_interval_sec := op_heartbeat_interval_sec args,
               src_worker_stale_sec := op_worker_stale_sec args,
               src_scheduler_interval_sec := op_scheduler_interval_sec args\<rparr>)
      in (settings, coalesce (op_host args) ''0.0.0.0'', coalesce (op_port args) 8000))"

section \<open>The listener\<close>

text \<open>What the driver does for the listener: whether it connects, subscribes to the channel, and at the end
  unsubscribes and closes, and the notifications it delivers until the stop event.\<close>

record listen_world =
  ln_connects :: bool
  ln_adds :: bool
  ln_texts :: "string list"
  ln_removes :: bool
  ln_closes :: bool

datatype app_event =
    PoolCreated | ClientCreated | Migrated | TasksStarted
  | Connected | Listening | Unlistened | Disconnected
  | StopSet | ClientClosed | PoolClosed

text \<open>The effects of the loop, the hub after it, and whether the task ended with an exception. The
  \<^verbatim>\<open>finally\<close> covers the wait only: an exception of \<^verbatim>\<open>add_listener\<close> leaves the connection open.\<close>

definition postgres_listen_loop :: "listen_world \<Rightarrow> hub \<Rightarrow> app_event list \<times> hub \<times> bool" where
  "postgres_listen_loop w h =
     (if \<not> ln_connects w then ([], h, True)
      else if \<not> ln_adds w then ([Connected], h, True)
      else (let h' = foldl (\<lambda>h text. on_notify text h) h (ln_texts w)
            in if \<not> ln_removes w then ([Connected, Listening], h', True)
               else if \<not> ln_closes w then ([Connected, Listening, Unlistened], h', True)
               else ([Connected, Listening, Unlistened, Disconnected], h', False)))"

section \<open>The lifespan\<close>

datatype start_failure = PoolFailed | MigrationFailed ddl_error

text \<open>Up to \<^verbatim>\<open>yield\<close>: the effects, the catalog, and the settings it serves with or why it does not.\<close>

definition start_coordinator ::
  "coordinator_source \<Rightarrow> coordinator_settings option \<Rightarrow> bool \<Rightarrow> 'v catalog
    \<Rightarrow> app_event list \<times> 'v catalog \<times> (start_failure + coordinator_settings)" where
  "start_coordinator env settings pool_connects c =
     (let resolved_settings = (case settings of Some s \<Rightarrow> s | None \<Rightarrow> build_coordinator_settings env no_source)
      in if \<not> pool_connects then ([], c, Inl PoolFailed)
         else (case run_migrations c of
                 (c', Inl e) \<Rightarrow> ([PoolCreated, ClientCreated], c', Inl (MigrationFailed e))
               | (c', Inr _) \<Rightarrow>
                   ([PoolCreated, ClientCreated, Migrated, TasksStarted], c', Inr resolved_settings)))"

text \<open>After \<^verbatim>\<open>yield\<close>: the scheduler's task ends when its loop sees the stop event, without an
  exception, since the loop catches those of its iterations; \<^verbatim>\<open>asyncio.gather\<close> raises the listener's again.\<close>

definition stop_coordinator :: "bool \<Rightarrow> app_event list" where
  "stop_coordinator listener_raised =
     (if listener_raised then [StopSet] else [StopSet, ClientClosed, PoolClosed])"

text \<open>A whole run: the effects in order, those of the listener before the end of its task, the catalog, the
  database after the rounds of the scheduler and the hub.\<close>

definition run_coordinator ::
  "coordinator_source \<Rightarrow> coordinator_settings option \<Rightarrow> bool \<Rightarrow> 'v catalog \<Rightarrow> listen_world \<Rightarrow> round list \<Rightarrow> database
    \<Rightarrow> app_event list \<times> 'v catalog \<times> database \<times> hub" where
  "run_coordinator env settings pool_connects c w rounds d =
     (case start_coordinator env settings pool_connects c of
        (evs, c', Inl e) \<Rightarrow> (evs, c', d, new_hub)
      | (evs, c', Inr s) \<Rightarrow>
          (case postgres_listen_loop w new_hub of
             (listen, h, raised) \<Rightarrow>
               (evs @ listen @ stop_coordinator raised, c', scheduler_loop s rounds d, h)))"

text \<open>\<^verbatim>\<open>init_database\<close>: the migrations alone.\<close>

definition init_database ::
  "bool \<Rightarrow> 'v catalog \<Rightarrow> app_event list \<times> 'v catalog \<times> (start_failure + unit)" where
  "init_database pool_connects c =
     (if \<not> pool_connects then ([], c, Inl PoolFailed)
      else (case run_migrations c of
              (c', Inl e) \<Rightarrow> ([PoolCreated, PoolClosed], c', Inl (MigrationFailed e))
            | (c', Inr _) \<Rightarrow> ([PoolCreated, Migrated, PoolClosed], c', Inr ())))"

section \<open>Properties\<close>

text \<open>Which value a setting of the coordinator has. An option that is given wins over the environment, the environment
  over the default; the settings the command has no option for come from the environment.\<close>

theorem coordinator_precedence:
  "database_url (fst (coordinator_command fs env args)) =
     coalesce (op_database_url args) (coalesce (src_database_url env) (database_url default_coordinator_settings)) \<and>
   worker_stale_sec (fst (coordinator_command fs env args)) =
     coalesce (op_worker_stale_sec args) (coalesce (src_worker_stale_sec env) 30) \<and>
   session_secret (fst (coordinator_command fs env args)) = src_session_secret env"
  by (simp add: coordinator_command_def build_coordinator_settings_def no_source_def Let_def
      default_coordinator_settings_def)

text \<open>The file \<^verbatim>\<open>init.sql\<close> of the working directory wins over the environment: the command resolves the default
  path before it builds the settings and passes it like an option, so that \<^verbatim>\<open>INIT_SCRIPTS_PATH\<close> counts only where
  there is no such file.\<close>

theorem init_file_beats_environment:
  assumes "op_init_scripts args = None"
  shows "init_scripts_path (fst (coordinator_command fs env args)) =
    (if is_file fs ''init.sql'' then Some (resolve fs ''init.sql'') else src_init_scripts_path env)"
  using assms
  by (simp add: coordinator_command_def build_coordinator_settings_def no_source_def Let_def
      resolve_init_scripts_path_def default_init_scripts_path_def)

text \<open>What the coordinator opened. Each effect that opens something, with the one that closes it.\<close>

definition released :: "app_event list \<Rightarrow> bool" where
  "released evs \<longleftrightarrow> (\<forall>(opens, closes)\<in>{(PoolCreated, PoolClosed), (ClientCreated, ClientClosed),
     (Connected, Disconnected)}. opens \<in> set evs \<longrightarrow> closes \<in> set evs)"

text \<open>A coordinator releases what it opened exactly if the migrations succeeded and its listener ended well.
  Where the pool connects, a run of the coordinator closes its pool, its HTTP client and its
  listening connection if and only if the migrations succeed and the listener connects,
  listens and closes without an exception; otherwise something stays open.\<close>

theorem coordinator_releases:
  "released (fst (run_coordinator env settings True c w rounds d)) \<longleftrightarrow>
    snd (run_migrations c) = Inr () \<and> ln_connects w \<and> ln_adds w \<and> ln_removes w \<and> ln_closes w"
  by (cases "run_migrations c"; cases "snd (run_migrations c)")
     (simp_all add: run_coordinator_def start_coordinator_def postgres_listen_loop_def stop_coordinator_def
       released_def Let_def)

text \<open>A listener that did not come up. If the listener's connection is refused, the coordinator serves all the same, but
  no notification reaches the hub, and at the end neither client nor pool is closed.\<close>

theorem dead_listener_unnoticed:
  assumes "\<not> ln_connects w" and "run_migrations c = (c', Inr ())"
  shows "run_coordinator env (Some settings) True c w rounds d =
    ([PoolCreated, ClientCreated, Migrated, TasksStarted, StopSet], c', scheduler_loop settings rounds d, new_hub)"
  using assms
  by (simp add: run_coordinator_def start_coordinator_def postgres_listen_loop_def stop_coordinator_def)

text \<open>With a listener that comes up, the hub at the end has dispatched every notification it was delivered.\<close>

theorem listener_feeds_hub:
  assumes "ln_connects w" "ln_adds w" and "run_migrations c = (c', Inr ())"
  shows "snd (snd (snd (run_coordinator env settings True c w rounds d))) =
    foldl (\<lambda>h text. on_notify text h) new_hub (ln_texts w)"
  using assms
  by (simp add: run_coordinator_def start_coordinator_def postgres_listen_loop_def Let_def)

text \<open>\<^verbatim>\<open>init_database\<close> closes its pool whatever the migrations do.\<close>

theorem init_database_releases:
  "released (fst (init_database pool_connects c)) \<and>
   fst (snd (init_database pool_connects c)) = (if pool_connects then fst (run_migrations c) else c)"
  by (auto simp: init_database_def released_def split: prod.split sum.split)

end
