(* ===== verification/Spec2Isabelle.thy ===== *)
theory Spec2Isabelle
  imports Coordinator_Routes Executor_Pool Duck_Results Fleet Cluster_Safety Transaction_Safety Coordinator_App
begin

text \<open>
  DuckLauncher runs SQL queries on a fleet of DuckDB workers. A coordinator (a FastAPI application)
  keeps workers, users, sessions, queries and sheets in PostgreSQL, gives every browser a session,
  accepts queries, assigns them to workers over HTTP, and streams changes of their status to
  clients. A worker registers with the coordinator, sends heartbeats, runs queries on a pool of
  DuckDB connections, keeps results as Parquet files and reports completions. This library models the
  Python package \<^verbatim>\<open>src/ducklauncher\<close>, one theory per part of it.

  \<^bold>\<open>Foundations.\<close> \<open>Prelude\<close> has identifiers, instants, errors and the two forms of
  \<^verbatim>\<open>COALESCE\<close>; \<open>Py_Str\<close>, \<open>Uuid\<close> and \<open>Json\<close> are the parts of Python's standard library the source uses
  (string methods, \<^verbatim>\<open>str(UUID)\<close> and \<^verbatim>\<open>UUID(str)\<close> with their round trip, and flat JSON objects with
  theirs); \<open>Sql\<close> writes the statements the source sends to PostgreSQL as functions on tables, which are
  lists of rows in scan order; \<open>Schema\<close> is \<^verbatim>\<open>db/migrations.sql\<close>, one record per table, and the
  database: the tables, the notification channel and the server's payload limit. \<open>Machine\<close> is the
  interface between a component's operations and theorems about sequences of them.

  \<^bold>\<open>The query store.\<close> \<open>Query_Store\<close> has every operation of \<^verbatim>\<open>db/queries.py\<close> and \<^verbatim>\<open>db/notify.py\<close>
  under its own name: registration and heartbeats of workers, submission, claim, completion,
  cancellation and revert of queries, the report of an unreachable worker and the sweep of stale
  ones. An operation takes the instants and fresh ids it reads, and the database, and returns the
  database with a value or the error of the notification; inside a transaction an error restores the
  database, outside it does not. \<open>Store_Effects\<close> says what each operation does to each table,
  \<open>Store_Invariant\<close> gives the life cycle of a row (pending, running, completed, failed, cancelled),
  the invariant \<open>store_wf\<close> and the interpretations of the machine, \<open>Claim_Laws\<close> is about the load of
  workers and their choice, \<open>Store_Properties\<close> and \<open>Store_Recovery\<close> hold the theorems.

  \<^bold>\<open>Concurrent claims.\<close> In \<open>Query_Store\<close> a claim is one step. \<open>Transactions\<close> cuts the two claims into their
  statements, as PostgreSQL runs them at \<^verbatim>\<open>READ COMMITTED\<close>: \<^verbatim>\<open>FOR UPDATE SKIP LOCKED\<close> locks the pending row, the
  worker is chosen from what is committed, the row is written and announced, and the others see it after
  the commit; claims run on the pool's connections (\<^verbatim>\<open>db/pool.py\<close>) and interleave with each other and
  with the other operations of the store (\<open>tx_step\<close>). \<open>Transaction_Laws\<close> has the invariant \<open>tx_inv\<close>,
  \<open>Transaction_Facts\<close> what runs keep: the board of \<open>Store_Invariant\<close>, the number of claims of a query, the
  load of a worker with the claims that chose it, the statements a claim has left. \<open>Transaction_Safety\<close> holds
  the properties, that a claim which runs alone is the claim of \<open>Query_Store\<close>, and two concrete
  interleavings in which locking is not enough.

  \<^bold>\<open>Accounts and sessions.\<close> \<open>Account_Store\<close> is \<^verbatim>\<open>db/users.py\<close>, \<^verbatim>\<open>db/sessions.py\<close> and
  \<^verbatim>\<open>db/sheets.py\<close>. \<open>Session_Interface\<close> is what the middleware relies on in the store of sessions, which
  \<open>Account_Store\<close> provides and \<open>Session_Auth\<close> (\<^verbatim>\<open>coordinator/middleware.py\<close> and
  \<^verbatim>\<open>coordinator/auth.py\<close>) uses; the answers of the OIDC library are parameters.

  \<^bold>\<open>Configuration.\<close> \<open>Settings\<close> is the two settings classes of \<^verbatim>\<open>config.py\<close>, the worker's paths, id and
  pool size, and the worker command of \<^verbatim>\<open>cli.py\<close> (the coordinator's is in \<open>Coordinator_App\<close>). \<open>Init_Scripts\<close> is the substitution of the
  environment into the init scripts, whose regular expression is written out as a scanner,
  and their splitting into statements.

  \<^bold>\<open>Events.\<close> \<open>Event_Bus\<close> is the interface of a hub; \<open>Event_Hub\<close> is \<^verbatim>\<open>coordinator/events.py\<close> and the
  stream of \<^verbatim>\<open>/queries/{query_id}/events\<close> as a function of what each turn of its loop meets (a
  disconnected client, a timeout, an event).

  \<^bold>\<open>Scheduling and routes.\<close> \<open>Work_Queue\<close> is the batch loop over an interface to a store of jobs;
  \<open>Scheduler\<close> is \<^verbatim>\<open>coordinator/scheduler.py\<close> over the query store. \<open>Http\<close> has requests, responses and
  the outcome of requests the program sends, \<open>Models\<close> the bodies of \<^verbatim>\<open>models.py\<close>;
  \<open>Coordinator_Routes\<close> has one definition per handler of \<^verbatim>\<open>coordinator/routes.py\<close>.

  \<^bold>\<open>The coordinator's process.\<close> \<open>Migrations\<close> is \<^verbatim>\<open>db/migrations.sql\<close> as data and its execution on a catalog
  of tables with rows: a static check of such a script is proved sound, and the file passes it.
  \<open>Coordinator_App\<close> is the coordinator command, the lifespan of \<^verbatim>\<open>apps/coordinator.py\<close> as the sequence of
  what it opens, starts and closes, and the listener around its callback.

  \<^bold>\<open>The worker.\<close> \<open>Duck_Executor\<close> is the class \<^verbatim>\<open>DuckDBExecutor\<close> of \<^verbatim>\<open>worker/duckdb.py\<close>: the queue of
  connections, the dictionary of active queries, one definition per method. \<open>Executor_Pool\<close> cuts the
  calls that run in threads into their atomic steps (\<open>advance\<close>), lets any number of threads interleave
  (\<open>pool_step\<close>) and proves the invariant \<open>pool_inv\<close>, from which follow that connections are conserved,
  that calls return, and what the dictionary of active queries contains. \<open>Duck_Results\<close> is the part of
  the class that reads: pages of a result and the catalog; \<open>Sql_Quote\<close> reads quoted SQL texts, for the
  theorems on what is put between quotes here and in the init scripts. \<open>Worker_Registration\<close> is
  \<^verbatim>\<open>worker/registration.py\<close>, \<open>Worker_Routes\<close> is \<^verbatim>\<open>worker/routes.py\<close> with the tasks that execute and report
  queries as steps of the application (\<open>worker_step\<close>, invariant \<open>app_inv\<close>), \<open>Worker_App\<close> is the
  lifespan of \<^verbatim>\<open>apps/worker.py\<close>.

  \<^bold>\<open>The fleet.\<close> \<open>Fleet\<close> connects the two sides by the bodies they exchange: the worker's admission answers
  the coordinator's dispatch, the reports of a task meet the completion handler, and a page of a
  result is answered from the worker's file.

  \<^bold>\<open>The whole system.\<close> \<open>Cluster\<close> is one state of the coordinator's database, the claims under way on
  its connections, the requests and reports on their way, and every worker with its executor and tasks; its step
  relation has a step for everything that can happen: a store operation commits, a claim begins, executes a
  statement or is rolled back, a dispatch
  arrives, arrives late, is answered or lost, a task executes and reports, a report is repeated or
  arrives, a worker is told to stop, boots or restarts. Two history variables record the executions and the faults that happened.
  \<open>Cluster_Facts\<close> has the effect of each step on each part, \<open>Cluster_Invariant\<close> one lemma per invariant and step,
  \<open>Cluster_Safety\<close> the interpretation of the machine and the two theorems about every run: stored results come
  from executions of the stored text, and no running query is forgotten but by a named fault. Claims interleave there
  statement by statement, by the steps of \<open>Transactions\<close> and their invariant.

  \<^bold>\<open>Other tasks.\<close> A handler or a loop that awaits a request lets other tasks commit. The
  answer of a worker, the clocks and the store operations others commit meanwhile are given by a
  \<open>world\<close> (the scheduler) or by arguments (cancellation), as arbitrary sequences of store operations;
  theorems quantify over them. There a single store operation is one step; what concurrent claims
  do to each other is in \<open>Transactions\<close>, where the other operations still commit in one step, as soon as the
  query rows they change are not locked. In a worker, what
  runs under a lock, one method of the queue and one statement of the library are one step each; the
  application's own thread runs from one await to the next in one step.

  \<^bold>\<open>Parameters.\<close> DuckDB and the worker's files are the record \<open>duckdb\<close> of functions on a state nothing
  else is known of. The theorems that need more say so: \<open>connects\<close> (opening a connection succeeds),
  \<open>removes_files\<close> (a file that is removed is gone, and opening and closing connections touches none) and
  \<open>reads_parquet\<close> (what the three statements on a result file return); \<open>sample_duckdb\<close> and \<open>page_duckdb\<close>
  satisfy them. The host of a worker is the record \<open>host\<close>. Floating-point numbers are reals.

  \<^bold>\<open>Bounds.\<close> Every notification the store sends without an error text has at most 130 characters, so
  the theorems that need a notification to succeed assume a payload limit of at least 130; the limit of
  PostgreSQL is 7999. The poll of a cancellation is unrolled at the code's twenty turns. The
  stream's loop is over the finite list of what its turns met so far, and so is the heartbeat's; a batch
  ends because its turns are bounded by \<^verbatim>\<open>max_batch\<close>, a registration because its attempts are. The only
  fuel is the number of steps a thread is run for, and eight is enough: every step lowers
  \<open>steps_left\<close>, which is at most eight.

  \<^bold>\<open>Not modelled.\<close> The drivers and frameworks (asyncpg, FastAPI, httpx, authlib, pydantic's
  validation apart from the status of a completion), logging, the creation of the applications and the
  mounting of their routes, the interleaving of the statements of a report of an unreachable worker or of a sweep, the
  cancellation of asyncio tasks inside the code they run (a shutdown lists the tasks it cancels), the click declarations, the
  Helm chart, and the web client. Strings are Latin-1.
\<close>

end
